theory Spec2Isabelle
  imports Main "HOL-Library.Sublist" "HOL-Library.AList"
begin

unbundle bit_operations_syntax

section \<open>The packaging script \<open>scripts/package.py\<close>\<close>

subsection \<open>Data model\<close>

datatype ArchiveType = TGZ | ZIP

datatype ShellType = BASH | BAT

record JDK =
  jdk_id :: string
  download_url :: string
  archive_type :: ArchiveType

record Platform =
  key :: string
  jdk :: JDK
  jar_platform_classifier :: string
  shell_type :: ShellType
  compress_to :: ArchiveType

text \<open>
  A path is the list of its components below the project root, so \<open>PROJECT_ROOT\<close> is the
  empty list and \<open>base / name\<close> appends one component. Every name the script joins to a
  path (platform key, runtime id, version tag, classifier) is taken as a single component.
\<close>

type_synonym path = "string list"

definition PROJECT_ROOT :: path where
  "PROJECT_ROOT = []"

definition LIBS_DIR :: path where
  "LIBS_DIR = PROJECT_ROOT @ [''build'', ''libs'']"

definition APP_NAME :: string where
  "APP_NAME = ''janus''"

definition WORK_DIR :: path where
  "WORK_DIR = PROJECT_ROOT @ [''target'', ''packaging'']"

definition TMP_DIR :: path where
  "TMP_DIR = WORK_DIR @ [''tmp'']"

definition OUTPUT_DIR :: path where
  "OUTPUT_DIR = WORK_DIR @ [''output'']"

definition JDK_DIR :: path where
  "JDK_DIR = WORK_DIR @ [''jdks'']"

definition platforms :: "(string \<times> Platform) list" where
  "platforms =
    [(''windows-x86_64'',
      \<lparr>key = ''windows-x86_64'',
       jdk = \<lparr>jdk_id = ''kona-25.0.1-windows-x86_64'',
              download_url = ''https://github.com/Tencent/TencentKona-25/releases/download/TencentKona-25.0.1/TencentKona-25.0.1.b1_jdk_windows-x86_64_signed.zip'',
              archive_type = ZIP\<rparr>,
       jar_platform_classifier = ''windows-x86_64'',
       shell_type = BAT,
       compress_to = ZIP\<rparr>),
     (''linux-x86_64'',
      \<lparr>key = ''linux-x86_64'',
       jdk = \<lparr>jdk_id = ''kona-25.0.1-linux-x86_64'',
              download_url = ''https://github.com/Tencent/TencentKona-25/releases/download/TencentKona-25.0.1/TencentKona-25.0.1.b1-jdk_linux-x86_64.tar.gz'',
              archive_type = TGZ\<rparr>,
       jar_platform_classifier = ''linux-x86_64'',
       shell_type = BASH,
       compress_to = TGZ\<rparr>)]"

subsection \<open>Launcher scripts\<close>

definition LF :: char where
  "LF = CHR 0x0A"

definition CR :: char where
  "CR = CHR 0x0D"

definition generate_bash_script :: "string \<Rightarrow> string \<Rightarrow> string" where
  \<open>generate_bash_script java_exec_path jar_path =
     (''#!/bin/bash'' @ [LF]) @
     (java_exec_path @ '' --enable-native-access=ALL-UNNAMED -jar '' @ jar_path @ '' "$@"'' @ [LF])\<close>

definition generate_bat_script :: "string \<Rightarrow> string \<Rightarrow> string" where
  \<open>generate_bat_script java_exec_path jar_path =
     (''@echo off'' @ [CR, LF]) @
     (java_exec_path @ '' --enable-native-access=ALL-UNNAMED -jar '' @ jar_path @ '' %*'' @ [CR, LF])\<close>

subsection \<open>The world the script runs in\<close>

text \<open>
  The file system is an association list from paths to nodes; its order stands for the
  order in which the host enumerates directory entries. A file carries its bytes and its
  permission bits. Symbolic links are leaves and are never followed.
\<close>

datatype node = Dir | File string nat | Symlink path | Device

type_synonym filesystem = "(path \<times> node) list"

datatype exn =
    FileNotFoundError | NotADirectoryError | IsADirectoryError | FileExistsError
  | TypeError | ValueError
  | ConnectionError | HTTPError nat | ChunkedEncodingError
  | BadZipFile | ReadError
  | OutsideDestinationError | LinkOutsideDestinationError | SpecialFileError
  | ShutilError

datatype message =
    Msg_Packaging_for string
  | Msg_Downloading string
  | Msg_Cache_hit string
  | Msg_Extracting string
  | Msg_JAR_not_found path
  | Msg_java_not_found path
  | Msg_Package_created string path
  | Msg_Compressing string path
  | Msg_Failed string
  | Msg_All_packaged

datatype event =
    Ev_subprocess path "string list"
  | Ev_http_get string
  | Ev_rmtree path
  | Ev_mkdir path
  | Ev_unlink path
  | Ev_open_wb path
  | Ev_rename path path
  | Ev_extractall path path
  | Ev_copy2 path path
  | Ev_write_text path
  | Ev_chmod path nat
  | Ev_move path path
  | Ev_zip_create path
  | Ev_tar_create path
  | Ev_print message

record world =
  fs :: filesystem
  trace :: "event list"

text \<open>
  What the script receives from outside: one archive member, one HTTP response, and the
  host environment (operating system, interpreter features, network, build tool, archive
  codecs).
\<close>

datatype member_kind = RegFile string | Directory | SymLink path | Special

record member =
  name :: path
  kind :: member_kind
  mode :: nat

datatype zip_method = ZIP_STORED | ZIP_DEFLATED

datatype content_length = NoHeader | BadHeader | Length nat

datatype response =
    NoConnection
  | Response nat content_length "string list" bool

record env =
  os_name :: string
  rmtree_has_onexc :: bool
  tar_has_filter :: bool
  new_file_mode :: nat
  http_get :: "event list \<Rightarrow> string \<Rightarrow> response"
  subprocess_run :: "path \<Rightarrow> string list \<Rightarrow> filesystem \<Rightarrow> (exn + int) \<times> filesystem"
  zip_decode :: "string \<Rightarrow> (path \<times> string option) list option"
  tgz_decode :: "string \<Rightarrow> member list option"
  zip_encode :: "zip_method \<Rightarrow> (path \<times> string \<times> nat) list \<Rightarrow> string"
  tgz_encode :: "(path \<times> node) list \<Rightarrow> string"

subsection \<open>Sequencing, exceptions and the log\<close>

type_synonym 'a action = "world \<Rightarrow> (exn + 'a) \<times> world"

definition ret :: "'a \<Rightarrow> 'a action" where
  "ret x w = (Inr x, w)"

definition raise :: "exn \<Rightarrow> 'a action" where
  "raise e w = (Inl e, w)"

definition and_then :: "'a action \<Rightarrow> ('a \<Rightarrow> 'b action) \<Rightarrow> 'b action" where
  "and_then m f w = (case m w of (Inl e, w') \<Rightarrow> (Inl e, w') | (Inr x, w') \<Rightarrow> f x w')"

definition next_do :: "unit action \<Rightarrow> 'b action \<Rightarrow> 'b action" where
  "next_do m k = and_then m (\<lambda>_. k)"

definition when_do :: "bool \<Rightarrow> unit action \<Rightarrow> unit action" where
  "when_do b m = (if b then m else ret ())"

definition emit :: "event \<Rightarrow> unit action" where
  "emit e w = (Inr (), w\<lparr>trace := trace w @ [e]\<rparr>)"

definition print :: "message \<Rightarrow> unit action" where
  "print m = emit (Ev_print m)"

definition try_except :: "'a action \<Rightarrow> exn \<Rightarrow> 'a action \<Rightarrow> 'a action" where
  "try_except m e handler w =
     (case m w of (Inl e', w') \<Rightarrow> if e' = e then handler w' else (Inl e', w') | r \<Rightarrow> r)"

text \<open>A \<open>for\<close> loop over a list: an exception in the body leaves the loop.\<close>

fun for_each :: "('a \<Rightarrow> unit action) \<Rightarrow> 'a list \<Rightarrow> unit action" where
  "for_each body [] w = (Inr (), w)"
| "for_each body (x # xs) w =
     (case body x w of (Inl e, w') \<Rightarrow> (Inl e, w') | (Inr _, w') \<Rightarrow> for_each body xs w')"

definition set_fs :: "filesystem \<Rightarrow> unit action" where
  "set_fs f w = (Inr (), w\<lparr>fs := f\<rparr>)"

subsection \<open>File system primitives\<close>

definition lookup :: "filesystem \<Rightarrow> path \<Rightarrow> node option" where
  "lookup f p = map_of f p"

definition exists :: "filesystem \<Rightarrow> path \<Rightarrow> bool" where
  "exists f p = (lookup f p \<noteq> None)"

definition is_dir :: "filesystem \<Rightarrow> path \<Rightarrow> bool" where
  "is_dir f p = (lookup f p = Some Dir)"

definition put :: "filesystem \<Rightarrow> path \<Rightarrow> node \<Rightarrow> filesystem" where
  "put f p n = AList.update p n f"

definition remove_tree :: "filesystem \<Rightarrow> path \<Rightarrow> filesystem" where
  "remove_tree f p = filter (\<lambda>(q, n). \<not> prefix p q) f"

definition rekey :: "path \<Rightarrow> path \<Rightarrow> filesystem \<Rightarrow> filesystem" where
  "rekey src dst f =
     map (\<lambda>(q, n). if prefix src q then (dst @ drop (length src) q, n) else (q, n)) f"

definition path_exists :: "path \<Rightarrow> bool action" where
  "path_exists p w = (Inr (exists (fs w) p), w)"

definition put_node :: "path \<Rightarrow> node \<Rightarrow> unit action" where
  "put_node p n w = set_fs (put (fs w) p n) w"

text \<open>The proper ancestors of a path below the project root, outermost first.\<close>

definition ancestors :: "path \<Rightarrow> path list" where
  "ancestors p = map (\<lambda>k. take k p) [1..<length p]"

text \<open>\<open>os.makedirs\<close>: each missing directory is created; a non-directory in the way raises.\<close>

definition ensure_dir :: "path \<Rightarrow> unit action" where
  "ensure_dir d w =
     (case lookup (fs w) d of
        None \<Rightarrow> put_node d Dir w
      | Some Dir \<Rightarrow> ret () w
      | Some _ \<Rightarrow> raise NotADirectoryError w)"

definition makedirs :: "path list \<Rightarrow> unit action" where
  "makedirs ds = for_each ensure_dir ds"

text \<open>\<open>Path.mkdir(parents=True, exist_ok=...)\<close>.\<close>

definition mkdir_parents :: "bool \<Rightarrow> path \<Rightarrow> unit action" where
  "mkdir_parents exist_ok p =
     next_do (emit (Ev_mkdir p))
       (\<lambda>w. case lookup (fs w) p of
               Some n \<Rightarrow> if exist_ok \<and> n = Dir then ret () w else raise FileExistsError w
             | None \<Rightarrow> next_do (makedirs (ancestors p)) (put_node p Dir) w)"

text \<open>\<open>Path.unlink()\<close>.\<close>

definition unlink :: "path \<Rightarrow> unit action" where
  "unlink p =
     next_do (emit (Ev_unlink p))
       (\<lambda>w. case lookup (fs w) p of
               None \<Rightarrow> raise FileNotFoundError w
             | Some Dir \<Rightarrow> raise IsADirectoryError w
             | Some _ \<Rightarrow> set_fs (AList.delete p (fs w)) w)"

text \<open>\<open>os.chmod\<close> and \<open>Path.chmod\<close>.\<close>

definition chmod :: "path \<Rightarrow> nat \<Rightarrow> unit action" where
  "chmod p m =
     next_do (emit (Ev_chmod p m))
       (\<lambda>w. case lookup (fs w) p of
               None \<Rightarrow> raise FileNotFoundError w
             | Some (File d _) \<Rightarrow> put_node p (File d m) w
             | Some _ \<Rightarrow> ret () w)"

definition S_IWRITE :: nat where
  "S_IWRITE = 128"

text \<open>
  The step of \<open>shutil.rmtree\<close> that failed and is handed to the \<open>onexc\<close> handler: in this
  model \<open>os.lstat\<close> on a missing path, or \<open>os.scandir\<close> on something that is no directory.
\<close>

datatype os_func = Os_lstat | Os_scandir

definition call_os_func :: "os_func \<Rightarrow> path \<Rightarrow> unit action" where
  "call_os_func func p w =
     (case lookup (fs w) p of
        None \<Rightarrow> raise FileNotFoundError w
      | Some n \<Rightarrow> if func = Os_scandir \<and> n \<noteq> Dir then raise NotADirectoryError w else ret () w)"

definition remove_readonly :: "os_func \<Rightarrow> path \<Rightarrow> unit action" where
  "remove_readonly func p = next_do (chmod p S_IWRITE) (call_os_func func p)"

text \<open>
  \<open>shutil.rmtree(p, onexc=handler)\<close> and \<open>shutil.rmtree(p)\<close>. An interpreter whose
  \<open>rmtree\<close> has no \<open>onexc\<close> parameter raises \<open>TypeError\<close> at the call. After the handler
  returns, \<open>rmtree\<close> gives up on that path and returns.
\<close>

definition rmtree :: "env \<Rightarrow> (os_func \<Rightarrow> path \<Rightarrow> unit action) option \<Rightarrow> path \<Rightarrow> unit action" where
  "rmtree E onexc p =
     (if onexc \<noteq> None \<and> \<not> rmtree_has_onexc E then raise TypeError
      else next_do (emit (Ev_rmtree p))
        (\<lambda>w. case lookup (fs w) p of
                Some Dir \<Rightarrow> set_fs (remove_tree (fs w) p) w
              | None \<Rightarrow>
                  (case onexc of None \<Rightarrow> raise FileNotFoundError w
                   | Some handler \<Rightarrow> handler Os_lstat p w)
              | Some _ \<Rightarrow>
                  (case onexc of None \<Rightarrow> raise NotADirectoryError w
                   | Some handler \<Rightarrow> handler Os_scandir p w)))"

text \<open>
  Creating or truncating a file for writing (\<open>open(p, 'wb')\<close>, \<open>write_text\<close>, an archive
  opened in mode \<open>w\<close>): the parent must be a directory, a directory under the name raises,
  an existing file keeps its permission bits.
\<close>

definition create_file :: "env \<Rightarrow> path \<Rightarrow> string \<Rightarrow> unit action" where
  "create_file E p d w =
     (if p = [] then raise IsADirectoryError w
      else if butlast p \<noteq> [] \<and> \<not> exists (fs w) (butlast p) then raise FileNotFoundError w
      else if butlast p \<noteq> [] \<and> \<not> is_dir (fs w) (butlast p) then raise NotADirectoryError w
      else case lookup (fs w) p of
             Some Dir \<Rightarrow> raise IsADirectoryError w
           | Some (File _ m) \<Rightarrow> put_node p (File d m) w
           | _ \<Rightarrow> put_node p (File d (new_file_mode E)) w)"

text \<open>\<open>f.write(data)\<close> on a file opened for writing.\<close>

definition append_file :: "path \<Rightarrow> string \<Rightarrow> unit action" where
  "append_file p d w =
     (case lookup (fs w) p of
        Some (File old m) \<Rightarrow> put_node p (File (old @ d) m) w
      | _ \<Rightarrow> raise FileNotFoundError w)"

text \<open>
  \<open>Path.rename(target)\<close>: on Windows an existing target raises, elsewhere the source
  replaces a file of that name.
\<close>

definition rename :: "env \<Rightarrow> path \<Rightarrow> path \<Rightarrow> unit action" where
  "rename E src dst =
     next_do (emit (Ev_rename src dst))
       (\<lambda>w. if \<not> exists (fs w) src then raise FileNotFoundError w
             else if dst = [] \<or> (butlast dst \<noteq> [] \<and> \<not> is_dir (fs w) (butlast dst))
               then raise FileNotFoundError w
             else if exists (fs w) dst \<and> os_name E = ''nt'' then raise FileExistsError w
             else if is_dir (fs w) dst then raise IsADirectoryError w
             else if src = dst then ret () w
             else set_fs (rekey src dst (remove_tree (fs w) dst)) w)"

text \<open>
  \<open>shutil.move(src, dst)\<close>: into \<open>dst\<close> when that is a directory (and then it refuses an
  existing entry of the source's name), onto \<open>dst\<close> otherwise.
\<close>

definition move :: "path \<Rightarrow> path \<Rightarrow> unit action" where
  "move src dst =
     next_do (emit (Ev_move src dst))
       (\<lambda>w. let real_dst = (if is_dir (fs w) dst then dst @ [last src] else dst) in
             if \<not> exists (fs w) src \<or> src = [] then raise FileNotFoundError w
             else if is_dir (fs w) dst \<and> exists (fs w) real_dst then raise ShutilError w
             else if real_dst = [] \<or> (butlast real_dst \<noteq> [] \<and> \<not> is_dir (fs w) (butlast real_dst))
               then raise FileNotFoundError w
             else if prefix src real_dst then raise ShutilError w
             else set_fs (rekey src real_dst (remove_tree (fs w) real_dst)) w)"

text \<open>
  \<open>shutil.copy2(src, dst)\<close>: the file and its permission bits; into \<open>dst\<close> when that is
  a directory.
\<close>

definition copy2 :: "path \<Rightarrow> path \<Rightarrow> unit action" where
  "copy2 src dst =
     next_do (emit (Ev_copy2 src dst))
       (\<lambda>w. let target = (if is_dir (fs w) dst then dst @ [last src] else dst) in
             case lookup (fs w) src of
               None \<Rightarrow> raise FileNotFoundError w
             | Some Dir \<Rightarrow> raise IsADirectoryError w
             | Some n \<Rightarrow>
                 if target = [] \<or> is_dir (fs w) target then raise IsADirectoryError w
                 else if butlast target \<noteq> [] \<and> \<not> is_dir (fs w) (butlast target)
                   then raise FileNotFoundError w
                 else put_node target n w)"

text \<open>
  \<open>Path.write_text(content)\<close>: the file is opened in text mode, which on Windows writes
  every \<open>\n\<close> as \<open>\r\n\<close>.
\<close>

definition text_mode :: "env \<Rightarrow> string \<Rightarrow> string" where
  "text_mode E s =
     (if os_name E = ''nt'' then concat (map (\<lambda>c. if c = LF then [CR, LF] else [c]) s) else s)"

definition write_text :: "env \<Rightarrow> path \<Rightarrow> string \<Rightarrow> unit action" where
  "write_text E p content =
     next_do (emit (Ev_write_text p)) (create_file E p (text_mode E content))"

text \<open>\<open>str(path)\<close>: the components joined by the host's separator.\<close>

fun join_with :: "string \<Rightarrow> path \<Rightarrow> string" where
  "join_with sep [] = ''.''"
| "join_with sep [c] = c"
| "join_with sep (c # cs) = c @ sep @ join_with sep cs"

definition path_str :: "env \<Rightarrow> path \<Rightarrow> string" where
  "path_str E p = join_with (if os_name E = ''nt'' then [CHR 0x5C] else ''/'') p"

subsection \<open>Network and archives\<close>

text \<open>
  \<open>requests.get(url, stream=True)\<close>, \<open>raise_for_status()\<close> and the read of the
  \<open>content-length\<close> header. The answer of the network may depend on everything the run
  did before.
\<close>

definition requests_get :: "env \<Rightarrow> string \<Rightarrow> response action" where
  "requests_get E url w =
     (case http_get E (trace w) url of
        NoConnection \<Rightarrow> next_do (emit (Ev_http_get url)) (raise ConnectionError) w
      | r \<Rightarrow> next_do (emit (Ev_http_get url)) (ret r) w)"

definition raise_for_status :: "nat \<Rightarrow> unit action" where
  "raise_for_status status = (if 400 \<le> status \<and> status < 600 then raise (HTTPError status) else ret ())"

definition total_size_of :: "content_length \<Rightarrow> nat action" where
  "total_size_of h = (case h of NoHeader \<Rightarrow> ret 0 | BadHeader \<Rightarrow> raise ValueError | Length n \<Rightarrow> ret n)"

text \<open>
  \<open>for data in r.iter_content(block_size): f.write(data)\<close>; a stream that breaks raises
  after the chunks that arrived. The progress bar is not modelled.
\<close>

definition iter_content_write :: "path \<Rightarrow> string list \<Rightarrow> bool \<Rightarrow> unit action" where
  "iter_content_write p chunks broken =
     next_do (for_each (append_file p) chunks)
       (if broken then raise ChunkedEncodingError else ret ())"

text \<open>Opening an archive for reading: the bytes of the file, decoded by the host's codec.\<close>

definition read_file :: "path \<Rightarrow> string action" where
  "read_file p w =
     (case lookup (fs w) p of
        Some (File d _) \<Rightarrow> ret d w
      | Some Dir \<Rightarrow> raise IsADirectoryError w
      | _ \<Rightarrow> raise FileNotFoundError w)"

definition ZipFile_read :: "env \<Rightarrow> path \<Rightarrow> (path \<times> string option) list action" where
  "ZipFile_read E p =
     and_then (read_file p)
       (\<lambda>d. case zip_decode E d of None \<Rightarrow> raise BadZipFile | Some ms \<Rightarrow> ret ms)"

definition tarfile_open_read :: "env \<Rightarrow> path \<Rightarrow> member list action" where
  "tarfile_open_read E p =
     and_then (read_file p)
       (\<lambda>d. case tgz_decode E d of None \<Rightarrow> raise ReadError | Some ms \<Rightarrow> ret ms)"

text \<open>
  \<open>ZipFile.extractall(dest)\<close>: empty, \<open>.\<close> and \<open>..\<close> components of a member name are
  dropped, so every member lands below \<open>dest\<close>; permission bits are not restored.
\<close>

definition zip_target :: "path \<Rightarrow> path \<Rightarrow> path" where
  "zip_target dest nm = dest @ filter (\<lambda>c. c \<noteq> [] \<and> c \<noteq> ''.'' \<and> c \<noteq> ''..'') nm"

definition zip_extract_member :: "env \<Rightarrow> path \<Rightarrow> path \<times> string option \<Rightarrow> unit action" where
  "zip_extract_member E dest m =
     (let target = zip_target dest (fst m) in
      case snd m of
        None \<Rightarrow> makedirs (ancestors target @ [target])
      | Some d \<Rightarrow> next_do (makedirs (ancestors target)) (create_file E target d))"

definition zip_extractall :: "env \<Rightarrow> path \<Rightarrow> path \<Rightarrow> (path \<times> string option) list \<Rightarrow> unit action" where
  "zip_extractall E archive dest ms =
     next_do (emit (Ev_extractall archive dest)) (for_each (zip_extract_member E dest) ms)"

text \<open>
  Lexical normalisation of a path, as the operating system resolves it: \<open>..\<close> steps to the
  parent, and stays in front when it leaves the project root.
\<close>

definition norm_step :: "path \<Rightarrow> string \<Rightarrow> path" where
  "norm_step acc c =
     (if c = ''..'' then (if acc = [] \<or> last acc = ''..'' then acc @ [c] else butlast acc)
      else if c = [] \<or> c = ''.'' then acc
      else acc @ [c])"

definition norm :: "path \<Rightarrow> path" where
  "norm p = foldl norm_step [] p"

text \<open>
  The \<open>data\<close> extraction filter of \<open>tarfile\<close>, after the library's documentation: a member
  that would land outside the destination, a link that points outside it and a device or
  pipe are refused; the permission bits of a regular file lose the set-id, sticky and
  group/other write bits, lose the group/other execute bits when the owner has none, and
  gain owner read and write.
\<close>

definition data_mode :: "nat \<Rightarrow> nat" where
  "data_mode m =
     (let m1 = m AND 493;
          m2 = (if m1 AND 64 = 0 then m1 AND 420 else m1)
      in m2 OR 384)"

definition data_filter :: "path \<Rightarrow> member \<Rightarrow> exn + member" where
  "data_filter dest m =
     (let target = norm (dest @ name m) in
      if \<not> prefix dest target then Inl OutsideDestinationError
      else case kind m of
             Special \<Rightarrow> Inl SpecialFileError
           | SymLink t \<Rightarrow>
               if prefix dest (norm (butlast target @ t)) then Inr m
               else Inl LinkOutsideDestinationError
           | RegFile d \<Rightarrow> Inr (m\<lparr>mode := data_mode (mode m)\<rparr>)
           | Directory \<Rightarrow> Inr m)"

definition tar_extract_member :: "path \<Rightarrow> member \<Rightarrow> unit action" where
  "tar_extract_member dest m =
     (let target = norm (dest @ name m) in
      case kind m of
        Directory \<Rightarrow> makedirs (ancestors target @ [target])
      | RegFile d \<Rightarrow>
          next_do (makedirs (ancestors target))
            (\<lambda>w. if target = [] \<or> is_dir (fs w) target then raise IsADirectoryError w
                  else put_node target (File d (mode m)) w)
      | SymLink t \<Rightarrow>
          next_do (makedirs (ancestors target))
            (\<lambda>w. if target = [] \<or> is_dir (fs w) target then raise IsADirectoryError w
                  else put_node target (Symlink t) w)
      | Special \<Rightarrow>
          next_do (makedirs (ancestors target))
            (\<lambda>w. if target = [] \<or> is_dir (fs w) target then raise IsADirectoryError w
                  else put_node target Device w))"

definition tar_extract_filtered :: "path \<Rightarrow> member \<Rightarrow> unit action" where
  "tar_extract_filtered dest m =
     (case data_filter dest m of Inl e \<Rightarrow> raise e | Inr m' \<Rightarrow> tar_extract_member dest m')"

text \<open>
  \<open>TarFile.extractall(dest, filter='data')\<close> and \<open>TarFile.extractall(dest)\<close>. An
  interpreter whose \<open>extractall\<close> has no \<open>filter\<close> parameter raises \<open>TypeError\<close> at the
  call; the call without a filter is reached only there, and extracts every member as it
  is.
\<close>

definition tar_extractall :: "env \<Rightarrow> path \<Rightarrow> path \<Rightarrow> bool \<Rightarrow> member list \<Rightarrow> unit action" where
  "tar_extractall E archive dest filtered ms =
     (if filtered \<and> \<not> tar_has_filter E then raise TypeError
      else next_do (emit (Ev_extractall archive dest))
             (for_each (if filtered then tar_extract_filtered dest else tar_extract_member dest) ms))"

subsection \<open>\<open>gradle_package_all\<close>\<close>

definition gradle_package_all :: "env \<Rightarrow> int action" where
  "gradle_package_all E w =
     (let gradle_exe = (if os_name E \<noteq> ''nt'' then ''gradlew'' else ''gradlew.bat'');
          gradle_exe_path = PROJECT_ROOT @ [gradle_exe];
          w1 = w\<lparr>trace := trace w @ [Ev_subprocess gradle_exe_path [''packageAll'']]\<rparr>
      in case subprocess_run E gradle_exe_path [''packageAll''] (fs w1) of
           (Inl e, f) \<Rightarrow> (Inl e, w1\<lparr>fs := f\<rparr>)
         | (Inr returncode, f) \<Rightarrow> (Inr returncode, w1\<lparr>fs := f\<rparr>))"

subsection \<open>\<open>package_platform\<close>, stage by stage\<close>

text \<open>Stage 1: the directories.\<close>

definition platform_tmp_folder :: "Platform \<Rightarrow> path" where
  "platform_tmp_folder platform = TMP_DIR @ [key platform]"

definition ensure_directories :: "env \<Rightarrow> Platform \<Rightarrow> unit action" where
  "ensure_directories E platform =
     next_do (rmtree E (Some remove_readonly) TMP_DIR)
    (next_do (mkdir_parents True OUTPUT_DIR)
    (next_do (mkdir_parents True JDK_DIR)
    (next_do (mkdir_parents True TMP_DIR)
    (next_do (and_then (path_exists (platform_tmp_folder platform))
                (\<lambda>b. when_do b (rmtree E (Some remove_readonly) (platform_tmp_folder platform))))
             (mkdir_parents False (platform_tmp_folder platform))))))"

text \<open>Stage 2: the runtime archive, from the cache or from the network.\<close>

definition extension :: "ArchiveType \<Rightarrow> string" where
  "extension t = (if t = ZIP then ''zip'' else ''tar.gz'')"

definition jdk_archive_path :: "Platform \<Rightarrow> path" where
  "jdk_archive_path platform =
     JDK_DIR @ [jdk_id (jdk platform) @ ''.'' @ extension (archive_type (jdk platform))]"

definition jdk_archive_path_tmp :: path where
  "jdk_archive_path_tmp = JDK_DIR @ [''jdk.part'']"

definition fetch_to_tmp :: "env \<Rightarrow> Platform \<Rightarrow> unit action" where
  "fetch_to_tmp E platform =
     and_then (requests_get E (download_url (jdk platform)))
       (\<lambda>r. case r of
               NoConnection \<Rightarrow> raise ConnectionError
             | Response status header chunks broken \<Rightarrow>
                 next_do (raise_for_status status)
                (and_then (total_size_of header)
                   (\<lambda>total_size.
                      next_do (emit (Ev_open_wb jdk_archive_path_tmp))
                     (next_do (create_file E jdk_archive_path_tmp [])
                              (iter_content_write jdk_archive_path_tmp chunks broken)))))"

definition download_jdk :: "env \<Rightarrow> Platform \<Rightarrow> unit action" where
  "download_jdk E platform =
     next_do (print (Msg_Downloading (key platform)))
    (next_do (and_then (path_exists jdk_archive_path_tmp)
                (\<lambda>b. when_do b (unlink jdk_archive_path_tmp)))
    (and_then (path_exists (jdk_archive_path platform))
       (\<lambda>cached. if cached then print (Msg_Cache_hit (key platform))
                  else next_do (fetch_to_tmp E platform)
                               (rename E jdk_archive_path_tmp (jdk_archive_path platform)))))"

text \<open>Stage 3: the extraction.\<close>

definition extract_jdk :: "env \<Rightarrow> Platform \<Rightarrow> unit action" where
  "extract_jdk E platform =
     next_do (print (Msg_Extracting (key platform)))
       (if archive_type (jdk platform) = ZIP then
          and_then (ZipFile_read E (jdk_archive_path platform))
            (zip_extractall E (jdk_archive_path platform) (platform_tmp_folder platform))
        else
          and_then (tarfile_open_read E (jdk_archive_path platform))
            (\<lambda>ms. try_except
                     (tar_extractall E (jdk_archive_path platform) (platform_tmp_folder platform) True ms)
                     TypeError
                     (tar_extractall E (jdk_archive_path platform) (platform_tmp_folder platform) False ms)))"

text \<open>Stage 5: the search for the runtime's executable.\<close>

definition rglob_bin_java :: "filesystem \<Rightarrow> path \<Rightarrow> path list" where
  "rglob_bin_java f folder =
     map fst (filter (\<lambda>(q, n). strict_prefix folder q \<and>
                                2 \<le> length q - length folder \<and>
                                last (butlast q) = ''bin'' \<and> prefix ''java'' (last q)) f)"

fun find_java :: "ShellType \<Rightarrow> path \<Rightarrow> path list \<Rightarrow> path option" where
  "find_java st folder [] = None"
| "find_java st folder (p # ps) =
     (if st = BAT \<and> last p = ''java.exe'' then Some (drop (length folder) p)
      else if st = BASH \<and> last p = ''java'' then Some (drop (length folder) p)
      else find_java st folder ps)"

text \<open>Stage 6: the run script.\<close>

definition script_base_name :: string where
  "script_base_name = ''run-janus''"

definition script_name :: "Platform \<Rightarrow> string" where
  "script_name platform =
     (if shell_type platform = BAT then script_base_name @ ''.bat'' else script_base_name @ ''.sh'')"

definition script_content :: "env \<Rightarrow> Platform \<Rightarrow> path \<Rightarrow> string \<Rightarrow> string" where
  "script_content E platform java_bin_path jar_name =
     (if shell_type platform = BAT then generate_bat_script (path_str E java_bin_path) jar_name
      else generate_bash_script (''./'' @ path_str E java_bin_path) jar_name)"

definition create_run_script :: "env \<Rightarrow> Platform \<Rightarrow> path \<Rightarrow> string \<Rightarrow> unit action" where
  "create_run_script E platform java_bin_path jar_name =
     (let script_path = platform_tmp_folder platform @ [script_name platform] in
      next_do (write_text E script_path (script_content E platform java_bin_path jar_name))
              (when_do (shell_type platform = BASH) (chmod script_path 493)))"

text \<open>Stage 7: the move into the output directory.\<close>

definition final_dir_name :: "Platform \<Rightarrow> string \<Rightarrow> string" where
  "final_dir_name platform version_tag = ''janus-'' @ version_tag @ ''-'' @ key platform"

definition final_path :: "Platform \<Rightarrow> string \<Rightarrow> path" where
  "final_path platform version_tag = OUTPUT_DIR @ [final_dir_name platform version_tag]"

definition move_to_output :: "env \<Rightarrow> Platform \<Rightarrow> string \<Rightarrow> unit action" where
  "move_to_output E platform version_tag =
     next_do (and_then (path_exists (final_path platform version_tag))
                (\<lambda>b. when_do b (rmtree E None (final_path platform version_tag))))
    (next_do (move (platform_tmp_folder platform) (final_path platform version_tag))
             (print (Msg_Package_created (key platform) (final_path platform version_tag))))"

text \<open>
  Stage 8: the archive. \<open>os.walk\<close> yields the files below a directory; each is written
  under the name \<open>file_path.relative_to(final_path)\<close>. \<open>tar.add\<close> writes the directory
  itself under \<open>arcname\<close> and everything below it.
\<close>

definition archive_path :: "Platform \<Rightarrow> string \<Rightarrow> path" where
  "archive_path platform version_tag =
     OUTPUT_DIR @ [final_dir_name platform version_tag @ ''.'' @
                   (if compress_to platform = ZIP then ''zip'' else ''tar.gz'')]"

definition walk_files :: "filesystem \<Rightarrow> path \<Rightarrow> (path \<times> string \<times> nat) list" where
  "walk_files f start =
     (if is_dir f start then
        concat (map (\<lambda>(q, n). case n of File d m \<Rightarrow> if strict_prefix start q then [(q, d, m)] else []
                                | _ \<Rightarrow> []) f)
      else [])"

definition zip_members :: "filesystem \<Rightarrow> path \<Rightarrow> (path \<times> string \<times> nat) list" where
  "zip_members f final = map (\<lambda>(file_path, d, m). (drop (length final) file_path, d, m)) (walk_files f final)"

definition tar_members :: "filesystem \<Rightarrow> path \<Rightarrow> string \<Rightarrow> (path \<times> node) list" where
  "tar_members f final arcname =
     map (\<lambda>(q, n). (arcname # drop (length final) q, n)) (filter (\<lambda>(q, n). prefix final q) f)"

definition compress_package :: "env \<Rightarrow> Platform \<Rightarrow> string \<Rightarrow> unit action" where
  "compress_package E platform version_tag =
     next_do (print (Msg_Compressing (key platform) (archive_path platform version_tag)))
       (if compress_to platform = ZIP then
          next_do (emit (Ev_zip_create (archive_path platform version_tag)))
         (next_do (create_file E (archive_path platform version_tag) [])
            (\<lambda>w. create_file E (archive_path platform version_tag)
                    (zip_encode E ZIP_DEFLATED (zip_members (fs w) (final_path platform version_tag))) w))
        else
          next_do (emit (Ev_tar_create (archive_path platform version_tag)))
         (next_do (create_file E (archive_path platform version_tag) [])
            (\<lambda>w. if \<not> exists (fs w) (final_path platform version_tag) then raise FileNotFoundError w
                  else create_file E (archive_path platform version_tag)
                         (tgz_encode E (tar_members (fs w) (final_path platform version_tag)
                                          (final_dir_name platform version_tag))) w)))"

text \<open>The whole function; stage 4 (the build artifact) is written out in it.\<close>

definition jar_name :: "Platform \<Rightarrow> string \<Rightarrow> string" where
  "jar_name platform version_tag =
     ''janus-'' @ version_tag @ ''-'' @ jar_platform_classifier platform @ ''.jar''"

definition assemble_and_pack :: "env \<Rightarrow> Platform \<Rightarrow> string \<Rightarrow> int action" where
  "assemble_and_pack E platform version_tag =
     (let source_jar = LIBS_DIR @ [jar_name platform version_tag];
          dest_jar = platform_tmp_folder platform @ [jar_name platform version_tag]
      in and_then (path_exists source_jar)
           (\<lambda>found. if \<not> found then next_do (print (Msg_JAR_not_found source_jar)) (ret 1)
              else next_do (copy2 source_jar dest_jar)
                (\<lambda>w. case find_java (shell_type platform) (platform_tmp_folder platform)
                             (rglob_bin_java (fs w) (platform_tmp_folder platform)) of
                        None \<Rightarrow> next_do (print (Msg_java_not_found (platform_tmp_folder platform))) (ret 1) w
                      | Some java_bin_path \<Rightarrow>
                          next_do (create_run_script E platform java_bin_path (jar_name platform version_tag))
                         (next_do (move_to_output E platform version_tag)
                         (next_do (compress_package E platform version_tag)
                                  (ret 0))) w)))"

definition package_platform :: "env \<Rightarrow> Platform \<Rightarrow> string \<Rightarrow> int action" where
  "package_platform E platform version_tag =
     next_do (ensure_directories E platform)
    (next_do (download_jdk E platform)
    (next_do (extract_jdk E platform)
             (assemble_and_pack E platform version_tag)))"

subsection \<open>\<open>main\<close>\<close>

fun package_all :: "env \<Rightarrow> string \<Rightarrow> (string \<times> Platform) list \<Rightarrow> int action" where
  "package_all E version [] w = next_do (print Msg_All_packaged) (ret 0) w"
| "package_all E version ((platform_key, platform_data) # rest) w =
     (case next_do (print (Msg_Packaging_for platform_key))
                   (package_platform E platform_data version) w of
        (Inl e, w') \<Rightarrow> (Inl e, w')
      | (Inr res, w') \<Rightarrow>
          if res \<noteq> 0 then next_do (print (Msg_Failed platform_key)) (ret res) w'
          else package_all E version rest w')"

definition main :: "env \<Rightarrow> string \<Rightarrow> int action" where
  "main E version =
     and_then (gradle_package_all E)
       (\<lambda>res. if res \<noteq> 0 then ret res else package_all E version platforms)"

subsection \<open>Notions used in the statements\<close>

text \<open>The lines of a text, split at every \<open>\n\<close> as \<open>str.split('\n')\<close> does.\<close>

fun split_LF :: "string \<Rightarrow> string list" where
  "split_LF [] = [[]]"
| "split_LF (c # cs) =
     (if c = LF then [] # split_LF cs
      else (case split_LF cs of [] \<Rightarrow> [[c]] | l # ls \<Rightarrow> (c # l) # ls))"

text \<open>A sample host, and a sample world with both runtimes cached and both artifacts built.\<close>

definition sample_env :: env where
  "sample_env =
     \<lparr>os_name = ''posix'', rmtree_has_onexc = True, tar_has_filter = True, new_file_mode = 420,
      http_get = (\<lambda>_ _. NoConnection),
      subprocess_run = (\<lambda>_ _ f. (Inr 0, f)),
      zip_decode = (\<lambda>_. Some [([''jdk'', ''bin'', ''java.exe''], Some ''MZ'')]),
      tgz_decode = (\<lambda>_. Some [\<lparr>name = [''jdk'', ''bin'', ''java''], kind = RegFile ''ELF'', mode = 493\<rparr>]),
      zip_encode = (\<lambda>_ ms. concat (map (\<lambda>(p, d, m). join_with ''/'' p @ '';'') ms)),
      tgz_encode = (\<lambda>ms. concat (map (\<lambda>(p, n). join_with ''/'' p @ '';'') ms))\<rparr>"

definition sample_world :: world where
  "sample_world =
     \<lparr>fs = [([''target''], Dir), ([''target'', ''packaging''], Dir), (TMP_DIR, Dir), (JDK_DIR, Dir),
            (JDK_DIR @ [''kona-25.0.1-windows-x86_64.zip''], File ''zz'' 420),
            (JDK_DIR @ [''kona-25.0.1-linux-x86_64.tar.gz''], File ''tt'' 420),
            ([''build''], Dir), (LIBS_DIR, Dir),
            (LIBS_DIR @ [''janus-1.0-windows-x86_64.jar''], File ''jarw'' 420),
            (LIBS_DIR @ [''janus-1.0-linux-x86_64.jar''], File ''jarl'' 420)],
      trace = []\<rparr>"

text \<open>
  A world in which the Linux bundle is assembled in its scratch folder, while the output
  directory still holds the bundle of an earlier run.
\<close>

definition bundle_world :: world where
  "bundle_world =
     \<lparr>fs = [([''target''], Dir), ([''target'', ''packaging''], Dir), (TMP_DIR, Dir), (OUTPUT_DIR, Dir),
            (TMP_DIR @ [''linux-x86_64''], Dir),
            (TMP_DIR @ [''linux-x86_64'', ''jdk''], Dir),
            (TMP_DIR @ [''linux-x86_64'', ''jdk'', ''bin''], Dir),
            (TMP_DIR @ [''linux-x86_64'', ''jdk'', ''bin'', ''java''], File ''ELF'' 493),
            (TMP_DIR @ [''linux-x86_64'', ''janus-1.0-linux-x86_64.jar''], File ''jarl'' 420),
            (OUTPUT_DIR @ [''janus-1.0-linux-x86_64''], Dir),
            (OUTPUT_DIR @ [''janus-1.0-linux-x86_64'', ''stale.txt''], File ''old'' 420)],
      trace = []\<rparr>"

definition linux_platform :: Platform where
  "linux_platform = snd (platforms ! 1)"

definition windows_platform :: Platform where
  "windows_platform = snd (platforms ! 0)"

text \<open>A fresh checkout after a successful build: no packaging directory yet.\<close>

definition fresh_world :: world where
  "fresh_world =
     \<lparr>fs = [([''build''], Dir), (LIBS_DIR, Dir),
            (LIBS_DIR @ [''janus-1.0-windows-x86_64.jar''], File ''jarw'' 420),
            (LIBS_DIR @ [''janus-1.0-linux-x86_64.jar''], File ''jarl'' 420)],
      trace = []\<rparr>"

text \<open>
  An entry of the extracted tree that the search accepts: below the folder, in a directory
  named \<open>bin\<close>, and named \<open>java.exe\<close> for a batch launcher, \<open>java\<close> for a bash launcher.
\<close>

definition is_java_entry :: "ShellType \<Rightarrow> path \<Rightarrow> path \<Rightarrow> bool" where
  "is_java_entry st folder q =
     (strict_prefix folder q \<and> 2 \<le> length q - length folder \<and> last (butlast q) = ''bin'' \<and>
      last q = (if st = BAT then ''java.exe'' else ''java''))"

text \<open>The sample world after the Windows runtime, which has no \<open>java.exe\<close>, was extracted.\<close>

definition no_java_world :: world where
  "no_java_world =
     \<lparr>fs = [([''target''], Dir), ([''target'', ''packaging''], Dir), (TMP_DIR, Dir), (OUTPUT_DIR, Dir),
            (TMP_DIR @ [''windows-x86_64''], Dir),
            (TMP_DIR @ [''windows-x86_64'', ''jdk''], Dir),
            (TMP_DIR @ [''windows-x86_64'', ''jdk'', ''bin''], Dir),
            (TMP_DIR @ [''windows-x86_64'', ''jdk'', ''bin'', ''java''], File ''ELF'' 493),
            ([''build''], Dir), (LIBS_DIR, Dir),
            (LIBS_DIR @ [''janus-1.0-windows-x86_64.jar''], File ''jarw'' 420)],
      trace = []\<rparr>"

text \<open>
  A world in which the Linux runtime is extracted and the Linux artifact is built, before the
  artifact is copied.
\<close>

definition assembling_world :: world where
  "assembling_world =
     \<lparr>fs = [([''target''], Dir), ([''target'', ''packaging''], Dir), (TMP_DIR, Dir), (OUTPUT_DIR, Dir),
            (TMP_DIR @ [''linux-x86_64''], Dir),
            (TMP_DIR @ [''linux-x86_64'', ''jdk''], Dir),
            (TMP_DIR @ [''linux-x86_64'', ''jdk'', ''bin''], Dir),
            (TMP_DIR @ [''linux-x86_64'', ''jdk'', ''bin'', ''java''], File ''ELF'' 493),
            ([''build''], Dir), (LIBS_DIR, Dir),
            (LIBS_DIR @ [''janus-1.0-linux-x86_64.jar''], File ''jarl'' 420)],
      trace = []\<rparr>"

text \<open>The sample world after the Windows bundle was moved into the output directory.\<close>

definition relocated_world :: world where
  "relocated_world =
     \<lparr>fs = [([''target''], Dir), ([''target'', ''packaging''], Dir), (TMP_DIR, Dir), (OUTPUT_DIR, Dir),
            (OUTPUT_DIR @ [''janus-1.0-windows-x86_64''], Dir),
            (OUTPUT_DIR @ [''janus-1.0-windows-x86_64'', ''jdk''], Dir),
            (OUTPUT_DIR @ [''janus-1.0-windows-x86_64'', ''jdk'', ''bin''], Dir),
            (OUTPUT_DIR @ [''janus-1.0-windows-x86_64'', ''jdk'', ''bin'', ''java.exe''], File ''MZ'' 420),
            (OUTPUT_DIR @ [''janus-1.0-windows-x86_64'', ''janus-1.0-windows-x86_64.jar''], File ''jarw'' 420),
            (OUTPUT_DIR @ [''janus-1.0-windows-x86_64'', ''run-janus.bat''], File ''@echo off'' 420)],
      trace = []\<rparr>"

text \<open>An action whose every run appends to the log only events that satisfy \<open>P\<close>.\<close>

definition emits_only :: "(event \<Rightarrow> bool) \<Rightarrow> 'a action \<Rightarrow> bool" where
  "emits_only P m = (\<forall>w. \<exists>es. trace (snd (m w)) = trace w @ es \<and> list_all P es)"

text \<open>
  The events \<open>package_platform\<close> may log after its first step: no build, no removal of the
  scratch root, none of the messages of \<open>main\<close>.
\<close>

definition later_event :: "event \<Rightarrow> bool" where
  "later_event e =
     (case e of
        Ev_subprocess _ _ \<Rightarrow> False
      | Ev_rmtree p \<Rightarrow> p \<noteq> TMP_DIR
      | Ev_print (Msg_Packaging_for _) \<Rightarrow> False
      | Ev_print (Msg_Failed _) \<Rightarrow> False
      | Ev_print Msg_All_packaged \<Rightarrow> False
      | _ \<Rightarrow> True)"

definition is_subprocess :: "event \<Rightarrow> bool" where
  "is_subprocess e = (case e of Ev_subprocess _ _ \<Rightarrow> True | _ \<Rightarrow> False)"

text \<open>A host whose build fails, and the sample world without the Windows artifact.\<close>

definition failing_build_env :: env where
  "failing_build_env = sample_env\<lparr>subprocess_run := (\<lambda>_ _ f. (Inr 1, f))\<rparr>"

definition no_windows_jar_world :: world where
  "no_windows_jar_world =
     \<lparr>fs = [([''target''], Dir), ([''target'', ''packaging''], Dir), (TMP_DIR, Dir), (JDK_DIR, Dir),
            (JDK_DIR @ [''kona-25.0.1-windows-x86_64.zip''], File ''zz'' 420),
            (JDK_DIR @ [''kona-25.0.1-linux-x86_64.tar.gz''], File ''tt'' 420),
            ([''build''], Dir), (LIBS_DIR, Dir),
            (LIBS_DIR @ [''janus-1.0-linux-x86_64.jar''], File ''jarl'' 420)],
      trace = []\<rparr>"

text \<open>The sample world without the Linux artifact.\<close>

definition no_linux_jar_world :: world where
  "no_linux_jar_world =
     \<lparr>fs = [([''target''], Dir), ([''target'', ''packaging''], Dir), (TMP_DIR, Dir), (JDK_DIR, Dir),
            (JDK_DIR @ [''kona-25.0.1-windows-x86_64.zip''], File ''zz'' 420),
            (JDK_DIR @ [''kona-25.0.1-linux-x86_64.tar.gz''], File ''tt'' 420),
            ([''build''], Dir), (LIBS_DIR, Dir),
            (LIBS_DIR @ [''janus-1.0-windows-x86_64.jar''], File ''jarw'' 420)],
      trace = []\<rparr>"

text \<open>
  Following the claim's words: the platforms of a list were packaged one after the other, each
  returning zero. The result is the world the last of them left; \<open>None\<close> when one of them
  raised or returned a failure.
\<close>

fun packaged_in_turn :: "env \<Rightarrow> string \<Rightarrow> (string \<times> Platform) list \<Rightarrow> world \<Rightarrow> world option" where
  "packaged_in_turn E version [] w = Some w"
| "packaged_in_turn E version ((platform_key, platform_data) # rest) w =
     (case package_platform E platform_data version
             (w\<lparr>trace := trace w @ [Ev_print (Msg_Packaging_for platform_key)]\<rparr>) of
        (Inr res, w1) \<Rightarrow> if res = 0 then packaged_in_turn E version rest w1 else None
      | (Inl e, w1) \<Rightarrow> None)"

text \<open>The sample host running Windows.\<close>

definition windows_host_env :: env where
  "windows_host_env = sample_env\<lparr>os_name := ''nt''\<rparr>"

definition is_http_get :: "event \<Rightarrow> bool" where
  "is_http_get e = (case e of Ev_http_get _ \<Rightarrow> True | _ \<Rightarrow> False)"

text \<open>
  A network that serves two chunks, one that breaks after them, and a world whose cache holds
  only a stale temporary file.
\<close>

definition serving_env :: env where
  "serving_env = sample_env\<lparr>http_get := (\<lambda>_ _. Response 200 (Length 4) [''ab'', ''cd''] False)\<rparr>"

definition breaking_env :: env where
  "breaking_env = sample_env\<lparr>http_get := (\<lambda>_ _. Response 200 (Length 9) [''ab'', ''cd''] True)\<rparr>"

definition stale_world :: world where
  "stale_world =
     \<lparr>fs = [([''target''], Dir), ([''target'', ''packaging''], Dir), (TMP_DIR, Dir), (JDK_DIR, Dir),
            (JDK_DIR @ [''jdk.part''], File ''stale'' 384)],
      trace = []\<rparr>"

text \<open>
  A member that the \<open>data\<close> filter refuses: it would land outside the destination, it is a
  device or pipe, or it is a link that points outside the destination.
\<close>

definition unsafe_member :: "path \<Rightarrow> member \<Rightarrow> bool" where
  "unsafe_member dest m =
     (\<not> prefix dest (norm (dest @ name m)) \<or> kind m = Special \<or>
      (case kind m of
         SymLink t \<Rightarrow> \<not> prefix dest (norm (butlast (norm (dest @ name m)) @ t))
       | _ \<Rightarrow> False))"

text \<open>
  A runtime archive with a member that climbs out of the scratch folder into the output
  directory, and one whose members are writable by everybody.
\<close>

definition traversal_members :: "member list" where
  "traversal_members =
     [\<lparr>name = [''jdk'', ''bin'', ''java''], kind = RegFile ''ELF'', mode = 493\<rparr>,
      \<lparr>name = [''..'', ''..'', ''output'', ''evil''], kind = RegFile ''x'', mode = 2541\<rparr>]"

definition new_python_env :: env where
  "new_python_env = sample_env\<lparr>tgz_decode := (\<lambda>_. Some traversal_members)\<rparr>"

definition writable_members :: "member list" where
  "writable_members =
     [\<lparr>name = [''jdk'', ''bin'', ''java''], kind = RegFile ''ELF'', mode = 511\<rparr>,
      \<lparr>name = [''jdk'', ''release''], kind = RegFile ''r'', mode = 438\<rparr>]"

definition writable_archive_env :: env where
  "writable_archive_env = sample_env\<lparr>tgz_decode := (\<lambda>_. Some writable_members)\<rparr>"

text \<open>
  An interpreter older than 3.12 without the security backport: \<open>extractall\<close> has no
  \<open>filter\<close> parameter, and \<open>rmtree\<close>, whose \<open>onexc\<close> parameter came with 3.12, has none
  either. The source's comment at the filtered call names these versions.
\<close>

definition older_python_env :: env where
  "older_python_env =
     sample_env\<lparr>rmtree_has_onexc := False, tar_has_filter := False,
                tgz_decode := (\<lambda>_. Some traversal_members)\<rparr>"

text \<open>The sample world after stage 2 for the Linux platform.\<close>

definition downloaded_world :: world where
  "downloaded_world =
     \<lparr>fs = [([''target''], Dir), ([''target'', ''packaging''], Dir), (TMP_DIR, Dir), (JDK_DIR, Dir),
            (OUTPUT_DIR, Dir),
            (JDK_DIR @ [''kona-25.0.1-linux-x86_64.tar.gz''], File ''tt'' 420),
            (TMP_DIR @ [''linux-x86_64''], Dir)],
      trace = []\<rparr>"

section \<open>Properties\<close>

subsection \<open>Basic facts\<close>

lemmas action_defs =
  ret_def raise_def and_then_def next_do_def when_do_def emit_def print_def set_fs_def
  put_node_def path_exists_def

lemma lookup_put [simp]: "lookup (put f p n) q = (if q = p then Some n else lookup f q)"
  by (simp add: lookup_def put_def update_conv')

lemma split_LF_append: "LF \<notin> set a \<Longrightarrow> split_LF (a @ LF # rest) = a # split_LF rest"
  by (induction a) (auto split: list.splits)

subsection \<open>The scratch root on a first run\<close>

lemma rmtree_missing:
  assumes "rmtree_has_onexc E" "\<not> exists (fs w) p"
  shows "rmtree E (Some remove_readonly) p w =
           (Inl FileNotFoundError, w\<lparr>trace := trace w @ [Ev_rmtree p, Ev_chmod p S_IWRITE]\<rparr>)"
  using assms
  by (simp add: rmtree_def remove_readonly_def chmod_def exists_def action_defs)

lemma rmtree_onexc_returns:
  assumes "rmtree E (Some remove_readonly) p w = (Inr u, w')"
  shows "is_dir (fs w) p"
  using assms
  by (auto simp: rmtree_def remove_readonly_def chmod_def call_os_func_def is_dir_def action_defs
      split: if_splits option.splits node.splits)

lemma package_platform_missing_tmp:
  assumes "rmtree_has_onexc E" "\<not> exists (fs w) TMP_DIR"
  shows "package_platform E platform version_tag w =
           (Inl FileNotFoundError, w\<lparr>trace := trace w @ [Ev_rmtree TMP_DIR, Ev_chmod TMP_DIR S_IWRITE]\<rparr>)"
  using rmtree_missing[OF assms]
  by (simp add: package_platform_def ensure_directories_def next_do_def and_then_def)

lemma package_platform_returns:
  assumes "package_platform E platform version_tag w = (Inr res, w')"
  shows "is_dir (fs w) TMP_DIR"
proof -
  obtain r w1 where r: "rmtree E (Some remove_readonly) TMP_DIR w = (r, w1)"
    by (cases "rmtree E (Some remove_readonly) TMP_DIR w")
  show ?thesis
  proof (cases r)
    case (Inl e)
    with r assms show ?thesis
      by (simp add: package_platform_def ensure_directories_def next_do_def and_then_def)
  next
    case (Inr u)
    with r show ?thesis using rmtree_onexc_returns by blast
  qed
qed

text \<open>
  Claim C10. \<open>package_platform\<close> starts with \<open>rmtree(TMP_DIR, onexc=remove_readonly)\<close>.
  When the scratch root does not exist, the handler's \<open>chmod\<close> of the missing path raises
  \<open>FileNotFoundError\<close>, which ends the call with the file system untouched; and whenever
  \<open>package_platform\<close> returns a result at all, the scratch root was a directory before.
\<close>

theorem first_run_precondition:
  "(rmtree_has_onexc E \<and> \<not> exists (fs w) TMP_DIR \<longrightarrow>
      package_platform E platform version_tag w =
        (Inl FileNotFoundError,
         w\<lparr>trace := trace w @ [Ev_rmtree TMP_DIR, Ev_chmod TMP_DIR S_IWRITE]\<rparr>))
   \<and> (package_platform E platform version_tag w = (Inr res, w') \<longrightarrow> is_dir (fs w) TMP_DIR)"
  using package_platform_missing_tmp package_platform_returns by blast

theorem first_run_precondition_witness:
  "rmtree_has_onexc sample_env \<and> \<not> exists (fs fresh_world) TMP_DIR
   \<and> package_platform sample_env windows_platform ''1.0'' fresh_world =
        (Inl FileNotFoundError,
         fresh_world\<lparr>trace := trace fresh_world @ [Ev_rmtree TMP_DIR, Ev_chmod TMP_DIR S_IWRITE]\<rparr>)
   \<and> fst (package_platform sample_env windows_platform ''1.0'' sample_world) = Inr 0
   \<and> is_dir (fs sample_world) TMP_DIR"
proof -
  have a: "rmtree_has_onexc sample_env" by (simp add: sample_env_def)
  have b: "\<not> exists (fs fresh_world) TMP_DIR" by code_simp
  have c: "fst (package_platform sample_env windows_platform ''1.0'' sample_world) = Inr 0"
    by code_simp
  have c': "package_platform sample_env windows_platform ''1.0'' sample_world =
              (Inr 0, snd (package_platform sample_env windows_platform ''1.0'' sample_world))"
    using c by (simp add: prod_eq_iff)
  show ?thesis
    using first_run_precondition[of sample_env fresh_world windows_platform "''1.0''" 0 fresh_world]
      first_run_precondition[of sample_env sample_world windows_platform "''1.0''" 0
        "snd (package_platform sample_env windows_platform ''1.0'' sample_world)"]
      a b c c'
    by simp
qed

subsection \<open>The assembler\<close>

lemma find_java_None:
  "find_java st folder ps = None \<longleftrightarrow>
     (\<forall>p \<in> set ps. last p \<noteq> (if st = BAT then ''java.exe'' else ''java''))"
  by (induction ps) (auto, (cases st; simp)+)

lemma find_java_Some:
  "find_java st folder ps = Some rel \<Longrightarrow>
     \<exists>p \<in> set ps. rel = drop (length folder) p \<and> last p = (if st = BAT then ''java.exe'' else ''java'')"
  by (induction ps) (auto split: if_splits)

lemma rglob_bin_java_set:
  "set (rglob_bin_java f folder) =
     {q \<in> fst ` set f. strict_prefix folder q \<and> 2 \<le> length q - length folder \<and>
        last (butlast q) = ''bin'' \<and> prefix ''java'' (last q)}"
  by (auto simp: rglob_bin_java_def image_iff)

lemma search_fails_iff:
  "find_java st folder (rglob_bin_java f folder) = None \<longleftrightarrow>
     \<not> list_ex (is_java_entry st folder) (map fst f)"
  unfolding find_java_None rglob_bin_java_set list_ex_iff is_java_entry_def
  by (auto simp: image_iff)

lemma assemble_missing_artifact:
  assumes "\<not> exists (fs w) (LIBS_DIR @ [jar_name platform version_tag])"
  shows "assemble_and_pack E platform version_tag w =
           (Inr 1, w\<lparr>trace := trace w @
              [Ev_print (Msg_JAR_not_found (LIBS_DIR @ [jar_name platform version_tag]))]\<rparr>)"
  using assms by (simp add: assemble_and_pack_def action_defs Let_def)

lemma assemble_missing_executable:
  assumes "exists (fs w) (LIBS_DIR @ [jar_name platform version_tag])"
    and "copy2 (LIBS_DIR @ [jar_name platform version_tag])
           (platform_tmp_folder platform @ [jar_name platform version_tag]) w = (Inr (), w1)"
    and "\<not> list_ex (is_java_entry (shell_type platform) (platform_tmp_folder platform)) (map fst (fs w1))"
  shows "assemble_and_pack E platform version_tag w =
           (Inr 1, w1\<lparr>trace := trace w1 @
              [Ev_print (Msg_java_not_found (platform_tmp_folder platform))]\<rparr>)"
  using assms search_fails_iff[of "shell_type platform" "platform_tmp_folder platform" "fs w1"]
  by (simp add: assemble_and_pack_def action_defs Let_def)

lemma copy2_effect:
  assumes "copy2 src dst w = (Inr (), w1)"
  shows "trace w1 = trace w @ [Ev_copy2 src dst] \<and>
         lookup (fs w1) (if is_dir (fs w) dst then dst @ [last src] else dst) = lookup (fs w) src"
  using assms
  by (auto simp: copy2_def action_defs Let_def split: if_splits option.splits node.splits)


lemma search_finds:
  assumes "find_java st folder (rglob_bin_java f folder) = Some rel"
  shows "exists f (folder @ rel)" and "is_java_entry st folder (folder @ rel)"
proof -
  from find_java_Some[OF assms] obtain p where
    p: "p \<in> set (rglob_bin_java f folder)" "rel = drop (length folder) p"
       "last p = (if st = BAT then ''java.exe'' else ''java'')" by blast
  from p(1) have q: "p \<in> fst ` set f" "strict_prefix folder p" "2 \<le> length p - length folder"
    "last (butlast p) = ''bin''"
    by (simp_all add: rglob_bin_java_set)
  from q(2) p(2) have eq: "folder @ rel = p"
    by (auto simp: strict_prefix_def prefix_def)
  from q(1) have "map_of f p \<noteq> None" by (simp add: map_of_eq_None_iff)
  with eq show "exists f (folder @ rel)" by (simp add: exists_def lookup_def)
  from eq p(3) q show "is_java_entry st folder (folder @ rel)"
    by (simp add: is_java_entry_def)
qed

lemma assemble_copy_raises:
  assumes "exists (fs w) (LIBS_DIR @ [jar_name platform version_tag])"
    and "copy2 (LIBS_DIR @ [jar_name platform version_tag])
           (platform_tmp_folder platform @ [jar_name platform version_tag]) w = (Inl e, w1)"
  shows "assemble_and_pack E platform version_tag w = (Inl e, w1)"
  using assms by (simp add: assemble_and_pack_def action_defs Let_def)

lemma assemble_executable_found:
  assumes "exists (fs w) (LIBS_DIR @ [jar_name platform version_tag])"
    and "copy2 (LIBS_DIR @ [jar_name platform version_tag])
           (platform_tmp_folder platform @ [jar_name platform version_tag]) w = (Inr (), w1)"
    and "list_ex (is_java_entry (shell_type platform) (platform_tmp_folder platform)) (map fst (fs w1))"
  shows "\<exists>rel. find_java (shell_type platform) (platform_tmp_folder platform)
                 (rglob_bin_java (fs w1) (platform_tmp_folder platform)) = Some rel
           \<and> is_java_entry (shell_type platform) (platform_tmp_folder platform)
               (platform_tmp_folder platform @ rel)
           \<and> exists (fs w1) (platform_tmp_folder platform @ rel)
           \<and> assemble_and_pack E platform version_tag w =
               next_do (create_run_script E platform rel (jar_name platform version_tag))
              (next_do (move_to_output E platform version_tag)
              (next_do (compress_package E platform version_tag) (ret 0))) w1"
proof -
  from assms(3) search_fails_iff[of "shell_type platform" "platform_tmp_folder platform" "fs w1"]
  obtain rel where rel: "find_java (shell_type platform) (platform_tmp_folder platform)
                 (rglob_bin_java (fs w1) (platform_tmp_folder platform)) = Some rel"
    by auto
  have "assemble_and_pack E platform version_tag w =
               next_do (create_run_script E platform rel (jar_name platform version_tag))
              (next_do (move_to_output E platform version_tag)
              (next_do (compress_package E platform version_tag) (ret 0))) w1"
    using assms(1,2) rel by (simp add: assemble_and_pack_def action_defs Let_def)
  with rel search_finds[OF rel] show ?thesis by blast
qed

lemma copy2_jar_in_bundle:
  assumes "exists (fs w) (src @ [j])" and "copy2 (src @ [j]) dst w = (Inr (), w1)"
  shows "lookup (fs w1) (if is_dir (fs w) dst then dst @ [j] else dst) = lookup (fs w) (src @ [j])"
    and "exists (fs w1) (if is_dir (fs w) dst then dst @ [j] else dst)"
  using copy2_effect[OF assms(2)] assms(1) by (auto simp: exists_def split: if_splits)

text \<open>
  Claim C7. The artifact is \<open>janus-<version>-<classifier>.jar\<close> in the build output. When
  it is absent, the stage reports the missing artifact and returns 1 with nothing copied and
  nothing searched. When it is there, it is copied first: after the copy the bundle holds,
  under the artifact's name, the node the build output holds, and a copy that raises ends
  the stage. Then the tree is searched: if it holds no entry named \<open>java\<close> (bash) or
  \<open>java.exe\<close> (batch) in a directory named \<open>bin\<close>, the stage reports the missing executable
  and returns 1; if it holds one, the search returns the path of such an entry relative to
  the bundle, and the stage goes on with the script, the move and the archive.
\<close>

theorem assembler_failure_order:
  "jar_name platform version_tag =
      ''janus-'' @ version_tag @ ''-'' @ jar_platform_classifier platform @ ''.jar''
   \<and> (\<not> exists (fs w) (LIBS_DIR @ [jar_name platform version_tag]) \<longrightarrow>
        assemble_and_pack E platform version_tag w =
          (Inr 1, w\<lparr>trace := trace w @
             [Ev_print (Msg_JAR_not_found (LIBS_DIR @ [jar_name platform version_tag]))]\<rparr>))
   \<and> (exists (fs w) (LIBS_DIR @ [jar_name platform version_tag]) \<and>
      copy2 (LIBS_DIR @ [jar_name platform version_tag])
        (platform_tmp_folder platform @ [jar_name platform version_tag]) w = (Inr (), w1) \<longrightarrow>
        trace w1 = trace w @ [Ev_copy2 (LIBS_DIR @ [jar_name platform version_tag])
                                (platform_tmp_folder platform @ [jar_name platform version_tag])]
        \<and> lookup (fs w1)
            (if is_dir (fs w) (platform_tmp_folder platform @ [jar_name platform version_tag])
             then platform_tmp_folder platform @ [jar_name platform version_tag, jar_name platform version_tag]
             else platform_tmp_folder platform @ [jar_name platform version_tag])
            = lookup (fs w) (LIBS_DIR @ [jar_name platform version_tag])
        \<and> exists (fs w1)
            (if is_dir (fs w) (platform_tmp_folder platform @ [jar_name platform version_tag])
             then platform_tmp_folder platform @ [jar_name platform version_tag, jar_name platform version_tag]
             else platform_tmp_folder platform @ [jar_name platform version_tag])
        \<and> (\<not> list_ex (is_java_entry (shell_type platform) (platform_tmp_folder platform))
                (map fst (fs w1)) \<longrightarrow>
             assemble_and_pack E platform version_tag w =
               (Inr 1, w1\<lparr>trace := trace w1 @
                  [Ev_print (Msg_java_not_found (platform_tmp_folder platform))]\<rparr>))
        \<and> (list_ex (is_java_entry (shell_type platform) (platform_tmp_folder platform))
                (map fst (fs w1)) \<longrightarrow>
             (\<exists>rel. find_java (shell_type platform) (platform_tmp_folder platform)
                      (rglob_bin_java (fs w1) (platform_tmp_folder platform)) = Some rel
                \<and> is_java_entry (shell_type platform) (platform_tmp_folder platform)
                    (platform_tmp_folder platform @ rel)
                \<and> exists (fs w1) (platform_tmp_folder platform @ rel)
                \<and> assemble_and_pack E platform version_tag w =
                    next_do (create_run_script E platform rel (jar_name platform version_tag))
                   (next_do (move_to_output E platform version_tag)
                   (next_do (compress_package E platform version_tag) (ret 0))) w1)))
   \<and> (exists (fs w) (LIBS_DIR @ [jar_name platform version_tag]) \<and>
      copy2 (LIBS_DIR @ [jar_name platform version_tag])
        (platform_tmp_folder platform @ [jar_name platform version_tag]) w = (Inl e, w1) \<longrightarrow>
        assemble_and_pack E platform version_tag w = (Inl e, w1))"
proof -
  let ?src = "LIBS_DIR @ [jar_name platform version_tag]"
  let ?dst = "platform_tmp_folder platform @ [jar_name platform version_tag]"
  have a: "exists (fs w) ?src \<and> copy2 ?src ?dst w = (Inr (), w1) \<Longrightarrow>
           lookup (fs w1) (if is_dir (fs w) ?dst
             then platform_tmp_folder platform @ [jar_name platform version_tag, jar_name platform version_tag]
             else ?dst) = lookup (fs w) ?src
           \<and> exists (fs w1) (if is_dir (fs w) ?dst
             then platform_tmp_folder platform @ [jar_name platform version_tag, jar_name platform version_tag]
             else ?dst)"
    using copy2_jar_in_bundle[of w LIBS_DIR "jar_name platform version_tag" ?dst w1]
    by (auto split: if_splits)
  have b: "exists (fs w) ?src \<and> copy2 ?src ?dst w = (Inr (), w1) \<Longrightarrow>
           trace w1 = trace w @ [Ev_copy2 ?src ?dst]"
    using copy2_effect[of ?src ?dst w w1] by simp
  have c: "jar_name platform version_tag =
      ''janus-'' @ version_tag @ ''-'' @ jar_platform_classifier platform @ ''.jar''"
    by (simp add: jar_name_def)
  show ?thesis
    using assemble_missing_artifact[of w platform version_tag E]
      assemble_missing_executable[of w platform version_tag w1 E]
      assemble_executable_found[of w platform version_tag w1 E]
      assemble_copy_raises[of w platform version_tag e w1 E]
      a b c
    by blast
qed

theorem assembler_failure_order_witness:
  "\<not> exists (fs bundle_world) (LIBS_DIR @ [jar_name linux_platform ''1.0''])
   \<and> assemble_and_pack sample_env linux_platform ''1.0'' bundle_world =
        (Inr 1, bundle_world\<lparr>trace := trace bundle_world @
           [Ev_print (Msg_JAR_not_found (LIBS_DIR @ [jar_name linux_platform ''1.0'']))]\<rparr>)
   \<and> exists (fs no_java_world) (LIBS_DIR @ [jar_name windows_platform ''1.0''])
   \<and> fst (copy2 (LIBS_DIR @ [jar_name windows_platform ''1.0''])
        (platform_tmp_folder windows_platform @ [jar_name windows_platform ''1.0'']) no_java_world) = Inr ()
   \<and> \<not> list_ex (is_java_entry (shell_type windows_platform) (platform_tmp_folder windows_platform))
          (map fst (fs (snd (copy2 (LIBS_DIR @ [jar_name windows_platform ''1.0''])
             (platform_tmp_folder windows_platform @ [jar_name windows_platform ''1.0'']) no_java_world))))
   \<and> fst (assemble_and_pack sample_env windows_platform ''1.0'' no_java_world) = Inr 1
   \<and> lookup (fs (snd (copy2 (LIBS_DIR @ [jar_name windows_platform ''1.0''])
             (platform_tmp_folder windows_platform @ [jar_name windows_platform ''1.0'']) no_java_world)))
        (TMP_DIR @ [''windows-x86_64'', ''janus-1.0-windows-x86_64.jar'']) = Some (File ''jarw'' 420)
   \<and> lookup (fs (snd (assemble_and_pack sample_env windows_platform ''1.0'' no_java_world)))
        (TMP_DIR @ [''windows-x86_64'', ''janus-1.0-windows-x86_64.jar'']) = Some (File ''jarw'' 420)
   \<and> exists (fs assembling_world) (LIBS_DIR @ [jar_name linux_platform ''1.0''])
   \<and> fst (copy2 (LIBS_DIR @ [jar_name linux_platform ''1.0''])
        (platform_tmp_folder linux_platform @ [jar_name linux_platform ''1.0'']) assembling_world) = Inr ()
   \<and> list_ex (is_java_entry (shell_type linux_platform) (platform_tmp_folder linux_platform))
          (map fst (fs (snd (copy2 (LIBS_DIR @ [jar_name linux_platform ''1.0''])
             (platform_tmp_folder linux_platform @ [jar_name linux_platform ''1.0'']) assembling_world))))
   \<and> (\<exists>rel. is_java_entry (shell_type linux_platform) (platform_tmp_folder linux_platform)
               (platform_tmp_folder linux_platform @ rel)
           \<and> assemble_and_pack sample_env linux_platform ''1.0'' assembling_world =
               next_do (create_run_script sample_env linux_platform rel (jar_name linux_platform ''1.0''))
              (next_do (move_to_output sample_env linux_platform ''1.0'')
              (next_do (compress_package sample_env linux_platform ''1.0'') (ret 0)))
                (snd (copy2 (LIBS_DIR @ [jar_name linux_platform ''1.0''])
                   (platform_tmp_folder linux_platform @ [jar_name linux_platform ''1.0'']) assembling_world)))"
proof -
  let ?src = "LIBS_DIR @ [jar_name windows_platform ''1.0'']"
  let ?dst = "platform_tmp_folder windows_platform @ [jar_name windows_platform ''1.0'']"
  let ?w1 = "snd (copy2 ?src ?dst no_java_world)"
  have a: "\<not> exists (fs bundle_world) (LIBS_DIR @ [jar_name linux_platform ''1.0''])"
    by code_simp
  have b: "exists (fs no_java_world) ?src"
    by code_simp
  have c: "fst (copy2 ?src ?dst no_java_world) = Inr ()"
    by code_simp
  have c': "copy2 ?src ?dst no_java_world = (Inr (), ?w1)"
    using c by (simp add: prod_eq_iff)
  have d: "\<not> list_ex (is_java_entry (shell_type windows_platform) (platform_tmp_folder windows_platform))
          (map fst (fs ?w1))"
    by code_simp
  have nd: "\<not> is_dir (fs no_java_world) ?dst" by code_simp
  have s: "lookup (fs no_java_world) ?src = Some (File ''jarw'' 420)" by code_simp
  have dn: "?dst = TMP_DIR @ [''windows-x86_64'', ''janus-1.0-windows-x86_64.jar'']" by code_simp
  note W = assembler_failure_order[of windows_platform "''1.0''" no_java_world sample_env ?w1,
      THEN conjunct2, THEN conjunct2, THEN conjunct1, rule_format, OF conjI[OF b c']]
  have j1: "lookup (fs ?w1) ?dst = Some (File ''jarw'' 420)"
    using W[THEN conjunct2, THEN conjunct1] nd s by (simp only: if_False)
  have r1: "assemble_and_pack sample_env windows_platform ''1.0'' no_java_world =
              (Inr 1, ?w1\<lparr>trace := trace ?w1 @
                  [Ev_print (Msg_java_not_found (platform_tmp_folder windows_platform))]\<rparr>)"
    using W[THEN conjunct2, THEN conjunct2, THEN conjunct2, THEN conjunct1] d by blast
  have r1a: "fst (assemble_and_pack sample_env windows_platform ''1.0'' no_java_world) = Inr 1"
    using r1 by (simp only: fst_conv)
  have r1b: "lookup (fs (snd (assemble_and_pack sample_env windows_platform ''1.0'' no_java_world))) ?dst
               = Some (File ''jarw'' 420)"
    using r1 j1 by simp
  let ?srcl = "LIBS_DIR @ [jar_name linux_platform ''1.0'']"
  let ?dstl = "platform_tmp_folder linux_platform @ [jar_name linux_platform ''1.0'']"
  let ?v1 = "snd (copy2 ?srcl ?dstl assembling_world)"
  have e: "exists (fs assembling_world) ?srcl" by code_simp
  have f: "fst (copy2 ?srcl ?dstl assembling_world) = Inr ()" by code_simp
  have f': "copy2 ?srcl ?dstl assembling_world = (Inr (), ?v1)"
    using f by (simp add: prod_eq_iff)
  have g: "list_ex (is_java_entry (shell_type linux_platform) (platform_tmp_folder linux_platform))
          (map fst (fs ?v1))"
    by code_simp
  note L = assembler_failure_order[of linux_platform "''1.0''" assembling_world sample_env ?v1,
      THEN conjunct2, THEN conjunct2, THEN conjunct1, rule_format, OF conjI[OF e f']]
  have h: "\<exists>rel. is_java_entry (shell_type linux_platform) (platform_tmp_folder linux_platform)
               (platform_tmp_folder linux_platform @ rel)
           \<and> assemble_and_pack sample_env linux_platform ''1.0'' assembling_world =
               next_do (create_run_script sample_env linux_platform rel (jar_name linux_platform ''1.0''))
              (next_do (move_to_output sample_env linux_platform ''1.0'')
              (next_do (compress_package sample_env linux_platform ''1.0'') (ret 0))) ?v1"
    using L[THEN conjunct2, THEN conjunct2, THEN conjunct2, THEN conjunct2] g by blast
  have m: "assemble_and_pack sample_env linux_platform ''1.0'' bundle_world =
        (Inr 1, bundle_world\<lparr>trace := trace bundle_world @
           [Ev_print (Msg_JAR_not_found (LIBS_DIR @ [jar_name linux_platform ''1.0'']))]\<rparr>)"
    using assembler_failure_order[of linux_platform "''1.0''" bundle_world sample_env bundle_world,
      THEN conjunct2, THEN conjunct1] a by blast
  have j1': "lookup (fs ?w1) (TMP_DIR @ [''windows-x86_64'', ''janus-1.0-windows-x86_64.jar''])
               = Some (File ''jarw'' 420)"
    using j1 by (simp only: dn)
  have r1b': "lookup (fs (snd (assemble_and_pack sample_env windows_platform ''1.0'' no_java_world)))
                (TMP_DIR @ [''windows-x86_64'', ''janus-1.0-windows-x86_64.jar'']) = Some (File ''jarw'' 420)"
    using r1b by (simp only: dn)
  show ?thesis
    using a m b c d r1a j1' r1b' e f g h by (simp only: simp_thms)
qed

subsection \<open>The archive\<close>

lemma zip_members_set:
  assumes "is_dir f final"
  shows "set (zip_members f final) =
           {(rel, d, m). rel \<noteq> [] \<and> (final @ rel, File d m) \<in> set f}"
proof -
  have "set (walk_files f final) = {(q, d, m). strict_prefix final q \<and> (q, File d m) \<in> set f}"
    using assms by (auto simp: walk_files_def split: node.splits if_splits)
  then show ?thesis
    apply (auto simp: zip_members_def strict_prefix_def prefix_def image_iff)
    subgoal for rel d m
      by (rule exI[of _ "final @ rel"]) simp
    done
qed

lemma tar_members_set:
  "set (tar_members f final arcname) = {(arcname # rel, n) | rel n. (final @ rel, n) \<in> set f}"
  apply (auto simp: tar_members_def prefix_def image_iff)
  subgoal for rel n
    by (rule exI[of _ "final @ rel"]) simp
  done

text \<open>
  Claim C3, evaluated for the relocated Windows bundle. The ZIP branch names each member by
  \<open>file_path.relative_to(final_path)\<close>: the members are \<open>jdk/bin/java.exe\<close>, the jar and
  \<open>run-janus.bat\<close>, none of them below a root directory \<open>janus-1.0-windows-x86_64\<close>. The
  archive is written with \<open>ZIP_DEFLATED\<close> and holds every file of the bundle. The tar
  branch, for the same tree, names every member below \<open>janus-1.0-windows-x86_64\<close>.
\<close>

theorem zip_members_relative_to_bundle:
  "map fst (zip_members (fs relocated_world) (final_path windows_platform ''1.0'')) =
     [[''jdk'', ''bin'', ''java.exe''], [''janus-1.0-windows-x86_64.jar''], [''run-janus.bat'']]
   \<and> \<not> list_ex (\<lambda>nm. prefix [final_dir_name windows_platform ''1.0''] nm)
         (map fst (zip_members (fs relocated_world) (final_path windows_platform ''1.0'')))
   \<and> lookup (fs (snd (compress_package sample_env windows_platform ''1.0'' relocated_world)))
        (archive_path windows_platform ''1.0'') =
      Some (File (zip_encode sample_env ZIP_DEFLATED
                   (zip_members (fs relocated_world) (final_path windows_platform ''1.0''))) 420)
   \<and> list_all (\<lambda>nm. prefix [final_dir_name windows_platform ''1.0''] nm)
        (map fst (tar_members (fs relocated_world) (final_path windows_platform ''1.0'')
                    (final_dir_name windows_platform ''1.0'')))"
  by code_simp

subsection \<open>What an action may log\<close>

lemma emits_onlyI:
  "(\<And>w. \<exists>es. trace (snd (m w)) = trace w @ es \<and> list_all P es) \<Longrightarrow> emits_only P m"
  by (simp add: emits_only_def)

lemma emits_onlyD:
  "emits_only P m \<Longrightarrow> \<exists>es. trace (snd (m w)) = trace w @ es \<and> list_all P es"
  by (simp add: emits_only_def)

lemma emits_only_mono:
  "emits_only P m \<Longrightarrow> (\<And>e. P e \<Longrightarrow> Q e) \<Longrightarrow> emits_only Q m"
  unfolding emits_only_def list_all_iff by blast

lemma emits_ret [intro!, simp]: "emits_only P (ret x)"
  by (simp add: emits_only_def ret_def)

lemma emits_raise [intro!, simp]: "emits_only P (raise e)"
  by (simp add: emits_only_def raise_def)

lemma emits_emit [intro]: "P e \<Longrightarrow> emits_only P (emit e)"
  by (simp add: emits_only_def emit_def)

lemma emits_print [intro]: "P (Ev_print m) \<Longrightarrow> emits_only P (print m)"
  by (simp add: print_def emits_emit)

lemma emits_set_fs [intro!, simp]: "emits_only P (set_fs f)"
  by (simp add: emits_only_def set_fs_def)

lemma emits_put_node [intro!, simp]: "emits_only P (put_node p n)"
  by (simp add: emits_only_def put_node_def set_fs_def)

lemma emits_path_exists [intro!, simp]: "emits_only P (path_exists p)"
  by (simp add: emits_only_def path_exists_def)

lemma emits_and_then [intro]:
  assumes "emits_only P m" and "\<And>x. emits_only P (f x)"
  shows "emits_only P (and_then m f)"
proof (rule emits_onlyI)
  fix w
  obtain r w1 where m: "m w = (r, w1)" by (cases "m w")
  from emits_onlyD[OF assms(1), of w] m obtain es1 where
    e1: "trace w1 = trace w @ es1" "list_all P es1" by auto
  show "\<exists>es. trace (snd (and_then m f w)) = trace w @ es \<and> list_all P es"
  proof (cases r)
    case (Inl e)
    with m e1 show ?thesis by (simp add: and_then_def)
  next
    case (Inr x)
    from emits_onlyD[OF assms(2), of x w1] obtain es2 where
      "trace (snd (f x w1)) = trace w1 @ es2" "list_all P es2" by auto
    with Inr m e1 show ?thesis by (simp add: and_then_def)
  qed
qed

lemma emits_next_do [intro]:
  "emits_only P m \<Longrightarrow> emits_only P k \<Longrightarrow> emits_only P (next_do m k)"
  by (simp add: next_do_def emits_and_then)

lemma emits_when_do [intro]: "emits_only P m \<Longrightarrow> emits_only P (when_do b m)"
  by (simp add: when_do_def)

lemma emits_try_except [intro]:
  assumes "emits_only P m" and "emits_only P h"
  shows "emits_only P (try_except m e h)"
proof (rule emits_onlyI)
  fix w
  obtain r w1 where m: "m w = (r, w1)" by (cases "m w")
  from emits_onlyD[OF assms(1), of w] m obtain es1 where
    e1: "trace w1 = trace w @ es1" "list_all P es1" by auto
  from emits_onlyD[OF assms(2), of w1] obtain es2 where
    e2: "trace (snd (h w1)) = trace w1 @ es2" "list_all P es2" by auto
  show "\<exists>es. trace (snd (try_except m e h w)) = trace w @ es \<and> list_all P es"
    using m e1 e2 by (cases r) (auto simp: try_except_def)
qed

lemma emits_for_each [intro]:
  assumes "\<And>x. emits_only P (body x)"
  shows "emits_only P (for_each body xs)"
proof (rule emits_onlyI)
  fix w
  show "\<exists>es. trace (snd (for_each body xs w)) = trace w @ es \<and> list_all P es"
  proof (induction xs arbitrary: w)
    case Nil
    show ?case by simp
  next
    case (Cons x xs)
    obtain r w1 where b: "body x w = (r, w1)" by (cases "body x w")
    from emits_onlyD[OF assms, of x w] b obtain es1 where
      e1: "trace w1 = trace w @ es1" "list_all P es1" by auto
    show ?case
    proof (cases r)
      case (Inl e)
      with b e1 show ?thesis by simp
    next
      case (Inr u)
      from Cons.IH[of w1] obtain es2 where
        "trace (snd (for_each body xs w1)) = trace w1 @ es2" "list_all P es2" by auto
      with Inr b e1 show ?thesis by simp
    qed
  qed
qed

lemma silent_emits: "(\<And>w. trace (snd (m w)) = trace w) \<Longrightarrow> emits_only P m"
  by (simp add: emits_only_def)

lemma for_each_silent:
  assumes "\<And>x w. trace (snd (body x w)) = trace w"
  shows "trace (snd (for_each body xs w)) = trace w"
proof (induction xs arbitrary: w)
  case Nil
  show ?case by simp
next
  case (Cons x xs)
  obtain r w1 where b: "body x w = (r, w1)" by (cases "body x w")
  with assms[of x w] have "trace w1 = trace w" by simp
  with b Cons.IH[of w1] show ?case by (cases r) simp_all
qed

lemma ensure_dir_silent: "trace (snd (ensure_dir d w)) = trace w"
  by (simp add: ensure_dir_def action_defs split: option.splits node.splits)

lemma makedirs_silent: "trace (snd (makedirs ds w)) = trace w"
  unfolding makedirs_def by (rule for_each_silent) (rule ensure_dir_silent)

lemma makedirs_trace: "makedirs ds w = (r, w') \<Longrightarrow> trace w' = trace w"
  using makedirs_silent[of ds w] by simp

lemma create_file_silent: "trace (snd (create_file E p d w)) = trace w"
  by (simp add: create_file_def action_defs split: option.splits node.splits)

lemma append_file_silent: "trace (snd (append_file p d w)) = trace w"
  by (simp add: append_file_def action_defs split: option.splits node.splits)

lemma emits_mkdir_parents [intro]:
  assumes "P (Ev_mkdir p)"
  shows "emits_only P (mkdir_parents b p)"
  using assms
  by (intro emits_onlyI)
     (auto simp: mkdir_parents_def action_defs split: option.splits sum.splits prod.splits
           dest: makedirs_trace)

lemma emits_unlink [intro]: "P (Ev_unlink p) \<Longrightarrow> emits_only P (unlink p)"
  by (intro emits_onlyI)
     (auto simp: unlink_def action_defs split: option.splits node.splits)

lemma emits_chmod [intro]: "P (Ev_chmod p m) \<Longrightarrow> emits_only P (chmod p m)"
  by (intro emits_onlyI)
     (auto simp: chmod_def action_defs split: option.splits node.splits)

lemma emits_rmtree [intro]:
  assumes "P (Ev_rmtree p)" and "P (Ev_chmod p S_IWRITE)"
  shows "emits_only P (rmtree E (Some remove_readonly) p)" and "emits_only P (rmtree E None p)"
  using assms
  by (intro emits_onlyI;
      auto simp: rmtree_def remove_readonly_def chmod_def call_os_func_def action_defs
           split: option.splits node.splits)+

lemma emits_rename [intro]: "P (Ev_rename src dst) \<Longrightarrow> emits_only P (rename E src dst)"
  by (intro emits_onlyI) (auto simp: rename_def action_defs)

lemma emits_move [intro]: "P (Ev_move src dst) \<Longrightarrow> emits_only P (move src dst)"
  by (intro emits_onlyI) (auto simp: move_def action_defs Let_def)

lemma emits_copy2 [intro]: "P (Ev_copy2 src dst) \<Longrightarrow> emits_only P (copy2 src dst)"
  by (intro emits_onlyI)
     (auto simp: copy2_def action_defs Let_def split: option.splits node.splits)

lemma emits_create_file [intro!, simp]: "emits_only P (create_file E p d)"
  by (rule silent_emits) (rule create_file_silent)

lemma emits_append_file [intro!, simp]: "emits_only P (append_file p d)"
  by (rule silent_emits) (rule append_file_silent)

lemma emits_write_text [intro]: "P (Ev_write_text p) \<Longrightarrow> emits_only P (write_text E p c)"
  by (auto simp: write_text_def)

lemma emits_requests_get [intro]: "P (Ev_http_get url) \<Longrightarrow> emits_only P (requests_get E url)"
  by (intro emits_onlyI)
     (auto simp: requests_get_def action_defs split: response.splits)

lemma emits_by_state:
  assumes "\<And>v. emits_only P (F v)"
  shows "emits_only P (\<lambda>w. F w w)"
  using assms by (simp add: emits_only_def)

lemma emits_makedirs [intro!, simp]: "emits_only P (makedirs ds)"
  by (rule silent_emits) (rule makedirs_silent)

lemma emits_read_file [intro!, simp]: "emits_only P (read_file p)"
  by (intro emits_onlyI) (auto simp: read_file_def action_defs split: option.splits node.splits)

lemma emits_zip_extractall [intro]:
  "P (Ev_extractall a dest) \<Longrightarrow> emits_only P (zip_extractall E a dest ms)"
  unfolding zip_extractall_def zip_extract_member_def
  by (auto simp: Let_def split: option.splits intro!: emits_next_do emits_for_each)

lemma emits_tar_extract_member [intro!, simp]: "emits_only P (tar_extract_member dest m)"
  by (intro emits_onlyI)
     (auto simp: tar_extract_member_def action_defs Let_def
                 makedirs_silent
           split: member_kind.splits sum.splits prod.splits dest: makedirs_trace)

lemma emits_tar_extractall [intro]:
  "P (Ev_extractall a dest) \<Longrightarrow> emits_only P (tar_extractall E a dest flt ms)"
  unfolding tar_extractall_def tar_extract_filtered_def
  by (auto split: sum.splits intro!: emits_next_do emits_for_each)

lemma later_event_simps [simp]:
  "later_event (Ev_mkdir p)" "later_event (Ev_unlink p)" "later_event (Ev_http_get u)"
  "later_event (Ev_open_wb p)" "later_event (Ev_rename p q)" "later_event (Ev_extractall p q)"
  "later_event (Ev_copy2 p q)" "later_event (Ev_write_text p)" "later_event (Ev_chmod p m)"
  "later_event (Ev_move p q)" "later_event (Ev_zip_create p)" "later_event (Ev_tar_create p)"
  "later_event (Ev_print (Msg_Downloading k))" "later_event (Ev_print (Msg_Cache_hit k))"
  "later_event (Ev_print (Msg_Extracting k))" "later_event (Ev_print (Msg_JAR_not_found p))"
  "later_event (Ev_print (Msg_java_not_found p))" "later_event (Ev_print (Msg_Package_created k p))"
  "later_event (Ev_print (Msg_Compressing k p))"
  "later_event (Ev_rmtree p) = (p \<noteq> TMP_DIR)"
  "\<not> later_event (Ev_subprocess p a)"
  by (simp_all add: later_event_def)

lemma emits_download_jdk: "emits_only later_event (download_jdk E platform)"
  unfolding download_jdk_def fetch_to_tmp_def iter_content_write_def raise_for_status_def
    total_size_of_def
  by (auto split: response.splits content_length.splits
        intro!: emits_next_do emits_and_then emits_when_do emits_print emits_unlink emits_rename
          emits_requests_get emits_emit emits_for_each)

lemma emits_extract_jdk: "emits_only later_event (extract_jdk E platform)"
  unfolding extract_jdk_def ZipFile_read_def tarfile_open_read_def
  by (auto split: option.splits
        intro!: emits_next_do emits_and_then emits_print emits_try_except
          emits_zip_extractall emits_tar_extractall)

lemma TMP_DIR_neq [simp]:
  "TMP_DIR @ [k] \<noteq> TMP_DIR" "OUTPUT_DIR @ [k] \<noteq> TMP_DIR" "OUTPUT_DIR \<noteq> TMP_DIR" "JDK_DIR \<noteq> TMP_DIR"
  "platform_tmp_folder platform \<noteq> TMP_DIR" "final_path platform v \<noteq> TMP_DIR"
  by (simp_all add: TMP_DIR_def OUTPUT_DIR_def JDK_DIR_def platform_tmp_folder_def final_path_def)

lemma emits_create_run_script: "emits_only later_event (create_run_script E platform j jar)"
  unfolding create_run_script_def Let_def
  by (auto intro!: emits_next_do emits_when_do emits_write_text emits_chmod)

lemma emits_move_to_output: "emits_only later_event (move_to_output E platform v)"
  unfolding move_to_output_def
  by (auto intro!: emits_next_do emits_and_then emits_when_do emits_rmtree emits_move emits_print)

lemma emits_compress_package: "emits_only later_event (compress_package E platform v)"
proof -
  have z: "emits_only later_event (\<lambda>w. create_file E (archive_path platform v)
             (zip_encode E ZIP_DEFLATED (zip_members (fs w) (final_path platform v))) w)"
    by (rule emits_by_state[where F = "\<lambda>u. create_file E (archive_path platform v)
             (zip_encode E ZIP_DEFLATED (zip_members (fs u) (final_path platform v)))"]) simp
  have t: "emits_only later_event
        (\<lambda>w. if \<not> exists (fs w) (final_path platform v) then raise FileNotFoundError w
              else create_file E (archive_path platform v)
                     (tgz_encode E (tar_members (fs w) (final_path platform v)
                                      (final_dir_name platform v))) w)"
    by (rule emits_by_state[where F = "\<lambda>u. if \<not> exists (fs u) (final_path platform v)
              then raise FileNotFoundError
              else create_file E (archive_path platform v)
                     (tgz_encode E (tar_members (fs u) (final_path platform v)
                                      (final_dir_name platform v)))", simplified if_distrib[where f="\<lambda>g. g _"]])
       simp
  show ?thesis
    unfolding compress_package_def
    using z t by (auto intro!: emits_next_do emits_print emits_emit)
qed


lemma emits_assemble_and_pack: "emits_only later_event (assemble_and_pack E platform v)"
proof -
  let ?ptf = "platform_tmp_folder platform"
  let ?K = "\<lambda>u. case find_java (shell_type platform) ?ptf (rglob_bin_java (fs u) ?ptf) of
                   None \<Rightarrow> next_do (print (Msg_java_not_found ?ptf)) (ret (1::int))
                 | Some java_bin_path \<Rightarrow>
                     next_do (create_run_script E platform java_bin_path (jar_name platform v))
                    (next_do (move_to_output E platform v)
                    (next_do (compress_package E platform v) (ret 0)))"
  have "emits_only later_event (?K u)" for u
    by (auto split: option.splits
          intro!: emits_next_do emits_print emits_create_run_script emits_move_to_output
            emits_compress_package)
  then have "emits_only later_event (\<lambda>w. ?K w w)"
    by (rule emits_by_state)
  moreover have "(\<lambda>w. ?K w w) =
     (\<lambda>w. case find_java (shell_type platform) ?ptf (rglob_bin_java (fs w) ?ptf) of
                   None \<Rightarrow> next_do (print (Msg_java_not_found ?ptf)) (ret (1::int)) w
                 | Some java_bin_path \<Rightarrow>
                     next_do (create_run_script E platform java_bin_path (jar_name platform v))
                    (next_do (move_to_output E platform v)
                    (next_do (compress_package E platform v) (ret 0))) w)"
    by (auto split: option.splits)
  ultimately show ?thesis
    unfolding assemble_and_pack_def Let_def
    by (auto intro!: emits_and_then emits_next_do emits_print emits_copy2)
qed

lemma emits_after_rmtree:
  "emits_only later_event
     (next_do (mkdir_parents True OUTPUT_DIR)
     (next_do (mkdir_parents True JDK_DIR)
     (next_do (mkdir_parents True TMP_DIR)
     (next_do (and_then (path_exists (platform_tmp_folder platform))
                (\<lambda>b. when_do b (rmtree E (Some remove_readonly) (platform_tmp_folder platform))))
              (mkdir_parents False (platform_tmp_folder platform))))))"
  by (auto intro!: emits_next_do emits_and_then emits_when_do emits_mkdir_parents emits_rmtree)

lemma trace_next_do:
  assumes "\<exists>es. trace (snd (m w)) = trace w @ e0 # es \<and> list_all P es" and "emits_only P k"
  shows "\<exists>es. trace (snd (next_do m k w)) = trace w @ e0 # es \<and> list_all P es"
proof -
  obtain r w1 where m: "m w = (r, w1)" by (cases "m w")
  with assms(1) obtain es1 where e1: "trace w1 = trace w @ e0 # es1" "list_all P es1" by auto
  show ?thesis
  proof (cases r)
    case (Inl e)
    with m e1 show ?thesis by (simp add: next_do_def and_then_def)
  next
    case (Inr u)
    from emits_onlyD[OF assms(2), of w1] obtain es2 where
      "trace (snd (k w1)) = trace w1 @ es2" "list_all P es2" by auto
    with Inr m e1 show ?thesis by (simp add: next_do_def and_then_def)
  qed
qed

lemma rmtree_first_event:
  assumes "rmtree_has_onexc E"
  shows "\<exists>es. trace (snd (rmtree E (Some remove_readonly) TMP_DIR w)) =
               trace w @ Ev_rmtree TMP_DIR # es \<and> list_all later_event es"
  using assms
  by (auto simp: rmtree_def remove_readonly_def chmod_def call_os_func_def action_defs
        split: option.splits node.splits)

lemma package_platform_first_event:
  assumes "rmtree_has_onexc E"
  shows "\<exists>es. trace (snd (package_platform E platform v w)) =
               trace w @ Ev_rmtree TMP_DIR # es \<and> list_all later_event es"
  unfolding package_platform_def ensure_directories_def
  by (intro trace_next_do rmtree_first_event assms emits_after_rmtree emits_next_do
        emits_download_jdk emits_extract_jdk emits_assemble_and_pack)

lemma later_not_subprocess: "later_event e \<Longrightarrow> \<not> is_subprocess e"
  by (cases e) (simp_all add: later_event_def is_subprocess_def)

lemma emits_package_platform:
  "emits_only (\<lambda>e. \<not> is_subprocess e) (package_platform E platform v)"
proof -
  have "emits_only (\<lambda>e. e = Ev_rmtree TMP_DIR \<or> later_event e) (package_platform E platform v)"
    unfolding package_platform_def ensure_directories_def
    by (intro emits_next_do emits_rmtree emits_emit
          emits_only_mono[OF emits_after_rmtree] emits_only_mono[OF emits_download_jdk]
          emits_only_mono[OF emits_extract_jdk] emits_only_mono[OF emits_assemble_and_pack])
       simp_all
  then show ?thesis
    by (rule emits_only_mono) (auto simp: is_subprocess_def dest: later_not_subprocess)
qed

lemma emits_package_all: "emits_only (\<lambda>e. \<not> is_subprocess e) (package_all E v ps)"
proof (rule emits_onlyI)
  fix w
  show "\<exists>es. trace (snd (package_all E v ps w)) = trace w @ es \<and> list_all (\<lambda>e. \<not> is_subprocess e) es"
  proof (induction ps arbitrary: w)
    case Nil
    show ?case by (simp add: action_defs is_subprocess_def)
  next
    case (Cons kp ps)
    obtain k p where kp: "kp = (k, p)" by (cases kp)
    let ?w0 = "w\<lparr>trace := trace w @ [Ev_print (Msg_Packaging_for k)]\<rparr>"
    obtain r w1 where pp: "package_platform E p v ?w0 = (r, w1)"
      by (cases "package_platform E p v ?w0")
    from emits_onlyD[OF emits_package_platform, of E p v ?w0] pp obtain es1 where
      e1: "trace w1 = trace w @ Ev_print (Msg_Packaging_for k) # es1"
          "list_all (\<lambda>e. \<not> is_subprocess e) es1" by auto
    show ?case
    proof (cases r)
      case (Inl e)
      with kp pp e1 show ?thesis by (simp add: action_defs is_subprocess_def)
    next
      case (Inr res)
      show ?thesis
      proof (cases "res = 0")
        case True
        from Cons.IH[of w1] obtain es2 where
          "trace (snd (package_all E v ps w1)) = trace w1 @ es2"
          "list_all (\<lambda>e. \<not> is_subprocess e) es2" by auto
        with True Inr kp pp e1 show ?thesis by (simp add: action_defs is_subprocess_def)
      next
        case False
        with Inr kp pp e1 show ?thesis by (simp add: action_defs is_subprocess_def)
      qed
    qed
  qed
qed

subsection \<open>The orchestration\<close>

lemma main_trace:
  "\<exists>es. trace (snd (main E version w)) =
          trace w @ Ev_subprocess (PROJECT_ROOT @ [if os_name E \<noteq> ''nt'' then ''gradlew'' else ''gradlew.bat''])
                      [''packageAll''] # es
        \<and> list_all (\<lambda>e. \<not> is_subprocess e) es"
proof -
  let ?g = "Ev_subprocess (PROJECT_ROOT @ [if os_name E \<noteq> ''nt'' then ''gradlew'' else ''gradlew.bat''])
                      [''packageAll'']"
  obtain r w1 where g: "gradle_package_all E w = (r, w1)" by (cases "gradle_package_all E w")
  then have t1: "trace w1 = trace w @ [?g]"
    by (auto simp: gradle_package_all_def Let_def split: prod.splits sum.splits)
  show ?thesis
  proof (cases r)
    case (Inl e)
    with g t1 show ?thesis by (simp add: main_def and_then_def)
  next
    case (Inr res)
    from emits_onlyD[OF emits_package_all, of E version platforms w1] obtain es2 where
      "trace (snd (package_all E version platforms w1)) = trace w1 @ es2"
      "list_all (\<lambda>e. \<not> is_subprocess e) es2" by auto
    with Inr g t1 show ?thesis by (simp add: main_def and_then_def ret_def)
  qed
qed

lemma main_build_failure:
  assumes "gradle_package_all E w = (g, wg)" and "g \<noteq> Inr 0"
  shows "main E version w = (g, wg)"
  using assms by (cases g) (simp_all add: main_def and_then_def ret_def)

lemma main_build_success:
  assumes "gradle_package_all E w = (Inr 0, wg)"
  shows "main E version w = package_all E version platforms wg"
  using assms by (simp add: main_def and_then_def)

lemma package_all_first_failure:
  assumes "package_platform E p version (w\<lparr>trace := trace w @ [Ev_print (Msg_Packaging_for k)]\<rparr>) = (r, w1)"
    and "r \<noteq> Inr 0"
  shows "package_all E version ((k, p) # rest) w =
           (r, case r of Inl e \<Rightarrow> w1 | Inr res \<Rightarrow> w1\<lparr>trace := trace w1 @ [Ev_print (Msg_Failed k)]\<rparr>)"
  using assms by (cases r) (simp_all add: action_defs)

lemma package_all_ignores_later:
  assumes "package_all E version ps w = (r, w')" and "r \<noteq> Inr 0"
  shows "package_all E version (ps @ qs) w = (r, w')"
  using assms
proof (induction ps arbitrary: w)
  case Nil
  then show ?case by (simp add: action_defs)
next
  case (Cons kp ps)
  obtain k p where kp: "kp = (k, p)" by (cases kp)
  let ?w0 = "w\<lparr>trace := trace w @ [Ev_print (Msg_Packaging_for k)]\<rparr>"
  obtain r1 w1 where pp: "package_platform E p version ?w0 = (r1, w1)"
    by (cases "package_platform E p version ?w0")
  show ?case
  proof (cases r1)
    case (Inl e)
    with Cons.prems kp pp show ?thesis by (auto simp: action_defs)
  next
    case (Inr res)
    show ?thesis
    proof (cases "res = 0")
      case True
      with Inr kp pp Cons.prems have "package_all E version ps w1 = (r, w')"
        by (simp add: action_defs)
      from Cons.IH[OF this Cons.prems(2)] True Inr kp pp show ?thesis
        by (simp add: action_defs)
    next
      case False
      with Inr kp pp Cons.prems show ?thesis by (auto simp: action_defs)
    qed
  qed
qed

lemma package_all_next:
  assumes "package_platform E p version (w\<lparr>trace := trace w @ [Ev_print (Msg_Packaging_for k)]\<rparr>) = (Inr 0, w1)"
  shows "package_all E version ((k, p) # rest) w = package_all E version rest w1"
  using assms by (simp add: action_defs)

lemma package_all_empty:
  "package_all E version [] w = (Inr 0, w\<lparr>trace := trace w @ [Ev_print Msg_All_packaged]\<rparr>)"
  by (simp add: action_defs)

lemma package_all_after_successes:
  assumes "packaged_in_turn E version ps w = Some wi"
  shows "package_all E version (ps @ qs) w = package_all E version qs wi"
  using assms
proof (induction ps arbitrary: w)
  case Nil
  then show ?case by simp
next
  case (Cons kp ps)
  obtain k p where kp: "kp = (k, p)" by (cases kp)
  let ?w0 = "w\<lparr>trace := trace w @ [Ev_print (Msg_Packaging_for k)]\<rparr>"
  obtain r1 w1 where pp: "package_platform E p version ?w0 = (r1, w1)"
    by (cases "package_platform E p version ?w0")
  from Cons.prems kp pp have r1: "r1 = Inr 0" and rest: "packaged_in_turn E version ps w1 = Some wi"
    by (auto split: sum.splits if_splits)
  from pp r1 have "package_all E version ((k, p) # (ps @ qs)) w = package_all E version (ps @ qs) w1"
    by (intro package_all_next) simp
  with Cons.IH[OF rest] kp show ?case by simp
qed

lemma package_all_stops_at_first_failure:
  assumes "packaged_in_turn E version ps w = Some wi"
    and "package_platform E p version (wi\<lparr>trace := trace wi @ [Ev_print (Msg_Packaging_for k)]\<rparr>) = (r, w1)"
    and "r \<noteq> Inr 0"
  shows "package_all E version (ps @ (k, p) # qs) w =
           (r, case r of Inl e \<Rightarrow> w1 | Inr res \<Rightarrow> w1\<lparr>trace := trace w1 @ [Ev_print (Msg_Failed k)]\<rparr>)"
  using package_all_after_successes[OF assms(1), of "(k, p) # qs"]
    package_all_first_failure[OF assms(2,3), of qs]
  by (simp del: package_all.simps)

lemma package_all_all_succeed:
  assumes "packaged_in_turn E version ps w = Some w'"
  shows "package_all E version ps w = (Inr 0, w'\<lparr>trace := trace w' @ [Ev_print Msg_All_packaged]\<rparr>)"
  using package_all_after_successes[OF assms, of "[]"] package_all_empty[of E version w']
  by (simp del: package_all.simps)

lemma package_all_zero_iff:
  "fst (package_all E version ps w) = Inr 0 \<longleftrightarrow> packaged_in_turn E version ps w \<noteq> None"
proof (induction ps arbitrary: w)
  case Nil
  then show ?case by (simp add: action_defs)
next
  case (Cons kp ps)
  obtain k p where kp: "kp = (k, p)" by (cases kp)
  let ?w0 = "w\<lparr>trace := trace w @ [Ev_print (Msg_Packaging_for k)]\<rparr>"
  obtain r1 w1 where pp: "package_platform E p version ?w0 = (r1, w1)"
    by (cases "package_platform E p version ?w0")
  show ?case using Cons.IH[of w1] kp pp
    by (cases r1) (auto simp: action_defs)
qed

text \<open>
  Claim C4. \<open>main\<close> logs the build first and logs no other build. A build that raises or
  returns non-zero is the result of \<open>main\<close>, in the world the build left; a build that
  returns zero is followed by the loop over the registry. In the loop, a platform whose
  packaging raises or returns non-zero ends the run with that result, and a run that ended
  so is the same run, result and world, whatever platforms are registered after; a platform
  whose packaging returns zero is followed by the rest of the registry, from the world it
  left, and the empty registry returns zero. So, at any position: when the platforms before
  one were packaged in turn and that one fails, the run ends with its result whatever
  follows it; when all were packaged in turn the run returns zero; and the run returns zero
  in no other case.
\<close>

theorem fail_fast_orchestration:
  "(\<exists>es. trace (snd (main E version w)) =
          trace w @ Ev_subprocess (PROJECT_ROOT @ [if os_name E \<noteq> ''nt'' then ''gradlew'' else ''gradlew.bat''])
                      [''packageAll''] # es
        \<and> list_all (\<lambda>e. \<not> is_subprocess e) es)
   \<and> (gradle_package_all E w = (g, wg) \<and> g \<noteq> Inr 0 \<longrightarrow> main E version w = (g, wg))
   \<and> (gradle_package_all E w = (Inr 0, wg) \<longrightarrow>
        main E version w = package_all E version platforms wg)
   \<and> (package_platform E p version (w\<lparr>trace := trace w @ [Ev_print (Msg_Packaging_for k)]\<rparr>) = (r, w1)
        \<and> r \<noteq> Inr 0 \<longrightarrow>
        package_all E version ((k, p) # rest) w =
          (r, case r of Inl e \<Rightarrow> w1 | Inr res \<Rightarrow> w1\<lparr>trace := trace w1 @ [Ev_print (Msg_Failed k)]\<rparr>))
   \<and> (package_all E version ps w = (r', w') \<and> r' \<noteq> Inr 0 \<longrightarrow>
        package_all E version (ps @ qs) w = (r', w'))
   \<and> (package_platform E p version (w\<lparr>trace := trace w @ [Ev_print (Msg_Packaging_for k)]\<rparr>) = (Inr 0, w1)
        \<longrightarrow> package_all E version ((k, p) # rest) w = package_all E version rest w1)
   \<and> package_all E version [] w = (Inr 0, w\<lparr>trace := trace w @ [Ev_print Msg_All_packaged]\<rparr>)
   \<and> (packaged_in_turn E version ps w = Some wi
        \<and> package_platform E p version (wi\<lparr>trace := trace wi @ [Ev_print (Msg_Packaging_for k)]\<rparr>) = (r, w2)
        \<and> r \<noteq> Inr 0 \<longrightarrow>
        package_all E version (ps @ (k, p) # qs) w =
          (r, case r of Inl e \<Rightarrow> w2 | Inr res \<Rightarrow> w2\<lparr>trace := trace w2 @ [Ev_print (Msg_Failed k)]\<rparr>))
   \<and> (packaged_in_turn E version ps w = Some wi \<longrightarrow>
        package_all E version ps w = (Inr 0, wi\<lparr>trace := trace wi @ [Ev_print Msg_All_packaged]\<rparr>))
   \<and> (fst (package_all E version ps w) = Inr 0) = (packaged_in_turn E version ps w \<noteq> None)"
  using main_trace[of E version w] main_build_failure[of E w g wg version]
    main_build_success[of E w wg version]
    package_all_first_failure[of E p version w k r w1 rest]
    package_all_ignores_later[of E version ps w r' w' qs]
    package_all_next[of E p version w k w1 rest]
    package_all_empty[of E version w]
    package_all_stops_at_first_failure[of E version ps w wi p k r w2 qs]
    package_all_all_succeed[of E version ps w wi]
    package_all_zero_iff[of E version ps w]
  by blast

theorem fail_fast_orchestration_witness:
  "main failing_build_env ''1.0'' sample_world =
     (Inr 1, sample_world\<lparr>trace := [Ev_subprocess [''gradlew''] [''packageAll'']]\<rparr>)
   \<and> main sample_env ''1.0'' no_windows_jar_world =
     package_all sample_env ''1.0'' platforms
       (no_windows_jar_world\<lparr>trace := [Ev_subprocess [''gradlew''] [''packageAll'']]\<rparr>)
   \<and> fst (package_platform sample_env windows_platform ''1.0''
           (no_windows_jar_world\<lparr>trace := trace no_windows_jar_world @
              [Ev_print (Msg_Packaging_for ''windows-x86_64'')]\<rparr>)) = Inr 1
   \<and> fst (package_all sample_env ''1.0'' platforms no_windows_jar_world) = Inr 1
   \<and> package_all sample_env ''1.0'' platforms no_windows_jar_world =
     package_all sample_env ''1.0'' [(''windows-x86_64'', windows_platform)] no_windows_jar_world
   \<and> fst (package_platform sample_env windows_platform ''1.0''
           (no_linux_jar_world\<lparr>trace := trace no_linux_jar_world @
              [Ev_print (Msg_Packaging_for ''windows-x86_64'')]\<rparr>)) = Inr 0
   \<and> package_all sample_env ''1.0'' platforms no_linux_jar_world =
     package_all sample_env ''1.0'' [(''linux-x86_64'', linux_platform)]
       (snd (package_platform sample_env windows_platform ''1.0''
           (no_linux_jar_world\<lparr>trace := trace no_linux_jar_world @
              [Ev_print (Msg_Packaging_for ''windows-x86_64'')]\<rparr>)))
   \<and> fst (package_all sample_env ''1.0'' platforms no_linux_jar_world) = Inr 1
   \<and> fst (package_all sample_env ''1.0'' [(''windows-x86_64'', windows_platform)] no_linux_jar_world) = Inr 0
   \<and> package_all sample_env ''1.0'' [] sample_world =
       (Inr 0, sample_world\<lparr>trace := [Ev_print Msg_All_packaged]\<rparr>)"
proof -
  let ?w = no_windows_jar_world
  let ?X = "package_platform sample_env windows_platform ''1.0''
              (?w\<lparr>trace := trace ?w @ [Ev_print (Msg_Packaging_for ''windows-x86_64'')]\<rparr>)"
  let ?Y = "package_all sample_env ''1.0'' [(''windows-x86_64'', windows_platform)] ?w"
  let ?wg = "sample_world\<lparr>trace := [Ev_subprocess [''gradlew''] [''packageAll'']]\<rparr>"
  have g: "gradle_package_all failing_build_env sample_world = (Inr 1, ?wg)"
    by (simp add: gradle_package_all_def failing_build_env_def sample_env_def sample_world_def
          PROJECT_ROOT_def Let_def)
  have x: "fst ?X = Inr 1" by code_simp
  have y: "fst ?Y = Inr 1" by code_simp
  have ps: "platforms = [(''windows-x86_64'', windows_platform)] @ tl platforms"
    by (simp add: platforms_def windows_platform_def)
  have ne: "Inr 1 \<noteq> (Inr 0 :: exn + int)" by simp
  let ?ws = "no_windows_jar_world\<lparr>trace := [Ev_subprocess [''gradlew''] [''packageAll'']]\<rparr>"
  have gs: "gradle_package_all sample_env no_windows_jar_world = (Inr 0, ?ws)"
    by (simp add: gradle_package_all_def sample_env_def no_windows_jar_world_def
          PROJECT_ROOT_def Let_def)
  have a2: "main sample_env ''1.0'' no_windows_jar_world = package_all sample_env ''1.0'' platforms ?ws"
    using fail_fast_orchestration[where E = sample_env and version = "''1.0''"
        and w = no_windows_jar_world and wg = ?ws, THEN conjunct2, THEN conjunct2, THEN conjunct1] gs
    by blast
  have a: "main failing_build_env ''1.0'' sample_world = (Inr 1, ?wg)"
    using fail_fast_orchestration[where E = failing_build_env and version = "''1.0''"
        and w = sample_world and g = "Inr 1" and wg = ?wg, THEN conjunct2, THEN conjunct1] g ne
    by blast
  have yp: "?Y = (fst ?Y, snd ?Y)" by (simp only: prod.collapse)
  have yn: "fst ?Y \<noteq> Inr 0" using y by simp
  have b: "package_all sample_env ''1.0'' ([(''windows-x86_64'', windows_platform)] @ tl platforms) ?w
             = (fst ?Y, snd ?Y)"
    using fail_fast_orchestration[where E = sample_env and version = "''1.0''" and w = ?w
        and ps = "[(''windows-x86_64'', windows_platform)]" and r' = "fst ?Y" and w' = "snd ?Y"
        and qs = "tl platforms", THEN conjunct2, THEN conjunct2, THEN conjunct2, THEN conjunct2,
        THEN conjunct1]
      yp yn
    by blast
  have xp: "?X = (fst ?X, snd ?X)" by (simp only: prod.collapse)
  have xn: "fst ?X \<noteq> Inr 0" using x by simp
  have c: "package_all sample_env ''1.0'' ((''windows-x86_64'', windows_platform) # tl platforms) ?w
             = (fst ?X, case fst ?X of Inl e \<Rightarrow> snd ?X
                        | Inr res \<Rightarrow> (snd ?X)\<lparr>trace := trace (snd ?X) @ [Ev_print (Msg_Failed ''windows-x86_64'')]\<rparr>)"
    using fail_fast_orchestration[where E = sample_env and version = "''1.0''" and w = ?w
        and p = windows_platform and k = "''windows-x86_64''" and r = "fst ?X" and ?w1.0 = "snd ?X"
        and rest = "tl platforms", THEN conjunct2, THEN conjunct2, THEN conjunct2, THEN conjunct1]
      xp xn
    by blast
  have ps': "(''windows-x86_64'', windows_platform) # tl platforms = platforms"
    by (simp add: platforms_def windows_platform_def)
  have c': "fst (package_all sample_env ''1.0'' platforms ?w) = Inr 1"
    using c x unfolding ps' by (simp only: fst_conv)
  from b yp have b': "package_all sample_env ''1.0'' platforms ?w = ?Y"
    unfolding ps[symmetric] by (simp only:)
  let ?v = no_linux_jar_world
  let ?win = "[(''windows-x86_64'', windows_platform)]"
  let ?lin = "[(''linux-x86_64'', linux_platform)]"
  let ?P = "package_platform sample_env windows_platform ''1.0''
              (?v\<lparr>trace := trace ?v @ [Ev_print (Msg_Packaging_for ''windows-x86_64'')]\<rparr>)"
  let ?wi = "the (packaged_in_turn sample_env ''1.0'' ?win ?v)"
  let ?L = "package_platform sample_env linux_platform ''1.0''
              (?wi\<lparr>trace := trace ?wi @ [Ev_print (Msg_Packaging_for ''linux-x86_64'')]\<rparr>)"
  have tlp: "tl platforms = ?lin" by (simp add: platforms_def linux_platform_def)
  have pl: "platforms = ?win @ (''linux-x86_64'', linux_platform) # []"
    using ps tlp by simp
  have p0: "fst ?P = Inr 0" by code_simp
  have pp: "?P = (Inr 0, snd ?P)" using p0 by (metis prod.collapse)
  have d: "package_all sample_env ''1.0'' ((''windows-x86_64'', windows_platform) # ?lin) ?v
             = package_all sample_env ''1.0'' ?lin (snd ?P)"
    using fail_fast_orchestration[where E = sample_env and version = "''1.0''" and w = ?v
        and p = windows_platform and k = "''windows-x86_64''" and ?w1.0 = "snd ?P"
        and rest = ?lin, THEN conjunct2, THEN conjunct2, THEN conjunct2, THEN conjunct2,
        THEN conjunct2, THEN conjunct1]
      pp
    by blast
  have d': "package_all sample_env ''1.0'' platforms ?v = package_all sample_env ''1.0'' ?lin (snd ?P)"
    using d ps' tlp by (simp only:)
  have t0: "packaged_in_turn sample_env ''1.0'' ?win ?v \<noteq> None" by code_simp
  then have t1: "packaged_in_turn sample_env ''1.0'' ?win ?v = Some ?wi" by simp
  have l1: "fst ?L = Inr 1" by code_simp
  have lp: "?L = (fst ?L, snd ?L)" by (simp only: prod.collapse)
  have ln: "fst ?L \<noteq> Inr 0" using l1 by simp
  have e: "package_all sample_env ''1.0'' (?win @ (''linux-x86_64'', linux_platform) # []) ?v
             = (fst ?L, case fst ?L of Inl e \<Rightarrow> snd ?L
                        | Inr res \<Rightarrow> (snd ?L)\<lparr>trace := trace (snd ?L) @ [Ev_print (Msg_Failed ''linux-x86_64'')]\<rparr>)"
    using fail_fast_orchestration[where E = sample_env and version = "''1.0''" and w = ?v
        and ps = ?win and wi = ?wi and p = linux_platform and k = "''linux-x86_64''"
        and r = "fst ?L" and ?w2.0 = "snd ?L" and qs = "[]",
        THEN conjunct2, THEN conjunct2, THEN conjunct2, THEN conjunct2, THEN conjunct2, THEN conjunct2, THEN conjunct2, THEN conjunct1]
      t1 lp ln
    by blast
  have e': "fst (package_all sample_env ''1.0'' platforms ?v) = Inr 1"
    using e l1 unfolding pl[symmetric] by (simp only: fst_conv)
  have f: "fst (package_all sample_env ''1.0'' ?win ?v) = Inr 0"
    using fail_fast_orchestration[where E = sample_env and version = "''1.0''" and w = ?v
        and ps = ?win, THEN conjunct2, THEN conjunct2, THEN conjunct2, THEN conjunct2, THEN conjunct2, THEN conjunct2, THEN conjunct2, THEN conjunct2, THEN conjunct2]
      t0
    by blast
  have h: "package_all sample_env ''1.0'' [] sample_world =
             (Inr 0, sample_world\<lparr>trace := [Ev_print Msg_All_packaged]\<rparr>)"
    using fail_fast_orchestration[where E = sample_env and version = "''1.0''" and w = sample_world,
        THEN conjunct2, THEN conjunct2, THEN conjunct2, THEN conjunct2, THEN conjunct2, THEN conjunct2, THEN conjunct1]
    by (simp add: sample_world_def)
  show ?thesis
    using a a2 x c' b' p0 d' e' f h by (simp only: simp_thms)
qed

subsection \<open>The scratch root\<close>

lemma lookup_remove_tree: "lookup (remove_tree f p) q = (if prefix p q then None else lookup f q)"
  by (induction f) (auto simp: lookup_def remove_tree_def)

lemma set_ancestors: "q \<in> set (ancestors p) \<Longrightarrow> strict_prefix q p"
  by (auto simp: ancestors_def strict_prefix_def take_is_prefix)

lemma for_each_ensure_dir_lookup:
  "for_each ensure_dir ds w = (Inr (), w') \<Longrightarrow>
     lookup (fs w') q = (if q \<in> set ds then Some Dir else lookup (fs w) q)"
proof (induction ds arbitrary: w)
  case Nil
  then show ?case by simp
next
  case (Cons d ds)
  obtain r w1 where e: "ensure_dir d w = (r, w1)" by (cases "ensure_dir d w")
  with Cons.prems obtain "r = Inr ()" and rest: "for_each ensure_dir ds w1 = (Inr (), w')"
    by (cases r) auto
  with e have l1: "lookup (fs w1) q = (if q = d then Some Dir else lookup (fs w) q)"
    by (auto simp: ensure_dir_def action_defs split: option.splits node.splits)
  from Cons.IH[OF rest] l1 show ?case by auto
qed

lemma makedirs_lookup:
  "makedirs ds w = (Inr (), w') \<Longrightarrow>
     lookup (fs w') q = (if q \<in> set ds then Some Dir else lookup (fs w) q)"
  unfolding makedirs_def by (rule for_each_ensure_dir_lookup)

lemma mkdir_parents_lookup:
  assumes "mkdir_parents b p w = (Inr (), w')"
  shows "lookup (fs w') p = Some Dir"
    and "\<not> prefix q p \<Longrightarrow> lookup (fs w') q = lookup (fs w) q"
proof -
  let ?w0 = "w\<lparr>trace := trace w @ [Ev_mkdir p]\<rparr>"
  show "lookup (fs w') p = Some Dir"
    using assms
    by (auto simp: mkdir_parents_def action_defs split: option.splits if_splits sum.splits prod.splits)
  assume np: "\<not> prefix q p"
  then have nq: "q \<noteq> p" "q \<notin> set (ancestors p)"
    using set_ancestors[of q p] by (auto simp: strict_prefix_def)
  show "lookup (fs w') q = lookup (fs w) q"
  proof (cases "lookup (fs w) p")
    case (Some n)
    with assms show ?thesis
      by (auto simp: mkdir_parents_def action_defs split: if_splits)
  next
    case None
    obtain r w1 where m: "makedirs (ancestors p) ?w0 = (r, w1)"
      by (cases "makedirs (ancestors p) ?w0")
    with None assms have "r = Inr ()" and w': "fs w' = put (fs w1) p Dir"
      by (cases r; auto simp: mkdir_parents_def action_defs)+
    with m have "makedirs (ancestors p) ?w0 = (Inr (), w1)" by simp
    from makedirs_lookup[OF this, of q] nq w' show ?thesis by simp
  qed
qed

lemma rmtree_lookup:
  assumes "rmtree E h p w = (Inr (), w')" and "h = None \<or> h = Some remove_readonly"
  shows "lookup (fs w') q = (if prefix p q then None else lookup (fs w) q)"
  using assms
  by (auto simp: rmtree_def remove_readonly_def chmod_def call_os_func_def action_defs
        lookup_remove_tree split: if_splits option.splits node.splits)

lemma ensure_directories_scratch:
  assumes "ensure_directories E platform w = (Inr (), w')" and "strict_prefix TMP_DIR q"
  shows "lookup (fs w') q = (if q = platform_tmp_folder platform then Some Dir else None)"
proof -
  let ?ptf = "platform_tmp_folder platform"
  from assms(2) obtain rel where q: "q = TMP_DIR @ rel" "rel \<noteq> []"
    by (auto simp: strict_prefix_def prefix_def)
  have np: "\<not> prefix q OUTPUT_DIR" "\<not> prefix q JDK_DIR" "\<not> prefix q TMP_DIR"
    using q by (auto simp: prefix_def TMP_DIR_def OUTPUT_DIR_def JDK_DIR_def WORK_DIR_def PROJECT_ROOT_def)
  have pq: "prefix q ?ptf \<longleftrightarrow> q = ?ptf"
    using q by (auto simp: platform_tmp_folder_def prefix_def append_eq_append_conv2 Cons_eq_append_conv)
  from assms(1) obtain w1 w2 w3 w4 w5 where
    s1: "rmtree E (Some remove_readonly) TMP_DIR w = (Inr (), w1)" and
    s2: "mkdir_parents True OUTPUT_DIR w1 = (Inr (), w2)" and
    s3: "mkdir_parents True JDK_DIR w2 = (Inr (), w3)" and
    s4: "mkdir_parents True TMP_DIR w3 = (Inr (), w4)" and
    s5: "and_then (path_exists ?ptf)
           (\<lambda>b. when_do b (rmtree E (Some remove_readonly) ?ptf)) w4 = (Inr (), w5)" and
    s6: "mkdir_parents False ?ptf w5 = (Inr (), w')"
    by (auto simp: ensure_directories_def next_do_def and_then_def split: sum.splits prod.splits)
  have l1: "lookup (fs w1) x = None" if "prefix TMP_DIR x" for x
    using rmtree_lookup[OF s1, of x] that by simp
  have l4: "lookup (fs w4) x = None" if "strict_prefix TMP_DIR x" for x
  proof -
    from that obtain r where "x = TMP_DIR @ r" "r \<noteq> []"
      by (auto simp: strict_prefix_def prefix_def)
    then have "\<not> prefix x OUTPUT_DIR" "\<not> prefix x JDK_DIR" "\<not> prefix x TMP_DIR"
      by (auto simp: prefix_def TMP_DIR_def OUTPUT_DIR_def JDK_DIR_def WORK_DIR_def PROJECT_ROOT_def)
    with mkdir_parents_lookup(2)[OF s2, of x] mkdir_parents_lookup(2)[OF s3, of x]
      mkdir_parents_lookup(2)[OF s4, of x] l1[of x] that
    show ?thesis by (simp add: strict_prefix_def)
  qed
  have sp: "strict_prefix TMP_DIR ?ptf"
    by (simp add: platform_tmp_folder_def strict_prefix_def)
  from l4[OF sp] s5 have w5: "w5 = w4"
    by (simp add: action_defs exists_def)
  show ?thesis
  proof (cases "q = ?ptf")
    case True
    with mkdir_parents_lookup(1)[OF s6] show ?thesis by simp
  next
    case False
    with pq mkdir_parents_lookup(2)[OF s6, of q] w5 l4[OF assms(2)] show ?thesis by simp
  qed
qed


text \<open>
  Claim C6 as stated fails: in one run of \<open>main\<close> over the two registered platforms, both
  packaged successfully, \<open>rmtree(TMP_DIR)\<close> is called twice, once for each platform.
\<close>

theorem scratch_root_cleared_twice:
  "fst (main sample_env ''1.0'' sample_world) = Inr 0
   \<and> count_list (trace (snd (main sample_env ''1.0'' sample_world))) (Ev_rmtree TMP_DIR) = 2"
  by code_simp

text \<open>
  Claim C6 as amended. The shared scratch root is cleared at the start of every platform's
  processing: whatever the platform and the world, \<open>package_platform\<close> first calls
  \<open>rmtree(TMP_DIR)\<close> (and never again in that call); and once stage 1 has completed, the
  scratch root holds nothing but the new, empty per-platform subdirectory.
\<close>

theorem scratch_root_wiped_for_each_platform:
  "(rmtree_has_onexc E \<longrightarrow>
      (\<exists>es. trace (snd (package_platform E platform version_tag w)) =
              trace w @ Ev_rmtree TMP_DIR # es \<and> list_all later_event es))
   \<and> (ensure_directories E platform w = (Inr (), w') \<and> strict_prefix TMP_DIR q \<longrightarrow>
        lookup (fs w') q = (if q = platform_tmp_folder platform then Some Dir else None))"
  using package_platform_first_event[of E platform version_tag w]
    ensure_directories_scratch[of E platform w w' q]
  by blast

theorem scratch_root_wiped_for_each_platform_witness:
  "rmtree_has_onexc sample_env
   \<and> (\<exists>es. trace (snd (package_platform sample_env linux_platform ''1.0'' bundle_world)) =
              trace bundle_world @ Ev_rmtree TMP_DIR # es \<and> list_all later_event es)
   \<and> fst (ensure_directories sample_env linux_platform bundle_world) = Inr ()
   \<and> strict_prefix TMP_DIR (TMP_DIR @ [''linux-x86_64'', ''jdk''])
   \<and> exists (fs bundle_world) (TMP_DIR @ [''linux-x86_64'', ''jdk''])
   \<and> lookup (fs (snd (ensure_directories sample_env linux_platform bundle_world)))
        (TMP_DIR @ [''linux-x86_64'', ''jdk'']) = None"
proof -
  let ?S = "ensure_directories sample_env linux_platform bundle_world"
  let ?q = "TMP_DIR @ [''linux-x86_64'', ''jdk'']"
  have a: "rmtree_has_onexc sample_env" by (simp add: sample_env_def)
  have b: "fst ?S = Inr ()" by code_simp
  then have b': "?S = (Inr (), snd ?S)" by (simp add: prod_eq_iff)
  have c: "strict_prefix TMP_DIR ?q" by (simp add: strict_prefix_def)
  have d: "exists (fs bundle_world) ?q" by code_simp
  have e: "?q \<noteq> platform_tmp_folder linux_platform"
    by (simp add: platform_tmp_folder_def)
  note T = scratch_root_wiped_for_each_platform[where E = sample_env and platform = linux_platform
      and version_tag = "''1.0''" and w = bundle_world and w' = "snd ?S" and q = ?q]
  from T a have t1: "\<exists>es. trace (snd (package_platform sample_env linux_platform ''1.0'' bundle_world)) =
              trace bundle_world @ Ev_rmtree TMP_DIR # es \<and> list_all later_event es"
    by blast
  from T b' c e have t2: "lookup (fs (snd ?S)) ?q = None"
    by (simp only: simp_thms if_False)
  show ?thesis
    using a t1 b c d t2 by (simp only: simp_thms)
qed

subsection \<open>The downloader\<close>

lemma lookup_delete: "lookup (AList.delete p f) q = (if q = p then None else lookup f q)"
  by (simp add: lookup_def delete_conv')

lemma lookup_rekey:
  assumes "\<forall>(q, n) \<in> set g. \<not> prefix dst q"
  shows "lookup (rekey src dst g) k =
           (if prefix dst k then lookup g (src @ drop (length dst) k)
            else if prefix src k then None else lookup g k)"
  using assms
proof (induction g)
  case Nil
  show ?case by (simp add: lookup_def rekey_def)
next
  case (Cons a g)
  obtain q n where a: "a = (q, n)" by (cases a)
  from Cons.prems a have nq: "\<not> prefix dst q" and rest: "\<forall>(q, n) \<in> set g. \<not> prefix dst q"
    by auto
  have ih: "lookup (rekey src dst g) k =
           (if prefix dst k then lookup g (src @ drop (length dst) k)
            else if prefix src k then None else lookup g k)"
    by (rule Cons.IH[OF rest])
  have step: "lookup (rekey src dst (a # g)) k =
      (if (if prefix src q then dst @ drop (length src) q else q) = k
       then Some n else lookup (rekey src dst g) k)"
    using a by (auto simp: lookup_def rekey_def)
  have cons: "lookup (a # g) x = (if x = q then Some n else lookup g x)" for x
    using a by (auto simp: lookup_def)
  have dk: "dst @ drop (length dst) k = k" if "prefix dst k"
    using that by (auto simp: prefix_def)
  show ?case
  proof (cases "prefix src q")
    case True
    then obtain r where q: "q = src @ r" by (auto simp: prefix_def)
    show ?thesis
    proof (cases "dst @ r = k")
      case True
      then have "prefix dst k" "drop (length dst) k = r" by auto
      with step q True show ?thesis by (simp add: cons)
    next
      case ne: False
      show ?thesis
      proof (cases "prefix dst k")
        case True
        with ne dk have "src @ drop (length dst) k \<noteq> q" using q by auto
        with step q ne ih True show ?thesis by (simp add: cons)
      next
        case False
        have "prefix src k \<or> k \<noteq> q" using q by auto
        with step q ne ih False show ?thesis by (auto simp: cons)
      qed
    qed
  next
    case nsrc: False
    show ?thesis
    proof (cases "q = k")
      case True
      with step nsrc nq show ?thesis by (simp add: cons)
    next
      case ne: False
      have "src @ x \<noteq> q" for x using nsrc by (auto simp: prefix_def)
      with step nsrc ne ih show ?thesis by (auto simp: cons)
    qed
  qed
qed

lemma remove_tree_keys: "\<forall>(q, n) \<in> set (remove_tree f p). \<not> prefix p q"
  by (auto simp: remove_tree_def)

lemma lookup_rename:
  "lookup (rekey src dst (remove_tree f dst)) k =
     (if prefix dst k then (if prefix dst (src @ drop (length dst) k) then None
                            else lookup f (src @ drop (length dst) k))
      else if prefix src k then None else lookup f k)"
  using lookup_rekey[OF remove_tree_keys, where src = src and k = k and dst = dst and f1 = f]
  by (simp add: lookup_remove_tree)

lemma unlink_effect:
  assumes "unlink p w = (r, w')"
  shows "(r = Inr () \<longrightarrow> (\<forall>q. lookup (fs w') q = (if q = p then None else lookup (fs w) q))
                     \<and> \<not> is_dir (fs w) p)
       \<and> (r \<noteq> Inr () \<longrightarrow> fs w' = fs w)
       \<and> trace w' = trace w @ [Ev_unlink p]
       \<and> (exists (fs w) p \<and> \<not> is_dir (fs w) p \<longrightarrow> r = Inr ())"
  using assms
  by (auto simp: unlink_def action_defs lookup_delete exists_def is_dir_def
        split: option.splits node.splits)

lemma create_file_effect:
  assumes "create_file E p d w = (r, w')"
  shows "(r = Inr () \<longrightarrow>
           (\<forall>q. lookup (fs w') q =
              (if q = p then Some (File d (case lookup (fs w) p of Some (File _ m) \<Rightarrow> m
                                           | _ \<Rightarrow> new_file_mode E))
               else lookup (fs w) q)))
       \<and> (r \<noteq> Inr () \<longrightarrow> w' = w)
       \<and> trace w' = trace w"
  using assms
  by (auto simp: create_file_def action_defs split: if_splits option.splits node.splits)

lemma write_chunks_effect:
  assumes "lookup (fs w) p = Some (File d m)"
  shows "\<exists>w'. for_each (append_file p) cs w = (Inr (), w')
             \<and> lookup (fs w') p = Some (File (d @ concat cs) m)
             \<and> (\<forall>q. q \<noteq> p \<longrightarrow> lookup (fs w') q = lookup (fs w) q)
             \<and> trace w' = trace w"
  using assms
proof (induction cs arbitrary: w d)
  case Nil
  then show ?case by simp
next
  case (Cons c cs)
  let ?w1 = "w\<lparr>fs := put (fs w) p (File (d @ c) m)\<rparr>"
  from Cons.prems have a: "append_file p c w = (Inr (), ?w1)"
    by (simp add: append_file_def action_defs)
  have "lookup (fs ?w1) p = Some (File (d @ c) m)" by simp
  from Cons.IH[OF this] obtain w' where
    "for_each (append_file p) cs ?w1 = (Inr (), w')"
    "lookup (fs w') p = Some (File ((d @ c) @ concat cs) m)"
    "\<forall>q. q \<noteq> p \<longrightarrow> lookup (fs w') q = lookup (fs ?w1) q"
    "trace w' = trace ?w1" by blast
  with a show ?case by simp
qed


lemma cache_names:
  "jdk_archive_path platform \<noteq> jdk_archive_path_tmp"
  "\<not> prefix (jdk_archive_path platform) jdk_archive_path_tmp"
  "\<not> prefix jdk_archive_path_tmp (jdk_archive_path platform)"
proof -
  have l: "last (jdk_id (jdk platform) @ ''.'' @ extension (archive_type (jdk platform))) \<noteq> CHR ''t''"
    by (simp add: extension_def)
  have ne: "jdk_id (jdk platform) @ ''.'' @ extension (archive_type (jdk platform)) \<noteq> ''jdk.part''"
  proof
    assume "jdk_id (jdk platform) @ ''.'' @ extension (archive_type (jdk platform)) = ''jdk.part''"
    then have "last (jdk_id (jdk platform) @ ''.'' @ extension (archive_type (jdk platform))) =
                 last ''jdk.part''" by (rule arg_cong)
    with l show False by simp
  qed
  then show "jdk_archive_path platform \<noteq> jdk_archive_path_tmp"
    by (simp add: jdk_archive_path_def jdk_archive_path_tmp_def)
  from ne show "\<not> prefix (jdk_archive_path platform) jdk_archive_path_tmp"
    "\<not> prefix jdk_archive_path_tmp (jdk_archive_path platform)"
    by (simp_all add: jdk_archive_path_def jdk_archive_path_tmp_def)
qed

lemma fetch_to_tmp_effect:
  assumes "fetch_to_tmp E platform w = (r, w')"
  shows "(\<forall>q. q \<noteq> jdk_archive_path_tmp \<longrightarrow> lookup (fs w') q = lookup (fs w) q)
       \<and> (\<exists>es. trace w' = trace w @ Ev_http_get (download_url (jdk platform)) # es
                \<and> list_all (\<lambda>e. \<not> is_http_get e) es)
       \<and> (r = Inr () \<longrightarrow>
            (\<exists>status header chunks.
               http_get E (trace w) (download_url (jdk platform)) = Response status header chunks False
               \<and> \<not> (400 \<le> status \<and> status < 600)
               \<and> lookup (fs w') jdk_archive_path_tmp =
                   Some (File (concat chunks)
                     (case lookup (fs w) jdk_archive_path_tmp of Some (File _ m) \<Rightarrow> m
                      | _ \<Rightarrow> new_file_mode E))))
       \<and> (lookup (fs w') jdk_archive_path_tmp = lookup (fs w) jdk_archive_path_tmp
          \<or> (\<exists>status header chunks broken.
               http_get E (trace w) (download_url (jdk platform)) = Response status header chunks broken
               \<and> lookup (fs w') jdk_archive_path_tmp =
                   Some (File (concat chunks)
                     (case lookup (fs w) jdk_archive_path_tmp of Some (File _ m) \<Rightarrow> m
                      | _ \<Rightarrow> new_file_mode E))))"
proof (cases "http_get E (trace w) (download_url (jdk platform))")
  case NoConnection
  with assms have "fs w' = fs w" "trace w' = trace w @ [Ev_http_get (download_url (jdk platform))]"
    "r \<noteq> Inr ()"
    by (auto simp: fetch_to_tmp_def requests_get_def action_defs)
  then show ?thesis by simp
next
  case (Response st h cs br)
  let ?url = "download_url (jdk platform)"
  let ?tmp = jdk_archive_path_tmp
  let ?w1 = "w\<lparr>trace := trace w @ [Ev_http_get ?url]\<rparr>"
  let ?w2 = "w\<lparr>trace := trace w @ [Ev_http_get ?url, Ev_open_wb ?tmp]\<rparr>"
  have rg: "requests_get E ?url w = (Inr (Response st h cs br), ?w1)"
    using Response by (simp add: requests_get_def action_defs)
  show ?thesis
  proof (cases "(400 \<le> st \<and> st < 600) \<or> h = BadHeader")
    case True
    with assms rg have "fs w' = fs w" "trace w' = trace w @ [Ev_http_get ?url]" "r \<noteq> Inr ()"
      by (auto simp: fetch_to_tmp_def raise_for_status_def total_size_of_def action_defs
            split: if_splits content_length.splits)
    then show ?thesis by simp
  next
    case ok: False
    obtain rc w3 where cf: "create_file E ?tmp [] ?w2 = (rc, w3)"
      by (cases "create_file E ?tmp [] ?w2")
    from ok assms rg cf have run:
      "(case rc of Inl e \<Rightarrow> (Inl e, w3)
        | Inr u \<Rightarrow> iter_content_write ?tmp cs br w3) = (r, w')"
      by (auto simp: fetch_to_tmp_def raise_for_status_def total_size_of_def action_defs
            split: if_splits content_length.splits)
    show ?thesis
    proof (cases rc)
      case (Inl e)
      with create_file_effect[OF cf] have "w3 = ?w2" by simp
      with Inl run have "fs w' = fs w" "trace w' = trace w @ [Ev_http_get ?url, Ev_open_wb ?tmp]"
        "r \<noteq> Inr ()" by auto
      then show ?thesis by (simp add: is_http_get_def)
    next
      case (Inr u)
      let ?m = "case lookup (fs w) ?tmp of Some (File _ m) \<Rightarrow> m | _ \<Rightarrow> new_file_mode E"
      from Inr create_file_effect[OF cf] have
        l3: "\<forall>q. lookup (fs w3) q = (if q = ?tmp then Some (File [] ?m) else lookup (fs w) q)"
        and t3: "trace w3 = trace ?w2" by simp_all
      then have "lookup (fs w3) ?tmp = Some (File [] ?m)" by simp
      from write_chunks_effect[OF this, of cs] obtain w4 where
        w4: "for_each (append_file ?tmp) cs w3 = (Inr (), w4)"
            "lookup (fs w4) ?tmp = Some (File (concat cs) ?m)"
            "\<forall>q. q \<noteq> ?tmp \<longrightarrow> lookup (fs w4) q = lookup (fs w3) q"
            "trace w4 = trace w3" by auto
      from Inr run w4(1) have res: "w' = w4" "r = (if br then Inl ChunkedEncodingError else Inr ())"
        by (auto simp: iter_content_write_def action_defs split: if_splits)
      have "\<forall>q. q \<noteq> ?tmp \<longrightarrow> lookup (fs w') q = lookup (fs w) q"
        using res w4(3) l3 by simp
      moreover have "trace w' = trace w @ Ev_http_get ?url # [Ev_open_wb ?tmp]"
        using res w4(4) t3 by simp
      moreover have "lookup (fs w') ?tmp = Some (File (concat cs) ?m)"
        using res w4(2) by simp
      moreover have "r = Inr () \<longrightarrow> \<not> br" using res by simp
      ultimately show ?thesis
        using Response ok by (auto simp: is_http_get_def)
    qed
  qed
qed


lemma rename_effect:
  assumes "rename E src dst w = (r, w')" and "\<not> prefix dst src" and "\<not> prefix src dst"
  shows "trace w' = trace w @ [Ev_rename src dst]"
    and "r \<noteq> Inr () \<Longrightarrow> fs w' = fs w"
    and "r = Inr () \<Longrightarrow> lookup (fs w') dst = lookup (fs w) src \<and> lookup (fs w') src = None"
proof -
  show "trace w' = trace w @ [Ev_rename src dst]"
    using assms(1) by (auto simp: rename_def action_defs split: if_splits)
  show "r \<noteq> Inr () \<Longrightarrow> fs w' = fs w"
    using assms(1) by (auto simp: rename_def action_defs split: if_splits)
  assume "r = Inr ()"
  with assms have "fs w' = rekey src dst (remove_tree (fs w) dst)"
    by (auto simp: rename_def action_defs split: if_splits)
  with assms(2,3) show "lookup (fs w') dst = lookup (fs w) src \<and> lookup (fs w') src = None"
    by (simp add: lookup_rename)
qed

lemma download_jdk_unfold:
  "download_jdk E platform w =
     (let w0 = w\<lparr>trace := trace w @ [Ev_print (Msg_Downloading (key platform))]\<rparr> in
      case (if exists (fs w) jdk_archive_path_tmp then unlink jdk_archive_path_tmp w0
            else (Inr (), w0)) of
        (Inl e, w1) \<Rightarrow> (Inl e, w1)
      | (Inr u, w1) \<Rightarrow>
          if exists (fs w1) (jdk_archive_path platform)
          then (Inr (), w1\<lparr>trace := trace w1 @ [Ev_print (Msg_Cache_hit (key platform))]\<rparr>)
          else (case fetch_to_tmp E platform w1 of
                  (Inl e, w2) \<Rightarrow> (Inl e, w2)
                | (Inr u, w2) \<Rightarrow> rename E jdk_archive_path_tmp (jdk_archive_path platform) w2))"
  by (auto simp: download_jdk_def action_defs Let_def split: sum.splits prod.splits)

text \<open>The state in which the cache is consulted: the stale temporary file is gone.\<close>

lemma download_jdk_steps:
  assumes "download_jdk E platform w = (r, w')"
  obtains (unlink_failed) e where "r = Inl e" "fs w' = fs w" "is_dir (fs w) jdk_archive_path_tmp"
      "trace w' = trace w @ [Ev_print (Msg_Downloading (key platform)), Ev_unlink jdk_archive_path_tmp]"
  | (cache_hit) w1 :: world where
      "\<forall>q. lookup (fs w1) q = (if q = jdk_archive_path_tmp then None else lookup (fs w) q)"
      "trace w1 = trace w @ Ev_print (Msg_Downloading (key platform)) #
                   (if exists (fs w) jdk_archive_path_tmp then [Ev_unlink jdk_archive_path_tmp] else [])"
      "exists (fs w) (jdk_archive_path platform)" "r = Inr ()" "fs w' = fs w1"
      "trace w' = trace w1 @ [Ev_print (Msg_Cache_hit (key platform))]"
  | (fetch_failed) w1 :: world and e where
      "\<forall>q. lookup (fs w1) q = (if q = jdk_archive_path_tmp then None else lookup (fs w) q)"
      "trace w1 = trace w @ Ev_print (Msg_Downloading (key platform)) #
                   (if exists (fs w) jdk_archive_path_tmp then [Ev_unlink jdk_archive_path_tmp] else [])"
      "\<not> exists (fs w) (jdk_archive_path platform)" "r = Inl e"
      "fetch_to_tmp E platform w1 = (Inl e, w')"
  | (fetched) w1 w2 where
      "\<forall>q. lookup (fs w1) q = (if q = jdk_archive_path_tmp then None else lookup (fs w) q)"
      "trace w1 = trace w @ Ev_print (Msg_Downloading (key platform)) #
                   (if exists (fs w) jdk_archive_path_tmp then [Ev_unlink jdk_archive_path_tmp] else [])"
      "\<not> exists (fs w) (jdk_archive_path platform)"
      "fetch_to_tmp E platform w1 = (Inr (), w2)"
      "rename E jdk_archive_path_tmp (jdk_archive_path platform) w2 = (r, w')"
proof -
  let ?tmp = jdk_archive_path_tmp
  let ?fin = "jdk_archive_path platform"
  let ?w0 = "w\<lparr>trace := trace w @ [Ev_print (Msg_Downloading (key platform))]\<rparr>"
  obtain r1 w1 where u: "(if exists (fs w) ?tmp then unlink ?tmp ?w0 else (Inr (), ?w0)) = (r1, w1)"
    by (cases "if exists (fs w) ?tmp then unlink ?tmp ?w0 else (Inr (), ?w0)")
  show thesis
  proof (cases r1)
    case (Inl e)
    with u have ex: "exists (fs w) ?tmp" and un: "unlink ?tmp ?w0 = (Inl e, w1)"
      by (auto split: if_splits)
    from unlink_effect[OF un] ex have "fs w1 = fs w" "is_dir (fs w) ?tmp"
      "trace w1 = trace w @ [Ev_print (Msg_Downloading (key platform)), Ev_unlink ?tmp]"
      by auto
    moreover from assms u Inl have "r = Inl e" "w' = w1"
      by (auto simp: download_jdk_unfold Let_def)
    ultimately show ?thesis using unlink_failed[of e] by simp
  next
    case (Inr u1)
    have l1: "\<forall>q. lookup (fs w1) q = (if q = ?tmp then None else lookup (fs w) q)"
    proof (cases "exists (fs w) ?tmp")
      case True
      with u Inr have "unlink ?tmp ?w0 = (Inr (), w1)" by simp
      from unlink_effect[OF this] show ?thesis by simp
    next
      case False
      with u have "w1 = ?w0" by simp
      with False show ?thesis by (auto simp: exists_def)
    qed
    have t1: "trace w1 = trace w @ Ev_print (Msg_Downloading (key platform)) #
                   (if exists (fs w) ?tmp then [Ev_unlink ?tmp] else [])"
    proof (cases "exists (fs w) ?tmp")
      case True
      with u Inr have "unlink ?tmp ?w0 = (Inr (), w1)" by simp
      from unlink_effect[OF this] True show ?thesis by simp
    next
      case False
      with u have "w1 = ?w0" by simp
      with False show ?thesis by simp
    qed
    have ef: "exists (fs w1) ?fin = exists (fs w) ?fin"
      using l1 cache_names(1)[of platform] by (simp add: exists_def)
    show ?thesis
    proof (cases "exists (fs w) ?fin")
      case True
      with assms u Inr ef have h: "r = Inr ()" "fs w' = fs w1"
        "trace w' = trace w1 @ [Ev_print (Msg_Cache_hit (key platform))]"
        by (auto simp: download_jdk_unfold Let_def)
      show ?thesis by (rule cache_hit[OF l1 t1 True h])
    next
      case nf: False
      obtain r2 w2 where f: "fetch_to_tmp E platform w1 = (r2, w2)"
        by (cases "fetch_to_tmp E platform w1")
      show ?thesis
      proof (cases r2)
        case (Inl e)
        with assms u Inr ef nf f have h: "r = Inl e" "w' = w2"
          by (auto simp: download_jdk_unfold Let_def)
        with f Inl have ff: "fetch_to_tmp E platform w1 = (Inl e, w')" by simp
        show ?thesis by (rule fetch_failed[OF l1 t1 nf h(1) ff])
      next
        case r2: (Inr u2)
        with assms u Inr ef nf f have h: "rename E ?tmp ?fin w2 = (r, w')"
          by (auto simp: download_jdk_unfold Let_def)
        from f r2 have ff: "fetch_to_tmp E platform w1 = (Inr (), w2)" by simp
        show ?thesis by (rule fetched[OF l1 t1 nf ff h])
      qed
    qed
  qed
qed


text \<open>
  Claim C1. The temporary name \<open>jdk.part\<close> differs from every final cache name. A fetch that
  raises leaves every path but the temporary one as it was, so a runtime that was not cached
  has no file under its final name. A fetch of a runtime that was not cached returns only
  after a complete answer, whose bytes are then the file under the final name, the temporary
  file being gone. A stale temporary file is unlinked before anything else: after the fetch,
  whether it hit the cache, failed or succeeded, the temporary name is free or holds only
  the bytes received in this attempt.
\<close>

theorem download_atomicity:
  assumes run: "download_jdk E platform w = (r, w')"
  shows "jdk_archive_path platform \<noteq> jdk_archive_path_tmp
    \<and> ((\<exists>e. r = Inl e) \<longrightarrow>
         (\<forall>q. q \<noteq> jdk_archive_path_tmp \<longrightarrow> lookup (fs w') q = lookup (fs w) q))
    \<and> ((\<exists>e. r = Inl e) \<and> \<not> exists (fs w) (jdk_archive_path platform) \<longrightarrow>
         \<not> exists (fs w') (jdk_archive_path platform))
    \<and> (r = Inr () \<and> \<not> exists (fs w) (jdk_archive_path platform) \<longrightarrow>
         (\<exists>tr status header chunks.
            http_get E tr (download_url (jdk platform)) = Response status header chunks False
            \<and> \<not> (400 \<le> status \<and> status < 600)
            \<and> lookup (fs w') (jdk_archive_path platform) =
                Some (File (concat chunks) (new_file_mode E)))
         \<and> \<not> exists (fs w') jdk_archive_path_tmp)
    \<and> (\<not> is_dir (fs w) jdk_archive_path_tmp \<longrightarrow>
         lookup (fs w') jdk_archive_path_tmp = None
         \<or> (\<exists>tr status header chunks broken.
              http_get E tr (download_url (jdk platform)) = Response status header chunks broken
              \<and> lookup (fs w') jdk_archive_path_tmp =
                  Some (File (concat chunks) (new_file_mode E))))
    \<and> (exists (fs w) jdk_archive_path_tmp \<longrightarrow>
         (\<exists>es. trace w' = trace w @ Ev_print (Msg_Downloading (key platform)) #
                              Ev_unlink jdk_archive_path_tmp # es))"
proof -
  let ?tmp = jdk_archive_path_tmp
  let ?fin = "jdk_archive_path platform"
  note ne = cache_names(1)[of platform]
  from run show ?thesis
  proof (cases rule: download_jdk_steps)
    case (unlink_failed e)
    then show ?thesis using ne by (simp add: exists_def)
  next
    case (cache_hit w1)
    then show ?thesis using ne by (simp add: exists_def)
  next
    case (fetch_failed w1 e)
    note F = fetch_to_tmp_effect[OF fetch_failed(5)]
    from F fetch_failed(1) have frame: "\<forall>q. q \<noteq> ?tmp \<longrightarrow> lookup (fs w') q = lookup (fs w) q"
      by simp
    from fetch_failed(1) have t1: "lookup (fs w1) ?tmp = None" by simp
    from F t1 have tmp: "lookup (fs w') ?tmp = None
         \<or> (\<exists>tr status header chunks broken.
              http_get E tr (download_url (jdk platform)) = Response status header chunks broken
              \<and> lookup (fs w') ?tmp = Some (File (concat chunks) (new_file_mode E)))"
      by (auto; blast)
    from F fetch_failed(2) have tr: "exists (fs w) ?tmp \<longrightarrow>
         (\<exists>es. trace w' = trace w @ Ev_print (Msg_Downloading (key platform)) # Ev_unlink ?tmp # es)"
      by auto
    from frame ne have "lookup (fs w') ?fin = lookup (fs w) ?fin" by simp
    with frame tmp tr fetch_failed(3,4) ne show ?thesis
      by (simp add: exists_def)
  next
    case (fetched w1 w2)
    note F = fetch_to_tmp_effect[OF fetched(4)]
    note R = rename_effect[OF fetched(5) cache_names(2) cache_names(3)]
    from fetched(1) have t1: "lookup (fs w1) ?tmp = None" by simp
    from F t1 obtain tr status header chunks where
      resp: "http_get E tr (download_url (jdk platform)) = Response status header chunks False"
            "\<not> (400 \<le> status \<and> status < 600)"
            "lookup (fs w2) ?tmp = Some (File (concat chunks) (new_file_mode E))"
      by auto
    from F fetched(1) have frame2: "\<forall>q. q \<noteq> ?tmp \<longrightarrow> lookup (fs w2) q = lookup (fs w) q"
      by simp
    from F R(1) fetched(2) have tr: "exists (fs w) ?tmp \<longrightarrow>
         (\<exists>es. trace w' = trace w @ Ev_print (Msg_Downloading (key platform)) # Ev_unlink ?tmp # es)"
      by auto
    show ?thesis
    proof (cases "r = Inr ()")
      case True
      with R(3) resp have "lookup (fs w') ?fin = Some (File (concat chunks) (new_file_mode E))"
        "lookup (fs w') ?tmp = None" by simp_all
      with True resp tr ne show ?thesis
        by (auto simp: exists_def)
    next
      case False
      with R(2) have same: "fs w' = fs w2" by simp
      from False obtain e where e: "r = Inl e" by (cases r) auto
      from same resp(1,3) have tmpd: "lookup (fs w') ?tmp = None
         \<or> (\<exists>tr status header chunks broken.
              http_get E tr (download_url (jdk platform)) = Response status header chunks broken
              \<and> lookup (fs w') ?tmp = Some (File (concat chunks) (new_file_mode E)))"
        by (intro disjI2 exI[of _ tr] exI[of _ status] exI[of _ header] exI[of _ chunks]
              exI[of _ False]) simp
      from same frame2 have frame: "\<forall>q. q \<noteq> ?tmp \<longrightarrow> lookup (fs w') q = lookup (fs w) q"
        by simp
      with ne have "lookup (fs w') ?fin = lookup (fs w) ?fin" by simp
      with e frame tmpd tr fetched(3) ne show ?thesis
        by (simp add: exists_def)
    qed
  qed
qed


theorem download_atomicity_witness:
  "fst (download_jdk serving_env linux_platform stale_world) = Inr ()
   \<and> \<not> exists (fs stale_world) (jdk_archive_path linux_platform)
   \<and> exists (fs stale_world) jdk_archive_path_tmp
   \<and> \<not> is_dir (fs stale_world) jdk_archive_path_tmp
   \<and> (\<exists>tr status header chunks.
         http_get serving_env tr (download_url (jdk linux_platform)) = Response status header chunks False
         \<and> \<not> (400 \<le> status \<and> status < 600)
         \<and> lookup (fs (snd (download_jdk serving_env linux_platform stale_world)))
              (jdk_archive_path linux_platform) =
             Some (File (concat chunks) (new_file_mode serving_env)))
   \<and> \<not> exists (fs (snd (download_jdk serving_env linux_platform stale_world))) jdk_archive_path_tmp
   \<and> fst (download_jdk breaking_env linux_platform stale_world) = Inl ChunkedEncodingError
   \<and> \<not> exists (fs (snd (download_jdk breaking_env linux_platform stale_world)))
          (jdk_archive_path linux_platform)
   \<and> lookup (fs (snd (download_jdk breaking_env linux_platform stale_world))) JDK_DIR =
       lookup (fs stale_world) JDK_DIR
   \<and> (lookup (fs (snd (download_jdk breaking_env linux_platform stale_world))) jdk_archive_path_tmp = None
       \<or> (\<exists>tr status header chunks broken.
             http_get breaking_env tr (download_url (jdk linux_platform)) =
               Response status header chunks broken
             \<and> lookup (fs (snd (download_jdk breaking_env linux_platform stale_world)))
                  jdk_archive_path_tmp = Some (File (concat chunks) (new_file_mode breaking_env))))
   \<and> (\<exists>es. trace (snd (download_jdk breaking_env linux_platform stale_world)) =
             trace stale_world @ Ev_print (Msg_Downloading (key linux_platform)) #
               Ev_unlink jdk_archive_path_tmp # es)"
proof -
  let ?A = "download_jdk serving_env linux_platform stale_world"
  let ?B = "download_jdk breaking_env linux_platform stale_world"
  have a: "fst ?A = Inr ()" by code_simp
  have b: "fst ?B = Inl ChunkedEncodingError" by code_simp
  have nc: "\<not> exists (fs stale_world) (jdk_archive_path linux_platform)" by code_simp
  have st: "exists (fs stale_world) jdk_archive_path_tmp" by code_simp
  have nd: "\<not> is_dir (fs stale_world) jdk_archive_path_tmp" by code_simp
  have runA: "?A = (Inr (), snd ?A)" using a by (simp add: prod_eq_iff)
  have runB: "?B = (Inl ChunkedEncodingError, snd ?B)" using b by (simp add: prod_eq_iff)
  note TA = download_atomicity[OF runA]
  note TB = download_atomicity[OF runB]
  from TA nc have A1: "(\<exists>tr status header chunks.
         http_get serving_env tr (download_url (jdk linux_platform)) = Response status header chunks False
         \<and> \<not> (400 \<le> status \<and> status < 600)
         \<and> lookup (fs (snd ?A)) (jdk_archive_path linux_platform) =
             Some (File (concat chunks) (new_file_mode serving_env)))
       \<and> \<not> exists (fs (snd ?A)) jdk_archive_path_tmp"
    by blast
  from TB nc have B1: "\<not> exists (fs (snd ?B)) (jdk_archive_path linux_platform)"
    by blast
  from TB have "\<forall>q. q \<noteq> jdk_archive_path_tmp \<longrightarrow>
          lookup (fs (snd ?B)) q = lookup (fs stale_world) q"
    by blast
  moreover have "JDK_DIR \<noteq> jdk_archive_path_tmp"
    by (simp add: jdk_archive_path_tmp_def)
  ultimately have B2: "lookup (fs (snd ?B)) JDK_DIR = lookup (fs stale_world) JDK_DIR"
    by blast
  from TB nd have B3: "lookup (fs (snd ?B)) jdk_archive_path_tmp = None
       \<or> (\<exists>tr status header chunks broken.
             http_get breaking_env tr (download_url (jdk linux_platform)) =
               Response status header chunks broken
             \<and> lookup (fs (snd ?B)) jdk_archive_path_tmp =
                  Some (File (concat chunks) (new_file_mode breaking_env)))"
    by blast
  from TB st have B4: "\<exists>es. trace (snd ?B) =
             trace stale_world @ Ev_print (Msg_Downloading (key linux_platform)) #
               Ev_unlink jdk_archive_path_tmp # es"
    by blast
  show ?thesis
    using a nc st nd A1 b B1 B2 B3 B4 by (simp only: simp_thms)
qed

lemma download_jdk_cached:
  assumes "download_jdk E platform w = (r, w')" and "exists (fs w) (jdk_archive_path platform)"
  shows "(\<exists>es. trace w' = trace w @ es \<and> list_all (\<lambda>e. \<not> is_http_get e) es)
       \<and> lookup (fs w') (jdk_archive_path platform) = lookup (fs w) (jdk_archive_path platform)
       \<and> (\<not> is_dir (fs w) jdk_archive_path_tmp \<longrightarrow> r = Inr ())"
  using assms(1)
proof (cases rule: download_jdk_steps)
  case (unlink_failed e)
  then show ?thesis by (simp add: is_http_get_def)
next
  case (cache_hit w1)
  then show ?thesis using cache_names(1)[of platform] by (simp add: is_http_get_def)
next
  case (fetch_failed w1 e)
  with assms(2) show ?thesis by simp
next
  case (fetched w1 w2)
  with assms(2) show ?thesis by simp
qed

lemma download_jdk_done:
  assumes "download_jdk E platform w = (Inr (), w')"
  shows "exists (fs w') (jdk_archive_path platform)"
    and "\<not> exists (fs w') jdk_archive_path_tmp"
    and "\<exists>es. trace w' = trace w @ es \<and> length (filter is_http_get es) \<le> 1"
proof -
  let ?tmp = jdk_archive_path_tmp
  let ?fin = "jdk_archive_path platform"
  note ne = cache_names(1)[of platform]
  have "exists (fs w') ?fin \<and> \<not> exists (fs w') ?tmp
      \<and> (\<exists>es. trace w' = trace w @ es \<and> length (filter is_http_get es) \<le> 1)"
    using assms
  proof (cases rule: download_jdk_steps)
    case (unlink_failed e)
    then show ?thesis by simp
  next
    case (cache_hit w1)
    then show ?thesis using ne by (simp add: exists_def is_http_get_def)
  next
    case (fetch_failed w1 e)
    then show ?thesis by simp
  next
    case (fetched w1 w2)
    note F = fetch_to_tmp_effect[OF fetched(4)]
    note R = rename_effect[OF fetched(5) cache_names(2) cache_names(3)]
    from F obtain es where es: "trace w2 = trace w1 @ Ev_http_get (download_url (jdk platform)) # es"
      "list_all (\<lambda>e. \<not> is_http_get e) es" by blast
    then have "filter is_http_get es = []"
      by (simp add: filter_empty_conv list_all_iff)
    with es R(1) fetched(2) have
      "\<exists>es. trace w' = trace w @ es \<and> length (filter is_http_get es) \<le> 1"
      by (auto simp: is_http_get_def)
    moreover from F R(3) have "exists (fs w') ?fin" "\<not> exists (fs w') ?tmp"
      by (auto simp: exists_def)
    ultimately show ?thesis by simp
  qed
  then show "exists (fs w') ?fin" "\<not> exists (fs w') ?tmp"
    "\<exists>es. trace w' = trace w @ es \<and> length (filter is_http_get es) \<le> 1"
    by simp_all
qed

text \<open>
  Claim C2. When the file \<open><jdk.id>.<zip|tar.gz>\<close> is in the cache, the fetch logs no HTTP
  request and leaves that file as it is, and it returns normally unless the temporary name
  is taken by a directory. Hence, after a fetch that returned, a second fetch of the same
  runtime (whatever the network does then) returns normally, logs no request and leaves the
  cached file as the first fetch left it; the two fetches together log at most one request.
\<close>

theorem cache_idempotence:
  "(download_jdk E platform w = (r, w') \<and> exists (fs w) (jdk_archive_path platform) \<longrightarrow>
      (\<exists>es. trace w' = trace w @ es \<and> list_all (\<lambda>e. \<not> is_http_get e) es)
      \<and> lookup (fs w') (jdk_archive_path platform) = lookup (fs w) (jdk_archive_path platform)
      \<and> (\<not> is_dir (fs w) jdk_archive_path_tmp \<longrightarrow> r = Inr ()))
   \<and> (download_jdk E1 platform w = (Inr (), w1) \<and> download_jdk E2 platform w1 = (r2, w2) \<longrightarrow>
        r2 = Inr ()
        \<and> exists (fs w1) (jdk_archive_path platform)
        \<and> lookup (fs w2) (jdk_archive_path platform) = lookup (fs w1) (jdk_archive_path platform)
        \<and> (\<exists>es1 es2. trace w1 = trace w @ es1 \<and> trace w2 = trace w1 @ es2
              \<and> length (filter is_http_get es1) \<le> 1 \<and> filter is_http_get es2 = []))"
proof -
  have second: "r2 = Inr ()
        \<and> exists (fs w1) (jdk_archive_path platform)
        \<and> lookup (fs w2) (jdk_archive_path platform) = lookup (fs w1) (jdk_archive_path platform)
        \<and> (\<exists>es1 es2. trace w1 = trace w @ es1 \<and> trace w2 = trace w1 @ es2
              \<and> length (filter is_http_get es1) \<le> 1 \<and> filter is_http_get es2 = [])"
    if one: "download_jdk E1 platform w = (Inr (), w1)"
      and two: "download_jdk E2 platform w1 = (r2, w2)"
  proof -
    note D = download_jdk_done[OF one]
    note C = download_jdk_cached[OF two D(1)]
    from D(2) have "\<not> is_dir (fs w1) jdk_archive_path_tmp"
      by (simp add: exists_def is_dir_def)
    with C have r2: "r2 = Inr ()" by simp
    from C obtain es2 where es2: "trace w2 = trace w1 @ es2" "list_all (\<lambda>e. \<not> is_http_get e) es2"
      by blast
    then have "filter is_http_get es2 = []"
      by (simp add: filter_empty_conv list_all_iff)
    with es2 D(3) r2 D(1) C show ?thesis by blast
  qed
  show ?thesis
    using download_jdk_cached[of E platform w r w'] second by blast
qed

theorem cache_idempotence_witness:
  "fst (download_jdk serving_env linux_platform stale_world) = Inr ()
   \<and> fst (download_jdk breaking_env linux_platform
            (snd (download_jdk serving_env linux_platform stale_world))) = Inr ()
   \<and> exists (fs (snd (download_jdk serving_env linux_platform stale_world)))
        (jdk_archive_path linux_platform)
   \<and> lookup (fs (snd (download_jdk breaking_env linux_platform
                        (snd (download_jdk serving_env linux_platform stale_world)))))
        (jdk_archive_path linux_platform) =
      lookup (fs (snd (download_jdk serving_env linux_platform stale_world)))
        (jdk_archive_path linux_platform)
   \<and> (\<exists>es. trace (snd (download_jdk breaking_env linux_platform
                          (snd (download_jdk serving_env linux_platform stale_world)))) =
             trace (snd (download_jdk serving_env linux_platform stale_world)) @ es
           \<and> list_all (\<lambda>e. \<not> is_http_get e) es)"
proof -
  let ?A = "download_jdk serving_env linux_platform stale_world"
  let ?B = "download_jdk breaking_env linux_platform (snd ?A)"
  have a: "fst ?A = Inr ()" by code_simp
  have runA: "?A = (Inr (), snd ?A)" using a by (simp add: prod_eq_iff)
  have runB: "?B = (fst ?B, snd ?B)" by (simp only: prod.collapse)
  note T2 = cache_idempotence[where ?E1.0 = serving_env and ?E2.0 = breaking_env
      and platform = linux_platform and w = stale_world and ?w1.0 = "snd ?A"
      and ?r2.0 = "fst ?B" and ?w2.0 = "snd ?B", THEN conjunct2]
  from T2 runA runB have s: "fst ?B = Inr ()"
    "exists (fs (snd ?A)) (jdk_archive_path linux_platform)"
    "lookup (fs (snd ?B)) (jdk_archive_path linux_platform) =
       lookup (fs (snd ?A)) (jdk_archive_path linux_platform)"
    by blast+
  note T1 = cache_idempotence[where E = breaking_env and platform = linux_platform
      and w = "snd ?A" and r = "fst ?B" and w' = "snd ?B", THEN conjunct1]
  from T1 runB s(2) have h: "\<exists>es. trace (snd ?B) = trace (snd ?A) @ es
           \<and> list_all (\<lambda>e. \<not> is_http_get e) es"
    by blast
  show ?thesis using a s h by (simp only: simp_thms)
qed

subsection \<open>The relocation\<close>

lemma output_vs_scratch:
  "\<not> prefix (final_path platform v) (platform_tmp_folder platform @ rel)"
  "\<not> prefix (platform_tmp_folder platform) (final_path platform v @ rel)"
  "\<not> prefix (final_path platform v) OUTPUT_DIR"
  "butlast (final_path platform v) = OUTPUT_DIR"
  "OUTPUT_DIR \<noteq> []" "final_path platform v \<noteq> []" "platform_tmp_folder platform \<noteq> []"
  by (simp_all add: final_path_def platform_tmp_folder_def OUTPUT_DIR_def TMP_DIR_def WORK_DIR_def
        PROJECT_ROOT_def butlast_append)

lemma move_effect:
  assumes "move src dst w = (r, w')"
  shows "trace w' = trace w @ [Ev_move src dst]"
    and "r = Inr () \<Longrightarrow> \<not> exists (fs w) dst \<Longrightarrow> fs w' = rekey src dst (remove_tree (fs w) dst)"
    and "exists (fs w) src \<Longrightarrow> src \<noteq> [] \<Longrightarrow> \<not> exists (fs w) dst \<Longrightarrow> dst \<noteq> [] \<Longrightarrow>
         butlast dst \<noteq> [] \<Longrightarrow> is_dir (fs w) (butlast dst) \<Longrightarrow> \<not> prefix src dst \<Longrightarrow> r = Inr ()"
  using assms
  by (auto simp: move_def action_defs Let_def exists_def is_dir_def split: if_splits)

lemma move_to_output_unfold:
  "move_to_output E platform v w =
     (case (if exists (fs w) (final_path platform v) then rmtree E None (final_path platform v) w
            else (Inr (), w)) of
        (Inl e, w1) \<Rightarrow> (Inl e, w1)
      | (Inr u, w1) \<Rightarrow>
          (case move (platform_tmp_folder platform) (final_path platform v) w1 of
             (Inl e, w2) \<Rightarrow> (Inl e, w2)
           | (Inr u, w2) \<Rightarrow>
               (Inr (), w2\<lparr>trace := trace w2 @
                  [Ev_print (Msg_Package_created (key platform) (final_path platform v))]\<rparr>)))"
  by (auto simp: move_to_output_def action_defs split: sum.splits prod.splits)

lemma rmtree_plain_effect:
  assumes "rmtree E None p w = (r, w')"
  shows "trace w' = trace w @ [Ev_rmtree p]"
    and "r = Inr () \<Longrightarrow> fs w' = remove_tree (fs w) p"
    and "is_dir (fs w) p \<Longrightarrow> r = Inr ()"
  using assms
  by (auto simp: rmtree_def action_defs is_dir_def split: option.splits node.splits)

lemma move_to_output_content:
  assumes "move_to_output E platform v w = (Inr (), w')"
  shows "lookup (fs w') (final_path platform v @ rel) = lookup (fs w) (platform_tmp_folder platform @ rel)"
    and "lookup (fs w') (platform_tmp_folder platform @ rel) = None"
    and "\<not> prefix (final_path platform v) q \<Longrightarrow> \<not> prefix (platform_tmp_folder platform) q \<Longrightarrow>
         lookup (fs w') q = lookup (fs w) q"
proof -
  let ?fin = "final_path platform v"
  let ?ptf = "platform_tmp_folder platform"
  obtain r1 w1 where s1: "(if exists (fs w) ?fin then rmtree E None ?fin w else (Inr (), w)) = (r1, w1)"
    by (cases "if exists (fs w) ?fin then rmtree E None ?fin w else (Inr (), w)")
  with assms have r1: "r1 = Inr ()"
    by (cases r1) (auto simp: move_to_output_unfold)
  obtain r2 w2 where s2: "move ?ptf ?fin w1 = (r2, w2)" by (cases "move ?ptf ?fin w1")
  with assms s1 r1 have r2: "r2 = Inr ()" and w': "fs w' = fs w2"
    by (cases r2; auto simp: move_to_output_unfold)+
  have ne1: "\<not> exists (fs w1) ?fin"
    and frame1: "\<not> prefix ?fin x \<Longrightarrow> lookup (fs w1) x = lookup (fs w) x" for x
  proof -
    show "\<not> exists (fs w1) ?fin"
    proof (cases "exists (fs w) ?fin")
      case True
      with s1 r1 rmtree_plain_effect(2)[of E ?fin w r1 w1] show ?thesis
        by (simp add: lookup_remove_tree exists_def)
    next
      case False
      with s1 show ?thesis by simp
    qed
    show "\<not> prefix ?fin x \<Longrightarrow> lookup (fs w1) x = lookup (fs w) x"
    proof (cases "exists (fs w) ?fin")
      case True
      assume "\<not> prefix ?fin x"
      with True s1 r1 rmtree_plain_effect(2)[of E ?fin w r1 w1] show ?thesis
        by (simp add: lookup_remove_tree)
    next
      case False
      with s1 show ?thesis by simp
    qed
  qed
  from move_effect(2)[OF s2 r2 ne1] w' have
    fs': "fs w' = rekey ?ptf ?fin (remove_tree (fs w1) ?fin)" by simp
  have d: "drop (length ?fin) (?fin @ rel) = rel" by simp
  show "lookup (fs w') (?fin @ rel) = lookup (fs w) (?ptf @ rel)"
    unfolding fs' lookup_rename
    using output_vs_scratch(1)[of platform v rel] frame1[of "?ptf @ rel"]
    by (simp add: d)
  show "lookup (fs w') (?ptf @ rel) = None"
    unfolding fs' lookup_rename
    using output_vs_scratch(1)[of platform v rel]
    by simp
  show "\<not> prefix ?fin q \<Longrightarrow> \<not> prefix ?ptf q \<Longrightarrow> lookup (fs w') q = lookup (fs w) q"
    unfolding fs' lookup_rename
    using frame1[of q] by simp
qed

lemma move_to_output_succeeds:
  assumes "is_dir (fs w) (final_path platform v)" and "exists (fs w) (platform_tmp_folder platform)"
    and "is_dir (fs w) OUTPUT_DIR"
  shows "fst (move_to_output E platform v w) = Inr ()"
proof -
  let ?fin = "final_path platform v"
  let ?ptf = "platform_tmp_folder platform"
  from assms(1) have ex: "exists (fs w) ?fin" by (simp add: exists_def is_dir_def)
  obtain r1 w1 where s1: "rmtree E None ?fin w = (r1, w1)" by (cases "rmtree E None ?fin w")
  from rmtree_plain_effect[OF s1] assms(1) have r1: "r1 = Inr ()"
    and f1: "fs w1 = remove_tree (fs w) ?fin" by simp_all
  have l1: "lookup (fs w1) x = (if prefix ?fin x then None else lookup (fs w) x)" for x
    by (simp add: f1 lookup_remove_tree)
  obtain r2 w2 where s2: "move ?ptf ?fin w1 = (r2, w2)" by (cases "move ?ptf ?fin w1")
  have "exists (fs w1) ?ptf"
    using l1[of ?ptf] assms(2) output_vs_scratch(1)[of platform v "[]"] by (simp add: exists_def)
  moreover have "\<not> exists (fs w1) ?fin" using l1[of ?fin] by (simp add: exists_def)
  moreover have "is_dir (fs w1) (butlast ?fin)"
    using l1[of OUTPUT_DIR] assms(3) output_vs_scratch(3,4) by (simp add: is_dir_def)
  moreover have "\<not> prefix ?ptf ?fin"
    using output_vs_scratch(2)[of platform v "[]"] by simp
  ultimately have "r2 = Inr ()"
    using move_effect(3)[OF s2] output_vs_scratch(4,5,6,7) by simp
  with ex s1 r1 s2 show ?thesis
    by (simp add: move_to_output_unfold)
qed

lemma move_to_output_deletes_first:
  assumes "exists (fs w) (final_path platform v)"
  shows "\<exists>es. trace (snd (move_to_output E platform v w)) =
               trace w @ Ev_rmtree (final_path platform v) # es"
proof -
  let ?fin = "final_path platform v"
  let ?ptf = "platform_tmp_folder platform"
  obtain r1 w1 where s1: "rmtree E None ?fin w = (r1, w1)" by (cases "rmtree E None ?fin w")
  note t1 = rmtree_plain_effect(1)[OF s1]
  obtain r2 w2 where s2: "move ?ptf ?fin w1 = (r2, w2)" by (cases "move ?ptf ?fin w1")
  note t2 = move_effect(1)[OF s2]
  show ?thesis
    using assms s1 s2 t1 t2
    by (cases r1; cases r2; simp add: move_to_output_unfold)
qed


text \<open>
  Claim C8. The final name is \<open>janus-<version>-<platformKey>\<close> in the output directory. If
  something of that name exists, the stage first calls \<open>rmtree\<close> on it; a directory of that
  name never makes the stage fail. When the stage has succeeded, the final directory is
  exactly the assembled bundle (every path below it holds what the same path below the
  scratch folder held, so nothing of an earlier bundle is left), the scratch folder is gone,
  and nothing else has changed.
\<close>

theorem relocation_replaces:
  "final_path platform v = OUTPUT_DIR @ [''janus-'' @ v @ ''-'' @ key platform]
   \<and> (exists (fs w) (final_path platform v) \<longrightarrow>
        (\<exists>es. trace (snd (move_to_output E platform v w)) =
                trace w @ Ev_rmtree (final_path platform v) # es))
   \<and> (is_dir (fs w) (final_path platform v) \<and> exists (fs w) (platform_tmp_folder platform)
        \<and> is_dir (fs w) OUTPUT_DIR \<longrightarrow>
        fst (move_to_output E platform v w) = Inr ())
   \<and> (move_to_output E platform v w = (Inr (), w') \<longrightarrow>
        (\<forall>rel. lookup (fs w') (final_path platform v @ rel) =
                 lookup (fs w) (platform_tmp_folder platform @ rel))
        \<and> (\<forall>rel. lookup (fs w') (platform_tmp_folder platform @ rel) = None)
        \<and> (\<forall>q. \<not> prefix (final_path platform v) q \<and> \<not> prefix (platform_tmp_folder platform) q \<longrightarrow>
                 lookup (fs w') q = lookup (fs w) q))"
  using move_to_output_deletes_first[of w platform v E]
    move_to_output_succeeds[of w platform v E]
    move_to_output_content[of E platform v w w']
  by (simp add: final_path_def final_dir_name_def)

theorem relocation_replaces_witness:
  "is_dir (fs bundle_world) (final_path linux_platform ''1.0'')
   \<and> exists (fs bundle_world) (platform_tmp_folder linux_platform)
   \<and> is_dir (fs bundle_world) OUTPUT_DIR
   \<and> exists (fs bundle_world) (final_path linux_platform ''1.0'' @ [''stale.txt''])
   \<and> fst (move_to_output sample_env linux_platform ''1.0'' bundle_world) = Inr ()
   \<and> lookup (fs (snd (move_to_output sample_env linux_platform ''1.0'' bundle_world)))
        (final_path linux_platform ''1.0'' @ [''stale.txt'']) = None
   \<and> lookup (fs (snd (move_to_output sample_env linux_platform ''1.0'' bundle_world)))
        (final_path linux_platform ''1.0'' @ [''jdk'', ''bin'', ''java'']) = Some (File ''ELF'' 493)
   \<and> (\<exists>es. trace (snd (move_to_output sample_env linux_platform ''1.0'' bundle_world)) =
             trace bundle_world @ Ev_rmtree (final_path linux_platform ''1.0'') # es)"
proof -
  let ?R = "move_to_output sample_env linux_platform ''1.0'' bundle_world"
  let ?fin = "final_path linux_platform ''1.0''"
  let ?ptf = "platform_tmp_folder linux_platform"
  have a: "is_dir (fs bundle_world) ?fin" by code_simp
  have b: "exists (fs bundle_world) ?ptf" by code_simp
  have c: "is_dir (fs bundle_world) OUTPUT_DIR" by code_simp
  have d: "exists (fs bundle_world) (?fin @ [''stale.txt''])" by code_simp
  have e: "exists (fs bundle_world) ?fin" using a by (simp add: exists_def is_dir_def)
  have s: "lookup (fs bundle_world) (?ptf @ [''stale.txt'']) = None" by code_simp
  have j: "lookup (fs bundle_world) (?ptf @ [''jdk'', ''bin'', ''java'']) = Some (File ''ELF'' 493)"
    by code_simp
  note T = relocation_replaces[where platform = linux_platform and v = "''1.0''"
      and w = bundle_world and E = sample_env and w' = "snd ?R"]
  from T a b c have ok: "fst ?R = Inr ()" by blast
  then have run: "?R = (Inr (), snd ?R)" by (simp add: prod_eq_iff)
  from T run have content: "\<forall>rel. lookup (fs (snd ?R)) (?fin @ rel) = lookup (fs bundle_world) (?ptf @ rel)"
    by blast
  from T e have first: "\<exists>es. trace (snd ?R) = trace bundle_world @ Ev_rmtree ?fin # es"
    by blast
  from content s have s': "lookup (fs (snd ?R)) (?fin @ [''stale.txt'']) = None" by simp
  from content j have j': "lookup (fs (snd ?R)) (?fin @ [''jdk'', ''bin'', ''java'']) = Some (File ''ELF'' 493)"
    by simp
  show ?thesis
    using a b c d ok s' j' first by (simp only: simp_thms)
qed

subsection \<open>The launcher\<close>

lemma bash_lines:
  assumes "LF \<notin> set j" "LF \<notin> set jar"
  shows \<open>split_LF (generate_bash_script j jar) =
     [''#!/bin/bash'', j @ '' --enable-native-access=ALL-UNNAMED -jar '' @ jar @ '' "$@"'', []]\<close>
proof -
  have a: "LF \<notin> set ''#!/bin/bash''" by (simp add: LF_def)
  have b: \<open>LF \<notin> set (j @ '' --enable-native-access=ALL-UNNAMED -jar '' @ jar @ '' "$@"'')\<close>
    using assms by (simp add: LF_def)
  show ?thesis
    unfolding generate_bash_script_def
    using split_LF_append[OF a] split_LF_append[OF b] by simp
qed

lemma bat_lines:
  assumes "LF \<notin> set j" "LF \<notin> set jar"
  shows \<open>split_LF (generate_bat_script j jar) =
     [''@echo off'' @ [CR], j @ '' --enable-native-access=ALL-UNNAMED -jar '' @ jar @ '' %*'' @ [CR], []]\<close>
proof -
  have a: "LF \<notin> set (''@echo off'' @ [CR])" by (simp add: LF_def CR_def)
  have b: \<open>LF \<notin> set (j @ '' --enable-native-access=ALL-UNNAMED -jar '' @ jar @ '' %*'' @ [CR])\<close>
    using assms by (simp add: LF_def CR_def)
  show ?thesis
    unfolding generate_bat_script_def
    using split_LF_append[OF a] split_LF_append[OF b] by simp
qed

lemma create_run_script_file:
  assumes "create_run_script E platform java jar w = (Inr (), w')"
  shows "lookup (fs w') (platform_tmp_folder platform @ [script_name platform]) =
           Some (File (text_mode E (script_content E platform java jar))
                   (if shell_type platform = BASH then 493
                    else case lookup (fs w) (platform_tmp_folder platform @ [script_name platform]) of
                           Some (File _ m) \<Rightarrow> m | _ \<Rightarrow> new_file_mode E))"
  using assms
  by (auto simp: create_run_script_def write_text_def action_defs
        create_file_def chmod_def Let_def
      split: if_splits option.splits node.splits sum.splits prod.splits)

lemma create_run_script_frame:
  assumes "create_run_script E platform java jar w = (r, w')"
    and "q \<noteq> platform_tmp_folder platform @ [script_name platform]"
  shows "lookup (fs w') q = lookup (fs w) q"
  using assms
  by (auto simp: create_run_script_def write_text_def action_defs
        create_file_def chmod_def Let_def
      split: if_splits option.splits node.splits sum.splits prod.splits)

lemma compress_package_frame:
  assumes "compress_package E platform v w = (r, w')"
    and "q \<noteq> archive_path platform v"
  shows "lookup (fs w') q = lookup (fs w) q"
proof -
  have cf: "lookup (fs (snd (create_file E (archive_path platform v) d u))) q = lookup (fs u) q" for d u
    using assms(2)
    by (auto simp: create_file_def action_defs split: if_splits option.splits node.splits)
  let ?w0 = "w\<lparr>trace := trace w @ [Ev_print (Msg_Compressing (key platform) (archive_path platform v))]\<rparr>"
  show ?thesis
  proof (cases "compress_to platform = ZIP")
    case True
    let ?w1 = "?w0\<lparr>trace := trace ?w0 @ [Ev_zip_create (archive_path platform v)]\<rparr>"
    obtain r2 w2 where c1: "create_file E (archive_path platform v) [] ?w1 = (r2, w2)"
      by (cases "create_file E (archive_path platform v) [] ?w1")
    from cf[of "[]" ?w1] c1 have l2: "lookup (fs w2) q = lookup (fs w) q" by simp
    show ?thesis
    proof (cases r2)
      case (Inl e)
      with assms(1) True c1 l2 show ?thesis
        by (auto simp: compress_package_def action_defs)
    next
      case (Inr u)
      with assms(1) True c1 have
        "w' = snd (create_file E (archive_path platform v)
                    (zip_encode E ZIP_DEFLATED (zip_members (fs w2) (final_path platform v))) w2)"
        by (auto simp: compress_package_def action_defs)
      with cf l2 show ?thesis by simp
    qed
  next
    case False
    let ?w1 = "?w0\<lparr>trace := trace ?w0 @ [Ev_tar_create (archive_path platform v)]\<rparr>"
    obtain r2 w2 where c1: "create_file E (archive_path platform v) [] ?w1 = (r2, w2)"
      by (cases "create_file E (archive_path platform v) [] ?w1")
    from cf[of "[]" ?w1] c1 have l2: "lookup (fs w2) q = lookup (fs w) q" by simp
    show ?thesis
    proof (cases r2)
      case (Inl e)
      with assms(1) False c1 l2 show ?thesis
        by (auto simp: compress_package_def action_defs)
    next
      case (Inr u)
      with assms(1) False c1 have
        "w' = w2 \<or> w' = snd (create_file E (archive_path platform v)
                    (tgz_encode E (tar_members (fs w2) (final_path platform v) (final_dir_name platform v))) w2)"
        by (auto simp: compress_package_def action_defs split: if_splits)
      with cf l2 show ?thesis by auto
    qed
  qed
qed

lemma assemble_success_stages:
  assumes "assemble_and_pack E platform v w = (Inr 0, w')"
  obtains w1 rel w2 w3 where
    "copy2 (LIBS_DIR @ [jar_name platform v]) (platform_tmp_folder platform @ [jar_name platform v]) w
       = (Inr (), w1)"
    "find_java (shell_type platform) (platform_tmp_folder platform)
       (rglob_bin_java (fs w1) (platform_tmp_folder platform)) = Some rel"
    "create_run_script E platform rel (jar_name platform v) w1 = (Inr (), w2)"
    "move_to_output E platform v w2 = (Inr (), w3)"
    "compress_package E platform v w3 = (Inr (), w')"
proof -
  let ?src = "LIBS_DIR @ [jar_name platform v]"
  let ?dst = "platform_tmp_folder platform @ [jar_name platform v]"
  from assms have ex: "exists (fs w) ?src"
    by (auto simp: assemble_and_pack_def action_defs Let_def split: if_splits)
  obtain r1 and w1 :: world where c: "copy2 ?src ?dst w = (r1, w1)" by (cases "copy2 ?src ?dst w")
  from assms ex c have r1: "r1 = Inr ()"
    by (cases r1) (auto simp: assemble_and_pack_def action_defs Let_def)
  let ?f = "find_java (shell_type platform) (platform_tmp_folder platform)
       (rglob_bin_java (fs w1) (platform_tmp_folder platform))"
  from assms ex c r1 obtain rel where rel: "?f = Some rel"
    by (cases ?f) (auto simp: assemble_and_pack_def action_defs Let_def)
  from assms ex c r1 rel have rest:
    "next_do (create_run_script E platform rel (jar_name platform v))
       (next_do (move_to_output E platform v)
       (next_do (compress_package E platform v) (ret (0 :: int)))) w1 = (Inr 0, w')"
    by (simp add: assemble_and_pack_def action_defs Let_def)
  obtain r2 and w2 :: world where s: "create_run_script E platform rel (jar_name platform v) w1 = (r2, w2)"
    by (cases "create_run_script E platform rel (jar_name platform v) w1")
  from rest s have r2: "r2 = Inr ()" by (cases r2) (auto simp: action_defs)
  obtain r3 and w3 :: world where m: "move_to_output E platform v w2 = (r3, w3)"
    by (cases "move_to_output E platform v w2")
  from rest s r2 m have r3: "r3 = Inr ()" by (cases r3) (auto simp: action_defs)
  obtain r4 and w4 :: world where k: "compress_package E platform v w3 = (r4, w4)"
    by (cases "compress_package E platform v w3")
  from rest s r2 m r3 k have r4: "r4 = Inr ()" "w4 = w'" by (cases r4; auto simp: action_defs)+
  from that[of w1 rel w2 w3] c r1 rel s r2 m r3 k r4 show ?thesis by simp
qed

lemma launcher_on_posix_host:
  assumes "os_name E \<noteq> ''nt''" and "assemble_and_pack E platform v w = (Inr 0, w')"
  shows "\<exists>rel m. is_java_entry (shell_type platform) (final_path platform v) (final_path platform v @ rel)
           \<and> exists (fs w') (final_path platform v @ rel)
           \<and> lookup (fs w') (final_path platform v @ [script_name platform]) =
               Some (File (if shell_type platform = BAT
                           then generate_bat_script (join_with ''/'' rel) (jar_name platform v)
                           else generate_bash_script (''./'' @ join_with ''/'' rel) (jar_name platform v)) m)
           \<and> (shell_type platform = BASH \<longrightarrow> m = 493)"
proof -
  let ?ptf = "platform_tmp_folder platform"
  let ?fin = "final_path platform v"
  from assemble_success_stages[OF assms(2)] obtain w1 rel w2 w3 where
    c: "copy2 (LIBS_DIR @ [jar_name platform v]) (?ptf @ [jar_name platform v]) w = (Inr (), w1)"
    and f: "find_java (shell_type platform) ?ptf (rglob_bin_java (fs w1) ?ptf) = Some rel"
    and s: "create_run_script E platform rel (jar_name platform v) w1 = (Inr (), w2)"
    and m: "move_to_output E platform v w2 = (Inr (), w3)"
    and k: "compress_package E platform v w3 = (Inr (), w')"
    by blast
  from search_finds[OF f] have ex1: "exists (fs w1) (?ptf @ rel)"
    and je: "is_java_entry (shell_type platform) ?ptf (?ptf @ rel)" by simp_all
  from je have len: "2 \<le> length rel" by (simp add: is_java_entry_def)
  then have ne: "?ptf @ rel \<noteq> ?ptf @ [script_name platform]" by auto
  from create_run_script_frame[OF s ne] ex1 have ex2: "exists (fs w2) (?ptf @ rel)"
    by (simp add: exists_def)
  from move_to_output_content(1)[OF m, of rel] ex2 have ex3: "exists (fs w3) (?fin @ rel)"
    by (simp add: exists_def)
  have na: "?fin @ x \<noteq> archive_path platform v" if "x \<noteq> []" for x
    using that by (auto simp: final_path_def archive_path_def dest!: arg_cong[where f = length])
  from len have rne: "rel \<noteq> []" by auto
  from compress_package_frame[OF k na[OF rne]] ex3 have ex4: "exists (fs w') (?fin @ rel)"
    by (simp add: exists_def)
  have tm: "text_mode E s = s" for s using assms(1) by (simp add: text_mode_def)
  have ps: "path_str E rel = join_with ''/'' rel" using assms(1) by (simp add: path_str_def)
  from create_run_script_file[OF s] obtain md where
    l2: "lookup (fs w2) (?ptf @ [script_name platform]) =
           Some (File (script_content E platform rel (jar_name platform v)) md)"
    and md: "shell_type platform = BASH \<longrightarrow> md = 493"
    by (auto simp: tm)
  from move_to_output_content(1)[OF m, of "[script_name platform]"] l2
  have l3: "lookup (fs w3) (?fin @ [script_name platform]) =
           Some (File (script_content E platform rel (jar_name platform v)) md)" by simp
  from compress_package_frame[OF k na[of "[script_name platform]"]] l3
  have l4: "lookup (fs w') (?fin @ [script_name platform]) =
           Some (File (script_content E platform rel (jar_name platform v)) md)" by simp
  from len have bne: "butlast rel \<noteq> []" by (cases rel rule: rev_cases) auto
  from je rne bne have je': "is_java_entry (shell_type platform) ?fin (?fin @ rel)"
    by (auto simp: is_java_entry_def butlast_append strict_prefix_def)
  from je' ex4 l4 md show ?thesis
    by (auto simp: script_content_def ps)
qed

lemma text_mode_nt_lines:
  assumes "os_name E = ''nt''" and "LF \<notin> set j" and "LF \<notin> set jar"
  shows \<open>split_LF (text_mode E (generate_bat_script j jar)) =
     [''@echo off'' @ [CR, CR], j @ '' --enable-native-access=ALL-UNNAMED -jar '' @ jar @ '' %*'' @ [CR, CR], []]\<close>
    and \<open>split_LF (text_mode E (generate_bash_script j jar)) =
     [''#!/bin/bash'' @ [CR], j @ '' --enable-native-access=ALL-UNNAMED -jar '' @ jar @ '' "$@"'' @ [CR], []]\<close>
proof -
  have id: "concat (map (\<lambda>c. if c = LF then [CR, LF] else [c]) s) = s" if "LF \<notin> set s" for s
    using that by (induction s) auto
  have a: "LF \<notin> set (''@echo off'' @ [CR, CR])" by (simp add: LF_def CR_def)
  have b: \<open>LF \<notin> set (j @ '' --enable-native-access=ALL-UNNAMED -jar '' @ jar @ '' %*'' @ [CR, CR])\<close>
    using assms by (simp add: LF_def CR_def)
  have a': "LF \<notin> set (''#!/bin/bash'' @ [CR])" by (simp add: LF_def CR_def)
  have b': \<open>LF \<notin> set (j @ '' --enable-native-access=ALL-UNNAMED -jar '' @ jar @ '' "$@"'' @ [CR])\<close>
    using assms by (simp add: LF_def CR_def)
  have t1: \<open>text_mode E (generate_bat_script j jar) =
      (''@echo off'' @ [CR, CR]) @ LF # (j @ '' --enable-native-access=ALL-UNNAMED -jar '' @ jar @ '' %*'' @ [CR, CR]) @ LF # []\<close>
    using assms id[of j] id[of jar]
    by (simp add: text_mode_def generate_bat_script_def LF_def CR_def)
  have t2: \<open>text_mode E (generate_bash_script j jar) =
      (''#!/bin/bash'' @ [CR]) @ LF # (j @ '' --enable-native-access=ALL-UNNAMED -jar '' @ jar @ '' "$@"'' @ [CR]) @ LF # []\<close>
    using assms id[of j] id[of jar]
    by (simp add: text_mode_def generate_bash_script_def LF_def CR_def)
  show \<open>split_LF (text_mode E (generate_bat_script j jar)) =
     [''@echo off'' @ [CR, CR], j @ '' --enable-native-access=ALL-UNNAMED -jar '' @ jar @ '' %*'' @ [CR, CR], []]\<close>
    unfolding t1 using split_LF_append[OF a] split_LF_append[OF b] by simp
  show \<open>split_LF (text_mode E (generate_bash_script j jar)) =
     [''#!/bin/bash'' @ [CR], j @ '' --enable-native-access=ALL-UNNAMED -jar '' @ jar @ '' "$@"'' @ [CR], []]\<close>
    unfolding t2 using split_LF_append[OF a'] split_LF_append[OF b'] by simp
qed

text \<open>
  Claim C5. The launchers are generated as the lemmas above state: the shebang or
  \<open>@echo off\<close>, then the invocation with the flag, \<open>-jar\<close>, the artifact name and the
  forwarded arguments, the batch lines closed by CR LF; and on a host other than Windows the
  bundle holds that text, under the name \<open>run-janus.sh\<close> with mode \<open>0o755\<close> or
  \<open>run-janus.bat\<close>, calling an executable of the bundle by its \<open>/\<close>-separated relative path.
  On a Windows host (\<open>os.name = 'nt'\<close>) the file the pipeline writes is another: text mode
  writes every \<open>\n\<close> as CR LF, so each line of the batch launcher ends in CR CR LF and the
  first line of the bash launcher is \<open>#!/bin/bash\<close> followed by CR; and the path handed to
  the generators is separated by backslashes. The pipeline is run on the sample world for both
  registered platforms, on a Windows host and on a POSIX host.
\<close>

theorem launcher_on_windows_host:
  \<open>fst (package_platform windows_host_env windows_platform ''1.0'' sample_world) = Inr 0
   \<and> lookup (fs (snd (package_platform windows_host_env windows_platform ''1.0'' sample_world)))
       (OUTPUT_DIR @ [''janus-1.0-windows-x86_64'', ''run-janus.bat'']) =
     Some (File (''@echo off'' @ [CR, CR, LF] @
                 ''jdk'' @ [CHR 0x5C] @ ''bin'' @ [CHR 0x5C] @
                 ''java.exe --enable-native-access=ALL-UNNAMED -jar janus-1.0-windows-x86_64.jar %*'' @
                 [CR, CR, LF]) 420)
   \<and> fst (package_platform windows_host_env linux_platform ''1.0'' sample_world) = Inr 0
   \<and> lookup (fs (snd (package_platform windows_host_env linux_platform ''1.0'' sample_world)))
       (OUTPUT_DIR @ [''janus-1.0-linux-x86_64'', ''run-janus.sh'']) =
     Some (File (''#!/bin/bash'' @ [CR, LF] @
                 ''./jdk'' @ [CHR 0x5C] @ ''bin'' @ [CHR 0x5C] @
                 ''java --enable-native-access=ALL-UNNAMED -jar janus-1.0-linux-x86_64.jar "$@"'' @
                 [CR, LF]) 493)
   \<and> lookup (fs (snd (package_platform sample_env windows_platform ''1.0'' sample_world)))
       (OUTPUT_DIR @ [''janus-1.0-windows-x86_64'', ''run-janus.bat'']) =
     Some (File (''@echo off'' @ [CR, LF] @
                 ''jdk/bin/java.exe --enable-native-access=ALL-UNNAMED -jar janus-1.0-windows-x86_64.jar %*'' @
                 [CR, LF]) 420)
   \<and> lookup (fs (snd (package_platform sample_env linux_platform ''1.0'' sample_world)))
       (OUTPUT_DIR @ [''janus-1.0-linux-x86_64'', ''run-janus.sh'']) =
     Some (File (''#!/bin/bash'' @ [LF] @
                 ''./jdk/bin/java --enable-native-access=ALL-UNNAMED -jar janus-1.0-linux-x86_64.jar "$@"'' @
                 [LF]) 493)\<close>
  by code_simp

subsection \<open>The extraction\<close>

lemma for_each_preserves_aux:
  assumes step: "\<And>x w r w'. x \<in> S \<Longrightarrow> body x w = (r, w') \<Longrightarrow> R w w'"
    and refl: "\<And>w. R w w" and trans: "\<And>a b c. R a b \<Longrightarrow> R b c \<Longrightarrow> R a c"
  shows "set xs \<subseteq> S \<Longrightarrow> for_each body xs w = (r, w') \<Longrightarrow> R w w'"
proof (induction xs arbitrary: w)
  case Nil
  then show ?case using refl by simp
next
  case (Cons x xs)
  obtain r1 w1 where b: "body x w = (r1, w1)" by (cases "body x w")
  from Cons.prems(1) have xS: "x \<in> S" and sub: "set xs \<subseteq> S" by auto
  show ?case
  proof (cases r1)
    case (Inl e)
    with b Cons.prems step[OF xS b] show ?thesis by simp
  next
    case (Inr u)
    with b Cons.prems have "for_each body xs w1 = (r, w')" by simp
    from trans[OF step[OF xS b] Cons.IH[OF sub this]] show ?thesis .
  qed
qed

lemma for_each_preserves:
  assumes "for_each body xs w = (r, w')"
    and "\<And>x w r w'. x \<in> set xs \<Longrightarrow> body x w = (r, w') \<Longrightarrow> R w w'"
    and "\<And>w. R w w" and "\<And>a b c. R a b \<Longrightarrow> R b c \<Longrightarrow> R a c"
  shows "R w w'"
  using for_each_preserves_aux[of "set xs" body R xs w r w'] assms by blast

lemma for_each_raises:
  "for_each body xs w = (Inl e, w') \<Longrightarrow> \<exists>x \<in> set xs. \<exists>w1 w2. body x w1 = (Inl e, w2)"
proof (induction xs arbitrary: w)
  case Nil
  then show ?case by simp
next
  case (Cons x xs)
  obtain r1 w1 where b: "body x w = (r1, w1)" by (cases "body x w")
  show ?case
  proof (cases r1)
    case (Inl e1)
    with b Cons.prems have "body x w = (Inl e, w1)" by simp
    then show ?thesis by auto
  next
    case (Inr u)
    with b Cons.prems have "for_each body xs w1 = (Inl e, w')" by simp
    from Cons.IH[OF this] show ?thesis by auto
  qed
qed

lemma for_each_completes:
  "for_each body xs w = (Inr (), w') \<Longrightarrow> \<forall>x \<in> set xs. \<exists>w1 w2. body x w1 = (Inr (), w2)"
proof (induction xs arbitrary: w)
  case Nil
  then show ?case by simp
next
  case (Cons x xs)
  obtain r1 w1 where b: "body x w = (r1, w1)" by (cases "body x w")
  show ?case
  proof (cases r1)
    case (Inl e1)
    with b Cons.prems show ?thesis by simp
  next
    case (Inr u)
    with b Cons.prems have "for_each body xs w1 = (Inr (), w')" by simp
    from Cons.IH[OF this] b Inr show ?thesis by auto
  qed
qed

lemma ensure_dir_frame:
  "ensure_dir d w = (r, w') \<Longrightarrow> q \<noteq> d \<Longrightarrow> lookup (fs w') q = lookup (fs w) q"
  by (auto simp: ensure_dir_def action_defs split: option.splits node.splits)

lemma makedirs_frame:
  assumes "makedirs ds w = (r, w')" and "q \<notin> set ds"
  shows "lookup (fs w') q = lookup (fs w) q"
proof -
  have "for_each ensure_dir ds w = (r, w')"
    using assms(1) by (simp add: makedirs_def)
  then show ?thesis
  proof (rule for_each_preserves[where R = "\<lambda>a b. lookup (fs b) q = lookup (fs a) q"])
    fix x w r w'
    assume "x \<in> set ds" "ensure_dir x w = (r, w')"
    with assms(2) show "lookup (fs w') q = lookup (fs w) q"
      using ensure_dir_frame[of x w r w' q] by auto
  qed simp_all
qed

lemma ensure_dir_raises: "ensure_dir d w = (Inl e, w') \<Longrightarrow> e = NotADirectoryError"
proof (cases "lookup (fs w) d")
  case None
  assume "ensure_dir d w = (Inl e, w')"
  with None show ?thesis by (simp add: ensure_dir_def action_defs)
next
  case (Some n)
  assume "ensure_dir d w = (Inl e, w')"
  with Some show ?thesis by (cases n) (simp_all add: ensure_dir_def action_defs)
qed

lemma makedirs_raises:
  assumes "makedirs ds w = (Inl e, w')"
  shows "e = NotADirectoryError"
proof -
  from assms have "for_each ensure_dir ds w = (Inl e, w')" by (simp add: makedirs_def)
  from for_each_raises[OF this] show ?thesis
    using ensure_dir_raises by blast
qed

lemma tar_extract_member_frame:
  assumes "tar_extract_member dest m w = (r, w')"
    and "q \<noteq> norm (dest @ name m)" and "q \<notin> set (ancestors (norm (dest @ name m)))"
  shows "lookup (fs w') q = lookup (fs w) q"
proof -
  let ?t = "norm (dest @ name m)"
  show ?thesis
  proof (cases "kind m")
    case Directory
    with assms(1) have "makedirs (ancestors ?t @ [?t]) w = (r, w')"
      by (simp add: tar_extract_member_def Let_def)
    from makedirs_frame[OF this, of q] assms(2,3) show ?thesis by simp
  next
    case (RegFile d)
    obtain r1 w1 where mk: "makedirs (ancestors ?t) w = (r1, w1)"
      by (cases "makedirs (ancestors ?t) w")
    from makedirs_frame[OF mk assms(3)] have l1: "lookup (fs w1) q = lookup (fs w) q" .
    from RegFile assms(1) mk assms(2) l1 show ?thesis
      by (cases r1) (auto simp: tar_extract_member_def Let_def action_defs split: if_splits)
  next
    case (SymLink t)
    obtain r1 w1 where mk: "makedirs (ancestors ?t) w = (r1, w1)"
      by (cases "makedirs (ancestors ?t) w")
    from makedirs_frame[OF mk assms(3)] have l1: "lookup (fs w1) q = lookup (fs w) q" .
    from SymLink assms(1) mk assms(2) l1 show ?thesis
      by (cases r1) (auto simp: tar_extract_member_def Let_def action_defs split: if_splits)
  next
    case Special
    obtain r1 w1 where mk: "makedirs (ancestors ?t) w = (r1, w1)"
      by (cases "makedirs (ancestors ?t) w")
    from makedirs_frame[OF mk assms(3)] have l1: "lookup (fs w1) q = lookup (fs w) q" .
    from Special assms(1) mk assms(2) l1 show ?thesis
      by (cases r1) (auto simp: tar_extract_member_def Let_def action_defs split: if_splits)
  qed
qed

lemma tar_extract_member_raises:
  assumes "tar_extract_member dest m w = (Inl e, w')"
  shows "e = NotADirectoryError \<or> e = IsADirectoryError"
proof -
  let ?t = "norm (dest @ name m)"
  show ?thesis
  proof (cases "kind m")
    case Directory
    with assms have "makedirs (ancestors ?t @ [?t]) w = (Inl e, w')"
      by (simp add: tar_extract_member_def Let_def)
    from makedirs_raises[OF this] show ?thesis by simp
  next
    case (RegFile d)
    obtain r1 w1 where mk: "makedirs (ancestors ?t) w = (r1, w1)"
      by (cases "makedirs (ancestors ?t) w")
    from RegFile assms mk makedirs_raises[of "ancestors ?t" w _ w1] show ?thesis
      by (cases r1) (auto simp: tar_extract_member_def Let_def action_defs split: if_splits)
  next
    case (SymLink t)
    obtain r1 w1 where mk: "makedirs (ancestors ?t) w = (r1, w1)"
      by (cases "makedirs (ancestors ?t) w")
    from SymLink assms mk makedirs_raises[of "ancestors ?t" w _ w1] show ?thesis
      by (cases r1) (auto simp: tar_extract_member_def Let_def action_defs split: if_splits)
  next
    case Special
    obtain r1 w1 where mk: "makedirs (ancestors ?t) w = (r1, w1)"
      by (cases "makedirs (ancestors ?t) w")
    from Special assms mk makedirs_raises[of "ancestors ?t" w _ w1] show ?thesis
      by (cases r1) (auto simp: tar_extract_member_def Let_def action_defs split: if_splits)
  qed
qed


lemma data_filter_Inr:
  assumes "data_filter dest m = Inr m'"
  shows "name m' = name m" and "prefix dest (norm (dest @ name m))" and "\<not> unsafe_member dest m"
  using assms
  by (auto simp: data_filter_def unsafe_member_def Let_def split: if_splits member_kind.splits)

lemma data_filter_Inl:
  assumes "unsafe_member dest m"
  shows "\<exists>e. data_filter dest m = Inl e"
  using assms
  by (auto simp: data_filter_def unsafe_member_def Let_def split: if_splits member_kind.splits)

lemma data_filter_raises:
  "data_filter dest m = Inl e \<Longrightarrow>
     e = OutsideDestinationError \<or> e = SpecialFileError \<or> e = LinkOutsideDestinationError"
  by (auto simp: data_filter_def Let_def split: if_splits member_kind.splits)

lemma tar_extract_filtered_frame:
  assumes "tar_extract_filtered dest m w = (r, w')" and "\<not> prefix dest q" and "\<not> prefix q dest"
  shows "lookup (fs w') q = lookup (fs w) q"
proof (cases "data_filter dest m")
  case (Inl e)
  with assms(1) show ?thesis by (simp add: tar_extract_filtered_def raise_def)
next
  case (Inr m')
  note D = data_filter_Inr[OF Inr]
  let ?t = "norm (dest @ name m')"
  from D have under: "prefix dest ?t" by simp
  from Inr assms(1) have run: "tar_extract_member dest m' w = (r, w')"
    by (simp add: tar_extract_filtered_def)
  have "q \<noteq> ?t" using under assms(2) by auto
  moreover have "q \<notin> set (ancestors ?t)"
  proof
    assume "q \<in> set (ancestors ?t)"
    then have "prefix q ?t" using set_ancestors[of q ?t] by (simp add: strict_prefix_def)
    with under have "prefix q dest \<or> prefix dest q" using prefix_same_cases by blast
    with assms(2,3) show False by simp
  qed
  ultimately show ?thesis using tar_extract_member_frame[OF run] by simp
qed

lemma tar_extract_filtered_raises:
  assumes "tar_extract_filtered dest m w = (Inl e, w')"
  shows "e \<noteq> TypeError"
proof (cases "data_filter dest m")
  case (Inl e')
  with assms data_filter_raises[OF Inl] show ?thesis
    by (auto simp: tar_extract_filtered_def raise_def)
next
  case (Inr m')
  with assms have "tar_extract_member dest m' w = (Inl e, w')"
    by (simp add: tar_extract_filtered_def)
  from tar_extract_member_raises[OF this] show ?thesis by auto
qed

lemma filtered_extractall:
  assumes "tar_has_filter E" and "tar_extractall E a dest True ms w = (r, w')"
  shows "r \<noteq> Inl TypeError"
    and "\<not> prefix dest q \<Longrightarrow> \<not> prefix q dest \<Longrightarrow> lookup (fs w') q = lookup (fs w) q"
    and "list_ex (unsafe_member dest) ms \<Longrightarrow> \<exists>e. r = Inl e"
proof -
  let ?w0 = "w\<lparr>trace := trace w @ [Ev_extractall a dest]\<rparr>"
  from assms have run: "for_each (tar_extract_filtered dest) ms ?w0 = (r, w')"
    by (simp add: tar_extractall_def action_defs)
  show "r \<noteq> Inl TypeError"
  proof
    assume "r = Inl TypeError"
    with run for_each_raises[of "tar_extract_filtered dest" ms ?w0 TypeError w']
    obtain m w1 w2 where "tar_extract_filtered dest m w1 = (Inl TypeError, w2)" by auto
    from tar_extract_filtered_raises[OF this] show False by simp
  qed
  show "lookup (fs w') q = lookup (fs w) q" if "\<not> prefix dest q" "\<not> prefix q dest"
  proof -
    have "lookup (fs w') q = lookup (fs ?w0) q"
      using run
    proof (rule for_each_preserves[where R = "\<lambda>a b. lookup (fs b) q = lookup (fs a) q"])
      fix x w r w'
      assume "tar_extract_filtered dest x w = (r, w')"
      from tar_extract_filtered_frame[OF this that] show "lookup (fs w') q = lookup (fs w) q" .
    qed simp_all
    then show ?thesis by simp
  qed
  show "\<exists>e. r = Inl e" if "list_ex (unsafe_member dest) ms"
  proof (cases r)
    case (Inl e)
    then show ?thesis by simp
  next
    case (Inr u)
    with run have "for_each (tar_extract_filtered dest) ms ?w0 = (Inr (), w')" by simp
    from for_each_completes[OF this] that obtain m w1 w2 where
      m: "unsafe_member dest m" "tar_extract_filtered dest m w1 = (Inr (), w2)"
      by (auto simp: list_ex_iff)
    from data_filter_Inl[OF m(1)] m(2) show ?thesis
      by (auto simp: tar_extract_filtered_def raise_def)
  qed
qed

lemma extract_jdk_tgz:
  assumes "archive_type (jdk platform) = TGZ"
    and "lookup (fs w) (jdk_archive_path platform) = Some (File d md)"
    and "tgz_decode E d = Some ms"
  shows "extract_jdk E platform w =
           tar_extractall E (jdk_archive_path platform) (platform_tmp_folder platform)
             (tar_has_filter E) ms
             (w\<lparr>trace := trace w @ [Ev_print (Msg_Extracting (key platform))]\<rparr>)"
proof -
  let ?w0 = "w\<lparr>trace := trace w @ [Ev_print (Msg_Extracting (key platform))]\<rparr>"
  let ?a = "jdk_archive_path platform"
  let ?dest = "platform_tmp_folder platform"
  have rd: "tarfile_open_read E ?a ?w0 = (Inr ms, ?w0)"
    using assms(2,3) by (simp add: tarfile_open_read_def read_file_def action_defs)
  have unf: "extract_jdk E platform w =
     try_except (tar_extractall E ?a ?dest True ms) TypeError (tar_extractall E ?a ?dest False ms) ?w0"
    using assms(1) rd by (simp add: extract_jdk_def action_defs)
  show ?thesis
  proof (cases "tar_has_filter E")
    case True
    obtain r w' where run: "tar_extractall E ?a ?dest True ms ?w0 = (r, w')"
      by (cases "tar_extractall E ?a ?dest True ms ?w0")
    from filtered_extractall(1)[OF True run] run True unf show ?thesis
      by (cases r) (auto simp: try_except_def)
  next
    case False
    then have "tar_extractall E ?a ?dest True ms ?w0 = (Inl TypeError, ?w0)"
      by (simp add: tar_extractall_def raise_def)
    with False unf show ?thesis by (simp add: try_except_def)
  qed
qed


lemma extract_jdk_stage:
  assumes "archive_type (jdk platform) = TGZ"
    and "lookup (fs w) (jdk_archive_path platform) = Some (File d md)"
    and "tgz_decode E d = Some ms"
  shows "(tar_has_filter E \<longrightarrow>
            extract_jdk E platform w =
              next_do (emit (Ev_extractall (jdk_archive_path platform) (platform_tmp_folder platform)))
                (for_each (tar_extract_filtered (platform_tmp_folder platform)) ms)
                (w\<lparr>trace := trace w @ [Ev_print (Msg_Extracting (key platform))]\<rparr>)
            \<and> (\<forall>q. \<not> prefix (platform_tmp_folder platform) q \<and> \<not> prefix q (platform_tmp_folder platform) \<longrightarrow>
                  lookup (fs (snd (extract_jdk E platform w))) q = lookup (fs w) q)
            \<and> (list_ex (unsafe_member (platform_tmp_folder platform)) ms \<longrightarrow>
                  (\<exists>e. fst (extract_jdk E platform w) = Inl e)))
       \<and> (\<not> tar_has_filter E \<longrightarrow>
            extract_jdk E platform w =
              next_do (emit (Ev_extractall (jdk_archive_path platform) (platform_tmp_folder platform)))
                (for_each (tar_extract_member (platform_tmp_folder platform)) ms)
                (w\<lparr>trace := trace w @ [Ev_print (Msg_Extracting (key platform))]\<rparr>))"
proof -
  let ?w0 = "w\<lparr>trace := trace w @ [Ev_print (Msg_Extracting (key platform))]\<rparr>"
  let ?a = "jdk_archive_path platform"
  let ?dest = "platform_tmp_folder platform"
  note eq = extract_jdk_tgz[OF assms]
  have unfiltered: "extract_jdk E platform w =
      next_do (emit (Ev_extractall ?a ?dest)) (for_each (tar_extract_member ?dest) ms) ?w0"
    if "\<not> tar_has_filter E"
    using that eq by (simp add: tar_extractall_def)
  have filtered: "extract_jdk E platform w =
      next_do (emit (Ev_extractall ?a ?dest)) (for_each (tar_extract_filtered ?dest) ms) ?w0"
    if "tar_has_filter E"
    using that eq by (simp add: tar_extractall_def)
  have safe: "(\<forall>q. \<not> prefix ?dest q \<and> \<not> prefix q ?dest \<longrightarrow>
                  lookup (fs (snd (extract_jdk E platform w))) q = lookup (fs w) q)
            \<and> (list_ex (unsafe_member ?dest) ms \<longrightarrow> (\<exists>e. fst (extract_jdk E platform w) = Inl e))"
    if f: "tar_has_filter E"
  proof -
    obtain r w' where run: "tar_extractall E ?a ?dest True ms ?w0 = (r, w')"
      by (cases "tar_extractall E ?a ?dest True ms ?w0")
    with eq f have res: "extract_jdk E platform w = (r, w')" by simp
    from filtered_extractall(2)[OF f run] filtered_extractall(3)[OF f run] res
    show ?thesis by simp
  qed
  from unfiltered filtered safe show ?thesis by blast
qed

lemma data_mode_clears:
  "data_mode m AND 3602 = 0"
proof -
  have "int (data_mode m AND 3602) = 0"
    by (simp add: data_mode_def Let_def of_nat_and_eq of_nat_or_eq bit.conj_disj_distrib2 and.assoc)
  then show ?thesis by simp
qed

lemma data_mode_owner:
  "data_mode m AND 384 = 384"
proof -
  have a: "(x OR a) AND a = (a :: int)" for x a
    by (rule bit_eqI) (auto simp: bit_and_iff bit_or_iff)
  have "int (data_mode m AND 384) = 384"
    by (simp add: data_mode_def Let_def of_nat_and_eq of_nat_or_eq a)
  then show ?thesis by (metis of_nat_eq_iff of_nat_numeral)
qed

lemma data_mode_no_exec:
  assumes "m AND 64 = 0"
  shows "data_mode m AND 73 = 0"
proof -
  have c: "(m AND 493) AND 64 = 0"
    using assms by (simp add: and.assoc)
  have "int (data_mode m AND 73) = 0"
    using c by (simp add: data_mode_def Let_def of_nat_and_eq of_nat_or_eq bit.conj_disj_distrib2 and.assoc)
  then show ?thesis by simp
qed

lemma tar_extract_filtered_regfile:
  assumes "kind m = RegFile d" and "tar_extract_filtered dest m w = (Inr (), w')"
  shows "prefix dest (norm (dest @ name m))"
    and "lookup (fs w') (norm (dest @ name m)) = Some (File d (data_mode (mode m)))"
  using assms
  by (auto simp: tar_extract_filtered_def data_filter_def tar_extract_member_def Let_def action_defs
      split: if_splits sum.splits prod.splits)

lemma package_platform_needs_onexc:
  assumes "\<not> rmtree_has_onexc E"
  shows "package_platform E platform version_tag w = (Inl TypeError, w)"
  using assms
  by (simp add: package_platform_def ensure_directories_def rmtree_def action_defs)

lemma fallback_not_reached:
  assumes "rmtree_has_onexc E \<longrightarrow> tar_has_filter E"
  shows "package_platform E platform version_tag w =
           package_platform (E\<lparr>tar_has_filter := True\<rparr>) platform version_tag w"
proof (cases "rmtree_has_onexc E")
  case True
  with assms have "E\<lparr>tar_has_filter := True\<rparr> = E" by simp
  then show ?thesis by simp
next
  case False
  then show ?thesis
    using package_platform_needs_onexc[of E platform version_tag w]
      package_platform_needs_onexc[of "E\<lparr>tar_has_filter := True\<rparr>" platform version_tag w]
    by simp
qed

text \<open>
  Claim C9. On an interpreter without the extraction filter \<open>package_platform\<close> raises
  \<open>TypeError\<close> at its first statement, the removal of the scratch root with \<open>onexc\<close>, and
  returns the world it was given: the archive is extracted neither with the filter nor
  without, and \<open>main\<close> ends at the first platform. Stage 3 taken alone does fall back on
  that interpreter, and extracts the climbing member into the output directory. On an
  interpreter with the filter, stage 3 refuses the climbing member and writes nothing
  outside the scratch folder; the members it accepts are extracted, with the permission bits
  the filter leaves (no write bit for group and others, no set-id or sticky bit).
\<close>

theorem fallback_on_older_python:
  "\<not> tar_has_filter older_python_env
   \<and> package_platform older_python_env linux_platform ''1.0'' sample_world = (Inl TypeError, sample_world)
   \<and> main older_python_env ''1.0'' sample_world =
       (Inl TypeError,
        sample_world\<lparr>trace := [Ev_subprocess [''gradlew''] [''packageAll''],
                                Ev_print (Msg_Packaging_for ''windows-x86_64'')]\<rparr>)
   \<and> fst (extract_jdk older_python_env linux_platform downloaded_world) = Inr ()
   \<and> lookup (fs (snd (extract_jdk older_python_env linux_platform downloaded_world)))
        (OUTPUT_DIR @ [''evil'']) = Some (File ''x'' 2541)
   \<and> fst (extract_jdk new_python_env linux_platform downloaded_world) = Inl OutsideDestinationError
   \<and> lookup (fs (snd (extract_jdk new_python_env linux_platform downloaded_world)))
        (OUTPUT_DIR @ [''evil'']) = None
   \<and> lookup (fs (snd (extract_jdk new_python_env linux_platform downloaded_world)))
        (TMP_DIR @ [''linux-x86_64'', ''jdk'', ''bin'', ''java'']) = Some (File ''ELF'' 493)
   \<and> fst (extract_jdk writable_archive_env linux_platform downloaded_world) = Inr ()
   \<and> lookup (fs (snd (extract_jdk writable_archive_env linux_platform downloaded_world)))
        (TMP_DIR @ [''linux-x86_64'', ''jdk'', ''bin'', ''java'']) = Some (File ''ELF'' 493)
   \<and> lookup (fs (snd (extract_jdk writable_archive_env linux_platform downloaded_world)))
        (TMP_DIR @ [''linux-x86_64'', ''jdk'', ''release'']) = Some (File ''r'' 420)
   \<and> data_mode 4095 = 493"
proof -
  have a: "\<not> tar_has_filter older_python_env
   \<and> package_platform older_python_env linux_platform ''1.0'' sample_world = (Inl TypeError, sample_world)
   \<and> main older_python_env ''1.0'' sample_world =
       (Inl TypeError,
        sample_world\<lparr>trace := [Ev_subprocess [''gradlew''] [''packageAll''],
                                Ev_print (Msg_Packaging_for ''windows-x86_64'')]\<rparr>)
   \<and> fst (extract_jdk older_python_env linux_platform downloaded_world) = Inr ()
   \<and> lookup (fs (snd (extract_jdk older_python_env linux_platform downloaded_world)))
        (OUTPUT_DIR @ [''evil'']) = Some (File ''x'' 2541)"
    by code_simp
  have b: "fst (extract_jdk new_python_env linux_platform downloaded_world) = Inl OutsideDestinationError
   \<and> lookup (fs (snd (extract_jdk new_python_env linux_platform downloaded_world)))
        (OUTPUT_DIR @ [''evil'']) = None
   \<and> lookup (fs (snd (extract_jdk new_python_env linux_platform downloaded_world)))
        (TMP_DIR @ [''linux-x86_64'', ''jdk'', ''bin'', ''java'']) = Some (File ''ELF'' 493)"
    by code_simp
  have c: "fst (extract_jdk writable_archive_env linux_platform downloaded_world) = Inr ()
   \<and> lookup (fs (snd (extract_jdk writable_archive_env linux_platform downloaded_world)))
        (TMP_DIR @ [''linux-x86_64'', ''jdk'', ''bin'', ''java'']) = Some (File ''ELF'' 493)
   \<and> lookup (fs (snd (extract_jdk writable_archive_env linux_platform downloaded_world)))
        (TMP_DIR @ [''linux-x86_64'', ''jdk'', ''release'']) = Some (File ''r'' 420)"
    by code_simp
  have d: "data_mode 4095 = 493" by (simp add: data_mode_def)
  from a b c d show ?thesis by (simp only: simp_thms)
qed

end
